(* ===== verification/Go_Errors.thy ===== *)
theory Go_Errors
  imports Sfync_Prelude
begin

text \<open>
  Go error values as the transfer code sees them, and the three places that look inside
  one: \<open>translateError\<close> / \<open>wrapError\<close> / \<open>IsNotExist\<close> (client.go), \<open>sessionBroken\<close>
  (ftp.go) and \<open>sftpSessionBroken\<close> (sftp.go).

  An error is a tree: \<open>fmt.Errorf\<close> with \<open>%w\<close>, \<open>errors.Join\<close>, \<open>*fs.PathError\<close> and
  \<open>*cleanError\<close> wrap other errors. The text of an error made outside the program (a
  library's or the system's message, all that \<open>Error()\<close> returns) is a field of its
  constructor.
\<close>

datatype sentinel =
    ErrNotExist | ErrPermission | ErrExist | DeadlineExceeded | ErrEOF
  | errBrokenSession | errPoolClosed

datatype errno = ENOENT | EACCES | EPERM | EEXIST | ENOTEMPTY | OtherErrno string

datatype goerr =
    Sentinel sentinel
  | Errno errno
  | PathError string string goerr
  | TextprotoError int string
  | StatusError int string
  | CleanError string string goerr
  | Wrapped string "goerr list"
  | ErrorString string

type_synonym 'a res = "goerr + 'a"

text \<open>\<open>err.Error()\<close>.\<close>

fun sentinel_msg :: "sentinel \<Rightarrow> string" where
  "sentinel_msg ErrNotExist = ''file does not exist''"
| "sentinel_msg ErrPermission = ''permission denied''"
| "sentinel_msg ErrExist = ''file already exists''"
| "sentinel_msg DeadlineExceeded = ''context deadline exceeded''"
| "sentinel_msg ErrEOF = ''EOF''"
| "sentinel_msg errBrokenSession = ''ftp session state lost''"
| "sentinel_msg errPoolClosed = ''connection pool closed''"

fun errno_msg :: "errno \<Rightarrow> string" where
  "errno_msg ENOENT = ''no such file or directory''"
| "errno_msg EACCES = ''permission denied''"
| "errno_msg EPERM = ''operation not permitted''"
| "errno_msg EEXIST = ''file exists''"
| "errno_msg ENOTEMPTY = ''directory not empty''"
| "errno_msg (OtherErrno m) = m"

fun error_msg :: "goerr \<Rightarrow> string" where
  "error_msg (Sentinel s) = sentinel_msg s"
| "error_msg (Errno n) = errno_msg n"
| "error_msg (PathError op p e) = op @ '' '' @ p @ '': '' @ error_msg e"
| "error_msg (TextprotoError c m) = m"
| "error_msg (StatusError c m) = m"
| "error_msg (CleanError op m e) = op @ '': '' @ m"
| "error_msg (Wrapped m es) = m"
| "error_msg (ErrorString m) = m"

text \<open>
  The nodes of an error tree in the order \<open>errors.Is\<close> and \<open>errors.As\<close> visit them.
\<close>

fun err_nodes :: "goerr \<Rightarrow> goerr list" where
  "err_nodes (PathError op p e) = PathError op p e # err_nodes e"
| "err_nodes (CleanError op m e) = CleanError op m e # err_nodes e"
| "err_nodes (Wrapped m es) = Wrapped m es # concat (map err_nodes es)"
| "err_nodes e = [e]"

fun errno_is :: "errno \<Rightarrow> sentinel \<Rightarrow> bool" where
  "errno_is ENOENT ErrNotExist = True"
| "errno_is EACCES ErrPermission = True"
| "errno_is EPERM ErrPermission = True"
| "errno_is EEXIST ErrExist = True"
| "errno_is ENOTEMPTY ErrExist = True"
| "errno_is _ _ = False"

fun node_is :: "sentinel \<Rightarrow> goerr \<Rightarrow> bool" where
  "node_is s (Sentinel t) = (t = s)"
| "node_is s (Errno n) = errno_is n s"
| "node_is s _ = False"

definition errors_Is :: "goerr \<Rightarrow> sentinel \<Rightarrow> bool" where
  "errors_Is e s = list_ex (node_is s) (err_nodes e)"

fun as_clean :: "goerr \<Rightarrow> bool" where
  "as_clean (CleanError _ _ _) = True" | "as_clean _ = False"

fun as_textproto :: "goerr \<Rightarrow> bool" where
  "as_textproto (TextprotoError _ _) = True" | "as_textproto _ = False"

fun as_status :: "goerr \<Rightarrow> bool" where
  "as_status (StatusError _ _) = True" | "as_status _ = False"

fun as_path :: "goerr \<Rightarrow> bool" where
  "as_path (PathError _ _ _) = True" | "as_path _ = False"

text \<open>\<open>errors.As\<close>: the first node of the wanted type.\<close>

definition errors_As :: "(goerr \<Rightarrow> bool) \<Rightarrow> goerr \<Rightarrow> goerr option" where
  "errors_As P e = find P (err_nodes e)"

section \<open>translateError and wrapError\<close>

definition translate_msg :: "bool \<Rightarrow> string \<Rightarrow> string" where
  "translate_msg deadline m =
    (if Contains m ''connection refused'' then ''Connection refused''
     else if Contains m ''no such host'' \<or> Contains m ''could not resolve'' then ''Host not found''
     else if deadline \<or> Contains m ''i/o timeout'' then ''Connection timed out''
     else if Contains m ''connection reset'' then ''Connection reset by server''
     else if Contains m ''broken pipe'' then ''Connection lost''
     else if Contains m ''x509:'' \<or> Contains m ''tls:'' then ''TLS error: '' @ m
     else if Contains m ''unable to authenticate'' \<or> Contains m ''530''
             \<or> Contains m ''Login incorrect'' then ''Authentication failed''
     else if Contains m ''passphrase-protected'' then m
     else if Contains m ''key mismatch'' \<or> Contains m ''no authority for''
          then ''Server identity changed '' @ [CHR 0xE2, CHR 0x80, CHR 0x94]
               @ '' check ~/.ssh/known_hosts''
     else if Contains m ''SSH_FX_NO_SUCH_FILE'' \<or> Contains m ''No such file''
             \<or> Contains m ''550'' then ''File or directory not found''
     else if Contains m ''SSH_FX_PERMISSION_DENIED'' \<or> Contains m ''Permission denied''
             \<or> Contains m ''553'' then ''Permission denied''
     else if Contains m ''disk full'' \<or> Contains m ''552'' then ''Remote disk full''
     else if Contains m ''SSH_FX_FAILURE'' then ''Remote operation failed''
     else m)"

definition translateError :: "goerr option \<Rightarrow> string" where
  "translateError err =
    (case err of
       None \<Rightarrow> ''''
     | Some e \<Rightarrow>
        (case errors_As as_clean e of
           Some (CleanError _ m _) \<Rightarrow> m
         | _ \<Rightarrow> translate_msg (errors_Is e DeadlineExceeded) (error_msg e)))"

definition wrapError :: "string \<Rightarrow> goerr option \<Rightarrow> goerr option" where
  "wrapError operation err =
    (case err of
       None \<Rightarrow> None
     | Some e \<Rightarrow>
        (if errors_As as_clean e \<noteq> None then Some e
         else Some (CleanError operation (translateError (Some e)) e)))"

text \<open>For a call site that wraps a non-nil error.\<close>

abbreviation wrap_err :: "string \<Rightarrow> goerr \<Rightarrow> goerr" where
  "wrap_err operation e \<equiv> the (wrapError operation (Some e))"

section \<open>Classification\<close>

definition StatusFileUnavailable :: int where "StatusFileUnavailable = 550"
definition StatusNotAvailable :: int where "StatusNotAvailable = 421"

definition IsNotExist :: "goerr option \<Rightarrow> bool" where
  "IsNotExist err =
    (case err of
       None \<Rightarrow> False
     | Some e \<Rightarrow>
        errors_Is e ErrNotExist \<or>
        (case errors_As as_textproto e of
           Some (TextprotoError code _) \<Rightarrow> code = StatusFileUnavailable
         | _ \<Rightarrow> False))"

definition sessionBroken :: "goerr option \<Rightarrow> bool" where
  "sessionBroken err =
    (case err of
       None \<Rightarrow> False
     | Some e \<Rightarrow>
        if errors_Is e errBrokenSession then True
        else (case errors_As as_textproto e of
                Some (TextprotoError code _) \<Rightarrow> code = StatusNotAvailable
              | _ \<Rightarrow> errors_As as_path e = None))"

definition sftpSessionBroken :: "goerr option \<Rightarrow> bool" where
  "sftpSessionBroken err =
    (case err of
       None \<Rightarrow> False
     | Some e \<Rightarrow>
        if errors_Is e ErrNotExist \<or> errors_Is e ErrPermission then False
        else if errors_As as_status e \<noteq> None then False
        else errors_As as_path e = None)"

section \<open>Lemmas\<close>

lemma errors_Is_CleanError [simp]: "errors_Is (CleanError op m e) s = errors_Is e s"
  by (simp add: errors_Is_def)

lemma errors_As_CleanError [simp]:
  "\<not> P (CleanError op m e) \<Longrightarrow> errors_As P (CleanError op m e) = errors_As P e"
  by (simp add: errors_As_def)

lemma errors_As_clean_CleanError [simp]:
  "errors_As as_clean (CleanError op m e) = Some (CleanError op m e)"
  by (simp add: errors_As_def)

lemma errors_As_SomeD: "errors_As P e = Some x \<Longrightarrow> P x \<and> x \<in> set (err_nodes e)"
  by (auto simp: errors_As_def find_Some_iff)

lemma errors_As_None_iff: "errors_As P e = None \<longleftrightarrow> (\<forall>x \<in> set (err_nodes e). \<not> P x)"
  by (auto simp: errors_As_def find_None_iff)

text \<open>
  A view of an error that only asks \<open>errors.Is\<close> and \<open>errors.As\<close> for other types than
  \<open>*cleanError\<close> cannot tell a wrapped error from the raw one.
\<close>

lemma wrapError_Some: "wrapError op (Some e) \<noteq> None"
  by (simp add: wrapError_def)

lemma wrapError_cases:
  obtains "wrapError op (Some e) = Some e"
  | "wrapError op (Some e) = Some (CleanError op (translateError (Some e)) e)"
  by (cases "errors_As as_clean e") (auto simp: wrapError_def)

lemma errors_Is_wrapError: "wrapError op (Some e) = Some e' \<Longrightarrow> errors_Is e' s = errors_Is e s"
  by (cases rule: wrapError_cases [of op e]) auto

lemma errors_As_wrapError:
  assumes "wrapError op (Some e) = Some e'" and "\<And>o' m x. \<not> P (CleanError o' m x)"
  shows "errors_As P e' = errors_As P e"
  using assms by (cases rule: wrapError_cases [of op e]) auto

lemma classify_wrapError_Some:
  assumes "wrapError op (Some e) = Some e'"
  shows "IsNotExist (Some e') = IsNotExist (Some e)"
    "sessionBroken (Some e') = sessionBroken (Some e)"
    "sftpSessionBroken (Some e') = sftpSessionBroken (Some e)"
  using errors_Is_wrapError [OF assms] errors_As_wrapError [OF assms, of as_textproto]
    errors_As_wrapError [OF assms, of as_path] errors_As_wrapError [OF assms, of as_status]
  by (auto simp: IsNotExist_def sessionBroken_def sftpSessionBroken_def
      split: option.splits goerr.splits)

lemma wrapError_None [simp]: "wrapError op None = None"
  by (simp add: wrapError_def)

lemma classify_wrapError:
  shows "IsNotExist (wrapError op err) = IsNotExist err"
    and "sessionBroken (wrapError op err) = sessionBroken err"
    and "sftpSessionBroken (wrapError op err) = sftpSessionBroken err"
proof -
  have "IsNotExist (wrapError op err) = IsNotExist err \<and>
    sessionBroken (wrapError op err) = sessionBroken err \<and>
    sftpSessionBroken (wrapError op err) = sftpSessionBroken err"
  proof (cases err)
    case (Some e)
    then obtain e' where e': "wrapError op (Some e) = Some e'"
      using wrapError_Some [of op e] by auto
    show ?thesis
      unfolding Some e' using classify_wrapError_Some [OF e'] by simp
  qed simp
  then show "IsNotExist (wrapError op err) = IsNotExist err"
    and "sessionBroken (wrapError op err) = sessionBroken err"
    and "sftpSessionBroken (wrapError op err) = sftpSessionBroken err"
    by simp_all
qed

lemma wrapError_has_clean:
  "wrapError op (Some e) = Some e' \<Longrightarrow> errors_As as_clean e' \<noteq> None"
  by (cases rule: wrapError_cases [of op e]) (auto simp: wrapError_def split: if_splits)

lemma wrapError_idem: "wrapError op2 (wrapError op1 err) = wrapError op1 err"
proof (cases "wrapError op1 err")
  case None
  then show ?thesis by (simp add: wrapError_def)
next
  case (Some e')
  then obtain e where "err = Some e" by (cases err) (auto simp: wrapError_def)
  with Some have "errors_As as_clean e' \<noteq> None" by (auto dest: wrapError_has_clean)
  with Some show ?thesis by (simp add: wrapError_def)
qed

lemma as_clean_iff: "as_clean x \<longleftrightarrow> (\<exists>op m e. x = CleanError op m e)"
  by (cases x) auto

lemma translateError_wrapError: "translateError (wrapError op err) = translateError err"
proof (cases err)
  case (Some e)
  then show ?thesis
    by (cases rule: wrapError_cases [of op e]) (auto simp: translateError_def)
qed (simp add: wrapError_def)

lemma not_both_broken:
  "sessionBroken (Some e) \<Longrightarrow> errors_As as_path e \<noteq> None
   \<Longrightarrow> errors_Is e errBrokenSession \<or> errors_As as_textproto e \<noteq> None"
  by (auto simp: sessionBroken_def split: if_splits option.splits)

end
