(* ===== verification/Go_Path.thy ===== *)
theory Go_Path
  imports Sfync_Prelude
begin

text \<open>
  The lexical path operations of Go's \<open>path\<close> package, which on Unix are also those of
  \<open>path/filepath\<close>: \<open>Clean\<close>, \<open>Join\<close>, \<open>Split\<close>, \<open>Dir\<close>, \<open>Base\<close>, \<open>Rel\<close>.
  They are standard library code, written here as the documentation and source give
  them, on the list of path components. \<open>filepath.ToSlash\<close> is the identity on Unix.
\<close>

section \<open>Clean\<close>

text \<open>
  One component of the path is processed at a time; the accumulator is the output so
  far, last component first.
\<close>

definition clean_step :: "bool \<Rightarrow> string list \<Rightarrow> string \<Rightarrow> string list" where
  "clean_step rooted acc c =
    (if c = '''' \<or> c = ''.'' then acc
     else if c = ''..'' then
       (case acc of
          [] \<Rightarrow> if rooted then [] else [''..'']
        | x # xs \<Rightarrow> if x = ''..'' then ''..'' # acc else xs)
     else c # acc)"

definition clean_comps :: "bool \<Rightarrow> string list \<Rightarrow> string list" where
  "clean_comps rooted cs = rev (foldl (clean_step rooted) [] cs)"

definition IsAbs :: "string \<Rightarrow> bool" where
  "IsAbs p \<longleftrightarrow> HasPrefix p ''/''"

text \<open>The components of the cleaned path, and the path that has given components.\<close>

definition comps :: "string \<Rightarrow> string list" where
  "comps p = clean_comps (IsAbs p) (Split CHR ''/'' p)"

definition build_path :: "bool \<Rightarrow> string list \<Rightarrow> string" where
  "build_path rooted cs =
    (if rooted then ''/'' @ StrJoin ''/'' cs
     else if cs = [] then ''.'' else StrJoin ''/'' cs)"

definition Clean :: "string \<Rightarrow> string" where
  "Clean p = build_path (IsAbs p) (comps p)"

section \<open>Join, Split, Dir, Base, Rel\<close>

definition path_Join :: "string list \<Rightarrow> string" where
  "path_Join elems =
    (let ne = dropWhile (\<lambda>e. e = '''') elems
     in if ne = [] then '''' else Clean (StrJoin ''/'' ne))"

text \<open>\<open>path.Split\<close>: everything up to and including the last slash, and the rest.\<close>

definition path_Split :: "string \<Rightarrow> string \<times> string" where
  "path_Split p =
    (let base = rev (takeWhile (\<lambda>c. c \<noteq> CHR ''/'') (rev p))
     in (take (length p - length base) p, base))"

definition path_Dir :: "string \<Rightarrow> string" where
  "path_Dir p = Clean (fst (path_Split p))"

definition path_Base :: "string \<Rightarrow> string" where
  "path_Base p =
    (if p = '''' then ''.''
     else let q = rev (dropWhile (\<lambda>c. c = CHR ''/'') (rev p))
          in if q = '''' then ''/'' else snd (path_Split q))"

fun strip_common :: "string list \<Rightarrow> string list \<Rightarrow> string list \<times> string list" where
  "strip_common (a # as) (b # bs) = (if a = b then strip_common as bs else (a # as, b # bs))"
| "strip_common as bs = (as, bs)"

text \<open>
  \<open>filepath.Rel(base, targ)\<close>, \<open>None\<close> for its error. A relative target that cleans to
  \<open>.\<close> keeps that one component, as in the source.
\<close>

definition filepath_Rel :: "string \<Rightarrow> string \<Rightarrow> string option" where
  "filepath_Rel base targ =
    (let b = Clean base; t = Clean targ in
     if t = b then Some ''.''
     else if b \<noteq> ''.'' \<and> IsAbs b \<noteq> IsAbs t \<or> b = ''.'' \<and> IsAbs t then None
     else
       (case strip_common (comps b) (if t = ''.'' then [''.''] else comps t) of
          (bs, ts) \<Rightarrow>
            if bs \<noteq> [] \<and> hd bs = ''..'' then None
            else Some (StrJoin ''/'' (replicate (length bs) ''..'' @ ts))))"

section \<open>Plain components\<close>

text \<open>
  A plain component is a name that \<open>Clean\<close> keeps: not empty, not a dot or two dots,
  without a slash.
\<close>

definition plain :: "string \<Rightarrow> bool" where
  "plain c \<longleftrightarrow> c \<noteq> '''' \<and> c \<noteq> ''.'' \<and> c \<noteq> ''..'' \<and> CHR ''/'' \<notin> set c"

lemma clean_step_plain: "plain c \<Longrightarrow> clean_step r acc c = c # acc"
  by (simp add: clean_step_def plain_def)

lemma foldl_clean_plain:
  "\<forall>c \<in> set cs. plain c \<Longrightarrow> foldl (clean_step r) acc cs = rev cs @ acc"
  by (induction cs arbitrary: acc) (auto simp: clean_step_plain)

lemma clean_comps_plain: "\<forall>c \<in> set cs. plain c \<Longrightarrow> clean_comps r cs = cs"
  by (simp add: clean_comps_def foldl_clean_plain)

lemma clean_comps_append_plain:
  "\<forall>c \<in> set ys. plain c \<Longrightarrow> clean_comps r (xs @ ys) = clean_comps r xs @ ys"
  by (simp add: clean_comps_def foldl_clean_plain)

lemma clean_comps_Nil_head [simp]: "clean_comps r ('''' # cs) = clean_comps r cs"
  by (simp add: clean_comps_def clean_step_def)

text \<open>What \<open>Clean\<close> leaves: plain components, after leading \<open>..\<close> in a relative path only.\<close>

definition name_ok :: "string \<Rightarrow> bool" where
  "name_ok x \<longleftrightarrow> x \<noteq> '''' \<and> x \<noteq> ''.'' \<and> CHR ''/'' \<notin> set x"

lemma plain_name_ok: "plain c \<longleftrightarrow> name_ok c \<and> c \<noteq> ''..''"
  by (auto simp: plain_def name_ok_def)

lemma name_ok_dotdot: "name_ok ''..''"
  by (simp add: name_ok_def)

lemma clean_step_cases:
  obtains "clean_step r acc c = acc"
  | "clean_step r acc c = ''..'' # acc" "\<not> r \<or> ''..'' \<in> set acc"
  | "clean_step r acc c = tl acc"
  | "clean_step r acc c = c # acc" "c \<noteq> ''''" "c \<noteq> ''.''" "c \<noteq> ''..''"
proof (cases "c = '''' \<or> c = ''.'' \<or> c \<noteq> ''..''")
  case True
  then show ?thesis using that(1,4) by (cases "c = '''' \<or> c = ''.''") (auto simp: clean_step_def)
next
  case False
  then show ?thesis
    using that(1-3) by (cases acc; cases "hd acc = ''..''"; cases r) (simp_all add: clean_step_def)
qed

lemma clean_step_noslash:
  assumes "\<forall>x \<in> set acc. name_ok x" and "CHR ''/'' \<notin> set c"
  shows "\<forall>x \<in> set (clean_step r acc c). name_ok x"
proof (cases rule: clean_step_cases [of r acc c])
  case 3
  then show ?thesis using assms(1) by (cases acc) auto
next
  case 4
  then show ?thesis using assms by (simp add: name_ok_def)
qed (use assms(1) name_ok_dotdot in auto)

lemma foldl_clean_noslash:
  "\<forall>x \<in> set acc. name_ok x \<Longrightarrow> \<forall>c \<in> set cs. CHR ''/'' \<notin> set c \<Longrightarrow>
   \<forall>x \<in> set (foldl (clean_step r) acc cs). name_ok x"
proof (induction cs arbitrary: acc)
  case (Cons c cs)
  from Cons.prems have "\<forall>x \<in> set (clean_step r acc c). name_ok x"
    by (intro clean_step_noslash) auto
  then show ?case
    using Cons.IH Cons.prems by simp
qed simp

lemma clean_step_rooted:
  assumes "''..'' \<notin> set acc"
  shows "''..'' \<notin> set (clean_step True acc c)"
proof (cases rule: clean_step_cases [of True acc c])
  case 3
  then show ?thesis using assms by (cases acc) auto
qed (use assms in auto)

lemma foldl_clean_rooted:
  "''..'' \<notin> set acc \<Longrightarrow> ''..'' \<notin> set (foldl (clean_step True) acc cs)"
  by (induction cs arbitrary: acc) (simp_all add: clean_step_rooted)

lemma comps_name_ok: "c \<in> set (comps p) \<Longrightarrow> name_ok c"
  using foldl_clean_noslash [of "[]" "Split CHR ''/'' p" "IsAbs p"] Split_no_sep_elem
  by (auto simp: comps_def clean_comps_def)

lemma comps_abs_plain: "IsAbs p \<Longrightarrow> c \<in> set (comps p) \<Longrightarrow> plain c"
  using comps_name_ok [of c p] foldl_clean_rooted [of "[]" "Split CHR ''/'' p"]
  by (auto simp: comps_def clean_comps_def plain_name_ok)

section \<open>Building and reading back\<close>

lemma IsAbs_build_path:
  "\<forall>c \<in> set cs. c \<noteq> '''' \<and> CHR ''/'' \<notin> set c \<Longrightarrow> IsAbs (build_path r cs) = r"
proof (cases cs)
  case (Cons c cs')
  assume *: "\<forall>c \<in> set cs. c \<noteq> '''' \<and> CHR ''/'' \<notin> set c"
  with Cons obtain x c' where "c = x # c'" "x \<noteq> CHR ''/''" by (cases c) auto
  with Cons show ?thesis
    by (cases cs') (auto simp: build_path_def IsAbs_def HasPrefix_def)
qed (auto simp: build_path_def IsAbs_def HasPrefix_def)

lemma Split_build_path:
  assumes "\<forall>c \<in> set cs. CHR ''/'' \<notin> set c" and "cs \<noteq> []"
  shows "Split CHR ''/'' (build_path r cs) = (if r then '''' # cs else cs)"
  using assms Split_StrJoin [of cs "CHR ''/''"] by (simp add: build_path_def)

lemma comps_build_plain:
  assumes "\<forall>c \<in> set cs. plain c"
  shows "comps (build_path r cs) = cs"
proof (cases "cs = []")
  case True
  then show ?thesis
    by (auto simp: comps_def build_path_def clean_comps_def clean_step_def)
next
  case False
  have "\<forall>c \<in> set cs. CHR ''/'' \<notin> set c" using assms by (auto simp: plain_def)
  then have "Split CHR ''/'' (build_path r cs) = (if r then '''' # cs else cs)"
    using False by (rule Split_build_path)
  then show ?thesis
    using assms by (simp add: comps_def clean_comps_plain)
qed

lemma IsAbs_Clean [simp]: "IsAbs (Clean p) = IsAbs p"
  unfolding Clean_def by (rule IsAbs_build_path) (auto dest: comps_name_ok simp: name_ok_def)

lemma comps_Clean_abs: "IsAbs p \<Longrightarrow> comps (Clean p) = comps p"
  unfolding Clean_def by (rule comps_build_plain) (auto intro: comps_abs_plain)

lemma Clean_Clean_abs: "IsAbs p \<Longrightarrow> Clean (Clean p) = Clean p"
  by (simp add: Clean_def [of "Clean p"] comps_Clean_abs) (simp add: Clean_def)

text \<open>
  Joining a clean relative path to a directory appends its components; this is what
  keeps every path the mirror builds inside its root.
\<close>

lemma StrJoin_ne: "cs \<noteq> [] \<Longrightarrow> \<forall>c \<in> set cs. c \<noteq> '''' \<Longrightarrow> StrJoin s cs \<noteq> ''''"
  by (cases cs; cases "tl cs") auto

lemma IsAbs_append: "p \<noteq> '''' \<Longrightarrow> IsAbs (p @ q) = IsAbs p"
  by (cases p) (auto simp: IsAbs_def HasPrefix_def)

lemma path_Join_2:
  "d \<noteq> '''' \<Longrightarrow> path_Join [d, r] = Clean (d @ ''/'' @ r)"
  by (simp add: path_Join_def)

lemma comps_join_plain:
  assumes "d \<noteq> ''''" "cs \<noteq> []" "\<forall>c \<in> set cs. plain c"
  shows "comps (d @ ''/'' @ StrJoin ''/'' cs) = comps d @ cs"
proof -
  have "\<forall>c \<in> set cs. CHR ''/'' \<notin> set c" using assms(3) by (auto simp: plain_def)
  then have "Split CHR ''/'' (d @ ''/'' @ StrJoin ''/'' cs) = Split CHR ''/'' d @ cs"
    using assms(2) Split_append_general [of "CHR ''/''" d] Split_StrJoin [of cs "CHR ''/''"]
    by simp
  moreover have "IsAbs (d @ ''/'' @ StrJoin ''/'' cs) = IsAbs d"
    using assms(1) by (rule IsAbs_append)
  ultimately show ?thesis
    using assms(3) by (simp add: comps_def clean_comps_append_plain)
qed

lemma path_Join_plain:
  assumes "d \<noteq> ''''" "cs \<noteq> []" "\<forall>c \<in> set cs. plain c"
  shows "path_Join [d, StrJoin ''/'' cs] = build_path (IsAbs d) (comps d @ cs)"
proof -
  have "IsAbs (d @ ''/'' @ StrJoin ''/'' cs) = IsAbs d"
    using assms(1) by (rule IsAbs_append)
  then show ?thesis
    using assms comps_join_plain [OF assms]
    by (simp only: path_Join_2 [OF assms(1)] Clean_def)
qed

section \<open>Cleaning is idempotent\<close>

text \<open>A relative path may keep leading \<open>..\<close> components; nothing else is ever left.\<close>

definition clean_shape :: "bool \<Rightarrow> string list \<Rightarrow> bool" where
  "clean_shape r cs \<longleftrightarrow>
     (\<exists>k ys. cs = replicate k ''..'' @ ys \<and> (\<forall>y \<in> set ys. plain y) \<and> (r \<longrightarrow> k = 0))"

lemma clean_shapeI:
  "\<forall>y \<in> set ys. plain y \<Longrightarrow> (r \<Longrightarrow> k = 0) \<Longrightarrow> clean_shape r (replicate k ''..'' @ ys)"
  unfolding clean_shape_def by blast

lemma not_plain_dotdot: "\<not> plain ''..''"
  by (simp add: plain_def)

lemma clean_step_shape:
  assumes "clean_shape r (rev acc)" "CHR ''/'' \<notin> set c"
  shows "clean_shape r (rev (clean_step r acc c))"
proof -
  obtain k ys where acc: "rev acc = replicate k ''..'' @ ys" and ys: "\<forall>y \<in> set ys. plain y"
    and k: "r \<longrightarrow> k = 0"
    using assms(1) by (auto simp: clean_shape_def)
  show ?thesis
  proof (cases "c = ''..''")
    case False
    then show ?thesis
    proof (cases "c = '''' \<or> c = ''.''")
      case True
      then show ?thesis using assms(1) by (auto simp: clean_step_def)
    next
      case 2: False
      with False assms(2) have "plain c" by (simp add: plain_def)
      then show ?thesis
        using acc ys k clean_shapeI [of "ys @ [c]" r k] by (simp add: clean_step_plain)
    qed
  next
    case True
    show ?thesis
    proof (cases ys rule: rev_cases)
      case Nil
      then have acc: "acc = replicate k ''..''" using acc by (simp add: rev_swap)
      show ?thesis
      proof (cases k)
        case 0
        then have "clean_step r acc c = (if r then [] else [''..''])"
          using True acc by (simp add: clean_step_def)
        then show ?thesis using clean_shapeI [of "[]" r "if r then 0 else 1"] by (cases r) auto
      next
        case (Suc n)
        then have "clean_step r acc c = replicate (Suc k) ''..''"
          using True acc by (simp add: clean_step_def)
        moreover have "clean_shape r (replicate (Suc k) ''..'')"
          using clean_shapeI [of "[]" r "Suc k"] k Suc by auto
        ultimately show ?thesis by (simp only: rev_replicate)
      qed
    next
      case (snoc zs z)
      then have "acc = z # rev zs @ replicate k ''..''"
        using acc by (metis append_assoc rev.simps(2) rev_append rev_replicate rev_rev_ident rev_swap)
      moreover have "z \<noteq> ''..''" using ys snoc not_plain_dotdot by auto
      ultimately have "clean_step r acc c = rev zs @ replicate k ''..''"
        using True by (simp add: clean_step_def)
      then show ?thesis using clean_shapeI [of zs r k] ys k snoc by simp
    qed
  qed
qed

lemma foldl_clean_shape:
  "clean_shape r (rev acc) \<Longrightarrow> \<forall>c \<in> set cs. CHR ''/'' \<notin> set c \<Longrightarrow>
   clean_shape r (rev (foldl (clean_step r) acc cs))"
  by (induction cs arbitrary: acc) (auto simp: clean_step_shape)

lemma clean_shape_comps: "clean_shape (IsAbs p) (comps p)"
  unfolding comps_def clean_comps_def
  using foldl_clean_shape [of "IsAbs p" "[]" "Split CHR ''/'' p"] Split_no_sep_elem
    clean_shapeI [of "[]" "IsAbs p" 0]
  by auto

lemma foldl_clean_dotdots:
  "foldl (clean_step False) (replicate n ''..'') (replicate k ''..'') = replicate (k + n) ''..''"
proof (induction k arbitrary: n)
  case (Suc k)
  have "clean_step False (replicate n ''..'') ''..'' = replicate (Suc n) ''..''"
    by (cases n) (simp_all add: clean_step_def)
  then show ?case using Suc [of "Suc n"] by (simp add: replicate_app_Cons_same)
qed simp

lemma clean_comps_shape: "clean_shape r cs \<Longrightarrow> clean_comps r cs = cs"
proof -
  assume "clean_shape r cs"
  then obtain k ys where cs: "cs = replicate k ''..'' @ ys" and ys: "\<forall>y \<in> set ys. plain y"
    and k: "r \<longrightarrow> k = 0"
    by (auto simp: clean_shape_def)
  show ?thesis
  proof (cases r)
    case True
    then show ?thesis using cs ys k by (simp add: clean_comps_plain)
  next
    case False
    then show ?thesis
      using cs ys foldl_clean_dotdots [of 0 k]
      by (simp add: clean_comps_def foldl_clean_plain)
  qed
qed

lemma comps_build_shape:
  assumes "clean_shape r cs"
  shows "comps (build_path r cs) = cs"
proof (cases "cs = []")
  case True
  then show ?thesis by (simp add: comps_build_plain)
next
  case False
  obtain k ys where "cs = replicate k ''..'' @ ys" "\<forall>y \<in> set ys. plain y"
    using assms by (auto simp: clean_shape_def)
  then have ok: "\<forall>c \<in> set cs. name_ok c"
    using name_ok_dotdot by (auto simp: plain_name_ok)
  then have "Split CHR ''/'' (build_path r cs) = (if r then '''' # cs else cs)"
    using False by (intro Split_build_path) (auto simp: name_ok_def)
  moreover have "IsAbs (build_path r cs) = r"
    using ok by (intro IsAbs_build_path) (auto simp: name_ok_def)
  ultimately show ?thesis
    using assms by (cases r) (simp_all add: comps_def clean_comps_shape)
qed

lemma comps_Clean [simp]: "comps (Clean p) = comps p"
  unfolding Clean_def by (rule comps_build_shape [OF clean_shape_comps])

lemma Clean_Clean [simp]: "Clean (Clean p) = Clean p"
  by (simp add: Clean_def [of "Clean p"]) (simp add: Clean_def)

lemma build_path_nonempty: "\<forall>c \<in> set cs. c \<noteq> '''' \<Longrightarrow> build_path r cs \<noteq> ''''"
  using StrJoin_ne [of cs] by (auto simp: build_path_def)

lemma Clean_nonempty [simp]: "Clean p \<noteq> ''''"
  unfolding Clean_def by (rule build_path_nonempty) (auto dest: comps_name_ok simp: name_ok_def)

lemma clean_shape_append:
  assumes "clean_shape r cs" "\<forall>y \<in> set ys. plain y"
  shows "clean_shape r (cs @ ys)"
proof -
  obtain k zs where "cs = replicate k ''..'' @ zs" "\<forall>y \<in> set zs. plain y" "r \<longrightarrow> k = 0"
    using assms(1) by (auto simp: clean_shape_def)
  then show ?thesis using clean_shapeI [of "zs @ ys" r k] assms(2) by auto
qed

lemma clean_shape_name_ok: "clean_shape r cs \<Longrightarrow> \<forall>c \<in> set cs. name_ok c"
  using name_ok_dotdot by (auto simp: clean_shape_def plain_name_ok)

lemma Clean_build_shape:
  assumes "clean_shape r cs"
  shows "Clean (build_path r cs) = build_path r cs"
proof -
  have "IsAbs (build_path r cs) = r"
    using clean_shape_name_ok [OF assms] by (intro IsAbs_build_path) (auto simp: name_ok_def)
  then show ?thesis using comps_build_shape [OF assms] by (simp add: Clean_def)
qed

lemma Clean_trailing: "p \<noteq> '''' \<Longrightarrow> Clean (p @ ''/'') = Clean p"
proof -
  assume p: "p \<noteq> ''''"
  have "Split CHR ''/'' (p @ ''/'') = Split CHR ''/'' p @ ['''']"
    using Split_append_general [of "CHR ''/''" p "''''"] by simp
  then have "comps (p @ ''/'') = comps p"
    using IsAbs_append [OF p] by (simp add: comps_def clean_comps_def clean_step_def)
  then show ?thesis using IsAbs_append [OF p] by (simp add: Clean_def)
qed

section \<open>Paths below a directory\<close>

text \<open>A plain key is a relative path of plain components.\<close>

definition plain_key :: "string \<Rightarrow> bool" where
  "plain_key k \<longleftrightarrow> (\<exists>ns. k = StrJoin ''/'' ns \<and> ns \<noteq> [] \<and> (\<forall>n \<in> set ns. plain n))"

text \<open>A path strictly below a directory: its cleaned components extend the directory's.\<close>

definition strictly_below :: "string \<Rightarrow> string \<Rightarrow> bool" where
  "strictly_below dir p \<longleftrightarrow>
     IsAbs p = IsAbs dir \<and> (\<exists>ns. ns \<noteq> [] \<and> (\<forall>n \<in> set ns. plain n) \<and> comps p = comps dir @ ns)"

lemma plain_key_below: "plain_key k \<Longrightarrow> d \<noteq> '''' \<Longrightarrow> strictly_below d (path_Join [d, k])"
proof -
  assume "plain_key k" "d \<noteq> ''''"
  then obtain ns where ns: "k = StrJoin ''/'' ns" "ns \<noteq> []" "\<forall>n \<in> set ns. plain n"
    by (auto simp: plain_key_def)
  have "path_Join [d, k] = Clean (d @ ''/'' @ k)"
    using \<open>d \<noteq> ''''\<close> ns StrJoin_ne [of ns "''/''"] by (auto simp: path_Join_def plain_def)
  then show ?thesis
    using comps_join_plain [OF \<open>d \<noteq> ''''\<close> ns(2,3)] ns \<open>d \<noteq> ''''\<close>
    by (auto simp: strictly_below_def IsAbs_append)
qed

lemma comps_nonempty_nodot: "\<forall>c \<in> set (comps p). c \<noteq> ''''"
  by (auto dest: comps_name_ok simp: name_ok_def)

text \<open>What follows a clean absolute directory and a slash in a clean absolute path.\<close>

lemma clean_suffix_plain:
  assumes "Clean d = d" "IsAbs d" "Clean (d @ ''/'' @ r) = d @ ''/'' @ r"
  shows "plain_key r"
proof -
  let ?cs = "comps (d @ ''/'' @ r)"
  have abs: "IsAbs (d @ ''/'' @ r)" using assms(1,2) by (metis Clean_nonempty IsAbs_append)
  have plain: "\<forall>c \<in> set ?cs. plain c" "\<forall>c \<in> set (comps d). plain c"
    using comps_abs_plain [OF abs] comps_abs_plain [OF assms(2)] by auto
  have dstr: "d = ''/'' @ StrJoin ''/'' (comps d)"
    using assms(1,2) by (simp add: Clean_def build_path_def)
  have eq: "d @ ''/'' @ r = ''/'' @ StrJoin ''/'' ?cs"
    using assms(3) abs by (simp add: Clean_def build_path_def)
  have noslash: "\<forall>c \<in> set cs. CHR ''/'' \<notin> set c" if "\<forall>c \<in> set cs. plain c" for cs
    using that by (auto simp: plain_def)
  have rne: "comps d @ Split CHR ''/'' r = ?cs"
  proof (cases "comps d = []")
    case True
    then have "''/'' @ r = StrJoin ''/'' ?cs" using dstr eq by simp
    then have j: "StrJoin ''/'' ?cs = ''/'' @ r" by simp
    have "?cs \<noteq> []"
    proof
      assume "?cs = []"
      then show False using j by (simp only: StrJoin.simps) simp
    qed
    then have "Split CHR ''/'' (''/'' @ r) = ?cs"
      using Split_StrJoin [of ?cs "CHR ''/''"] noslash [OF plain(1)] j by simp
    then have "'''' \<in> set ?cs" by (metis Split.simps(2) append_Cons append_Nil list.set_intros(1))
    then show ?thesis using plain(1) by (auto simp: plain_def)
  next
    case False
    have "StrJoin ''/'' (comps d) @ ''/'' @ r = StrJoin ''/'' ?cs" using dstr eq by (metis append_Cons append_Nil append_assoc list.inject)
    moreover from this have "?cs \<noteq> []" by auto
    ultimately have "Split CHR ''/'' (StrJoin ''/'' (comps d) @ CHR ''/'' # r) = ?cs"
      using Split_StrJoin [of ?cs "CHR ''/''"] noslash [OF plain(1)] by simp
    then show ?thesis
      using Split_append_general [of "CHR ''/''"] Split_StrJoin [OF False, of "CHR ''/''"] noslash [OF plain(2)]
      by simp
  qed
  then have "\<forall>c \<in> set (Split CHR ''/'' r). plain c" using plain(1) by (metis Un_iff set_append)
  then show ?thesis
    unfolding plain_key_def using StrJoin_Split [of "CHR ''/''" r] by (metis Split_not_Nil)
qed

section \<open>Going up\<close>

text \<open>Taking the parent again and again ends: \<open>path_Dir\<close> shortens a path until it stays.\<close>

lemma clean_foldl_weight:
  "sum_list (map (\<lambda>c. Suc (length c)) (foldl (clean_step r) acc cs)) \<le>
   sum_list (map (\<lambda>c. Suc (length c)) acc) + sum_list (map (\<lambda>c. Suc (length c)) cs)"
proof (induction cs arbitrary: acc)
  case (Cons c cs)
  have "sum_list (map (\<lambda>c. Suc (length c)) (clean_step r acc c)) \<le>
      sum_list (map (\<lambda>c. Suc (length c)) acc) + Suc (length c)"
    by (cases acc) (auto simp: clean_step_def)
  then show ?case using Cons [of "clean_step r acc c"] by simp
qed simp

lemma weight_Split: "sum_list (map (\<lambda>c. Suc (length c)) (Split s p)) = Suc (length p)"
proof (induction p)
  case (Cons x p)
  then show ?case by (cases "Split s p") auto
qed simp

lemma length_StrJoin:
  "cs \<noteq> [] \<Longrightarrow> Suc (length (StrJoin ''/'' cs)) = sum_list (map (\<lambda>c. Suc (length c)) cs)"
proof (induction cs)
  case (Cons c cs)
  then show ?case by (cases cs) auto
qed simp

lemma length_Clean:
  assumes "p \<noteq> ''''"
  shows "length (Clean p) \<le> length p"
proof -
  have w: "sum_list (map (\<lambda>c. Suc (length c)) (comps p)) \<le> Suc (length p) - (if IsAbs p then 1 else 0)"
  proof (cases "IsAbs p")
    case True
    then obtain q where p: "p = CHR ''/'' # q" by (auto simp: IsAbs_def HasPrefix_iff)
    have "comps p = rev (foldl (clean_step True) [] (Split CHR ''/'' q))"
      using True by (simp add: comps_def p clean_comps_def clean_step_def)
    then show ?thesis
      using clean_foldl_weight [of True "[]" "Split CHR ''/'' q"] weight_Split [of "CHR ''/''" q] True
      by (simp add: p rev_map [symmetric] sum_list_rev)
  next
    case False
    then show ?thesis
      using clean_foldl_weight [of False "[]" "Split CHR ''/'' p"] weight_Split [of "CHR ''/''" p]
      by (simp add: comps_def clean_comps_def rev_map [symmetric] sum_list_rev)
  qed
  show ?thesis
  proof (cases "comps p = []")
    case True
    then show ?thesis using assms by (cases p) (auto simp: Clean_def build_path_def)
  next
    case False
    then show ?thesis
      using w length_StrJoin [OF False] by (auto simp: Clean_def build_path_def split: if_splits)
  qed
qed

lemma path_Split_cut:
  obtains d b where "path_Split p = (d, b)" "p = d @ b" "d = '''' \<or> (\<exists>t. d = t @ ''/'')"
    "CHR ''/'' \<notin> set b"
proof -
  let ?b = "takeWhile (\<lambda>c. c \<noteq> CHR ''/'') (rev p)" and ?r = "dropWhile (\<lambda>c. c \<noteq> CHR ''/'') (rev p)"
  have p: "p = rev ?r @ rev ?b"
    by (metis rev_append rev_rev_ident takeWhile_dropWhile_id)
  then have "length p = length ?r + length ?b" by (metis length_append length_rev)
  then have "path_Split p = (rev ?r, rev ?b)"
    using p by (simp add: path_Split_def) (metis append_eq_conv_conj length_rev)
  moreover have "rev ?r = '''' \<or> (\<exists>t. rev ?r = t @ ''/'')"
  proof (cases ?r)
    case (Cons x xs)
    then have "x = CHR ''/''" using hd_dropWhile [of "\<lambda>c. c \<noteq> CHR ''/''" "rev p"] by simp
    then show ?thesis using Cons by simp
  qed simp
  moreover have "CHR ''/'' \<notin> set (rev ?b)" by (auto dest: set_takeWhileD)
  ultimately show thesis using p that by blast
qed

definition up_measure :: "string \<Rightarrow> nat" where
  "up_measure p = (if p = ''.'' then 0 else Suc (length p))"

lemma path_Dir_up:
  assumes "path_Dir p \<noteq> p"
  shows "up_measure (path_Dir p) < up_measure p"
proof -
  obtain d b where s: "path_Split p = (d, b)" and p: "p = d @ b" and d: "d = '''' \<or> (\<exists>t. d = t @ ''/'')"
    by (rule path_Split_cut [of p])
  have dir: "path_Dir p = Clean d" by (simp add: path_Dir_def s)
  have dot: "Clean '''' = ''.''" "Clean ''/'' = ''/''" by code_simp+
  show ?thesis
  proof (cases "p = ''.''")
    case True
    have "path_Dir ''.'' = ''.''" by code_simp
    then show ?thesis using assms True by simp
  next
    case ne: False
    show ?thesis
    proof (cases "d = '''' \<or> Clean d = ''.''")
      case True
      then show ?thesis using dir dot ne by (auto simp: up_measure_def)
    next
      case False
      then obtain t where t: "d = t @ ''/''" using d by blast
      have "length (Clean d) < length p"
      proof (cases "t = ''''")
        case True
        then have "b \<noteq> ''''" using assms dir p t dot by auto
        then show ?thesis using True t dot p by simp
      next
        case False
        then show ?thesis using length_Clean [OF False] Clean_trailing [OF False] t p by simp
      qed
      then show ?thesis using dir ne by (simp add: up_measure_def)
    qed
  qed
qed

lemma IsAbs_path_Dir: "IsAbs p \<Longrightarrow> IsAbs (path_Dir p)"
proof -
  assume "IsAbs p"
  then obtain q where p: "p = CHR ''/'' # q" by (auto simp: IsAbs_def HasPrefix_iff)
  obtain d b where s: "path_Split p = (d, b)" "p = d @ b" "CHR ''/'' \<notin> set b"
    by (rule path_Split_cut [of p])
  then have "IsAbs d" using p by (cases d) (auto simp: IsAbs_def HasPrefix_iff)
  then show ?thesis by (simp add: path_Dir_def s(1))
qed

lemma IsAbs_path_Join: "IsAbs d \<Longrightarrow> IsAbs (path_Join [d, p])"
proof -
  assume d: "IsAbs d"
  then have "d \<noteq> ''''" by (auto simp: IsAbs_def HasPrefix_iff)
  then show ?thesis using d IsAbs_append [of d] by (simp add: path_Join_2)
qed

lemma path_Dir_nonempty [simp]: "path_Dir p \<noteq> ''''"
  by (simp add: path_Dir_def)

end
