(* ===== verification/Transfer_Client.thy ===== *)
theory Transfer_Client
  imports Go_Errors Go_Path
begin

text \<open>
  The data of internal/transfer/client.go: file descriptions, mirror actions, the
  \<open>RemoteClient\<close> interface, time limits; the entry-name check; and the partial-file
  naming of internal/transfer/atomic.go.

  A Go interface is a record of functions. The state of the outside world (server,
  connection, local disk) is a type variable \<open>'w\<close> that every call takes and returns.
\<close>

section \<open>Files\<close>

text \<open>The part of \<open>os.FileMode\<close> the program looks at: the type bits and the permissions.\<close>

datatype fkind = KRegular | KDir | KSymlink | KOther

record FileInfo =
  fi_Name :: string
  fi_Size :: int
  fi_ModTime :: gotime
  fi_Kind :: fkind
  fi_Perm :: nat

definition fi_IsDir :: "FileInfo \<Rightarrow> bool" where
  "fi_IsDir i \<longleftrightarrow> fi_Kind i = KDir"

definition fi_IsRegular :: "FileInfo \<Rightarrow> bool" where
  "fi_IsRegular i \<longleftrightarrow> fi_Kind i = KRegular"

record RemoteFileInfo =
  ri_Name :: string
  ri_Path :: string
  ri_Size :: int
  ri_ModTime :: gotime
  ri_IsDir :: bool
  ri_Mode :: "fkind \<times> nat"
  ri_ModTimePrecision :: duration

section \<open>Mirror actions and results\<close>

datatype MirrorAction =
    ActionUpload | ActionDownload | ActionDelete | ActionDeleteDir
  | ActionMkdir | ActionSkip | ActionConflict

record MirrorEntry =
  Action :: MirrorAction
  RelPath :: string
  LocalInfo :: "FileInfo option"
  RemoteInfo :: "RemoteFileInfo option"
  IsNew :: bool

record MirrorResult =
  Uploaded :: int
  Downloaded :: int
  Deleted :: int
  Created :: int
  Skipped :: int
  Warnings :: "string list"
  Errors :: "string list"
  Success :: bool
  Actions :: "MirrorEntry list"

definition empty_result :: MirrorResult where
  "empty_result = \<lparr>Uploaded = 0, Downloaded = 0, Deleted = 0, Created = 0, Skipped = 0,
     Warnings = [], Errors = [], Success = False, Actions = []\<rparr>"

section \<open>The client interface\<close>

text \<open>
  \<open>rc_Concurrent\<close> is the dynamic type test for \<open>concurrentClient\<close> (\<open>None\<close>: not
  implemented) and \<open>rc_DownloadKnown\<close> the one for \<open>knownDownloader\<close>.
\<close>

record 'w RemoteClient =
  rc_Connect :: "'w \<Rightarrow> goerr option \<times> 'w"
  rc_Close :: "'w \<Rightarrow> goerr option \<times> 'w"
  rc_IsAlive :: "'w \<Rightarrow> bool \<times> 'w"
  rc_Stat :: "string \<Rightarrow> 'w \<Rightarrow> RemoteFileInfo res \<times> 'w"
  rc_ReadDir :: "string \<Rightarrow> 'w \<Rightarrow> RemoteFileInfo list res \<times> 'w"
  rc_Upload :: "string \<Rightarrow> string \<Rightarrow> 'w \<Rightarrow> goerr option \<times> 'w"
  rc_UploadResume :: "string \<Rightarrow> string \<Rightarrow> 'w \<Rightarrow> goerr option \<times> 'w"
  rc_Download :: "string \<Rightarrow> string \<Rightarrow> 'w \<Rightarrow> goerr option \<times> 'w"
  rc_Mkdir :: "string \<Rightarrow> 'w \<Rightarrow> goerr option \<times> 'w"
  rc_MkdirAll :: "string \<Rightarrow> 'w \<Rightarrow> goerr option \<times> 'w"
  rc_Remove :: "string \<Rightarrow> 'w \<Rightarrow> goerr option \<times> 'w"
  rc_RemoveDir :: "string \<Rightarrow> 'w \<Rightarrow> goerr option \<times> 'w"
  rc_Chmod :: "string \<Rightarrow> nat \<Rightarrow> 'w \<Rightarrow> goerr option \<times> 'w"
  rc_Concurrent :: "bool option"
  rc_DownloadKnown :: "(string \<Rightarrow> string \<Rightarrow> int \<Rightarrow> gotime \<Rightarrow> 'w \<Rightarrow> goerr option \<times> 'w) option"

definition supportsConcurrentRequests :: "'w RemoteClient \<Rightarrow> bool" where
  "supportsConcurrentRequests client \<longleftrightarrow> rc_Concurrent client = Some True"

section \<open>Limits\<close>

definition DialTimeout :: duration where "DialTimeout = 10 * Second"
definition OperationTimeout :: duration where "OperationTimeout = 30 * Second"
definition ReadDirTimeout :: duration where "ReadDirTimeout = 60 * Second"
definition AliveTimeout :: duration where "AliveTimeout = 5 * Second"
definition ResumeThreshold :: int where "ResumeThreshold = 10 * 1024 * 1024"
definition unknownSizeTransferTimeout :: duration where
  "unknownSizeTransferTimeout = 10 * Minute"
definition MaxConcurrentReadDir :: nat where "MaxConcurrentReadDir = 32"
definition MaxConcurrentTransfers :: nat where "MaxConcurrentTransfers = 16"
definition MaxConcurrentLargeTransfers :: nat where "MaxConcurrentLargeTransfers = 4"
definition LargeTransferSize :: int where "LargeTransferSize = 2 ^ 20"

text \<open>\<open>time.Duration(fileSize/(1024*1024)) * time.Second\<close> is an int64 product and wraps.\<close>

definition TransferTimeout :: "int \<Rightarrow> duration" where
  "TransferTimeout fileSize =
    (let base = 30 * Second;
         perMB = int64 (go_div fileSize (1024 * 1024) * Second)
     in int64 (base + perMB))"

definition RemotePath :: "string list \<Rightarrow> string" where
  "RemotePath parts = path_Join parts"

section \<open>Names from the server\<close>

definition isSafeEntryName :: "string \<Rightarrow> bool" where
  "isSafeEntryName name =
    (if name = '''' \<or> name = ''.'' \<or> name = ''..'' then False
     else \<not> ContainsAny name [CHR ''/'', CHR 0x5C])"

section \<open>Partial files\<close>

definition partialSuffix :: string where "partialSuffix = ''.sfync-part''"

definition IsPartialName :: "string \<Rightarrow> bool" where
  "IsPartialName name = HasSuffix name partialSuffix"

definition remotePartialPath :: "string \<Rightarrow> string" where
  "remotePartialPath remotePath =
    (case path_Split remotePath of (dir, base) \<Rightarrow> dir @ ''.'' @ base @ partialSuffix)"

definition canResumePartial :: "int \<Rightarrow> gotime \<Rightarrow> FileInfo \<Rightarrow> bool" where
  "canResumePartial partialSize partialModTime loc \<longleftrightarrow>
     partialSize > 0 \<and> partialSize \<le> fi_Size loc \<and>
     \<not> time_After (fi_ModTime loc) partialModTime"

section \<open>Lemmas\<close>

lemma TransferTimeout_exact:
  assumes "0 \<le> n" "n < 2 ^ 50"
  shows "TransferTimeout n = 30 * Second + n div 2 ^ 20 * Second"
proof -
  have div: "go_div n (1024 * 1024) = n div 2 ^ 20"
    using assms(1) by (simp add: go_div_nonneg)
  have "0 \<le> n div 2 ^ 20" "n div 2 ^ 20 < 2 ^ 30" using assms by simp_all
  then have "int64_range (n div 2 ^ 20 * Second)"
    "int64_range (30 * Second + n div 2 ^ 20 * Second)"
    by (simp_all add: int64_range_def)
  then show ?thesis by (simp only: TransferTimeout_def Let_def div int64_id)
qed

lemma isSafeEntryName_plain: "isSafeEntryName n \<Longrightarrow> plain n"
  by (auto simp: isSafeEntryName_def plain_def ContainsAny_def list_ex_iff split: if_splits)

lemma takeWhile_all: "x \<notin> set xs \<Longrightarrow> takeWhile (\<lambda>c. c \<noteq> x) xs = xs"
  by (auto simp: takeWhile_eq_all_conv)

lemma path_Split_eq:
  "CHR ''/'' \<notin> set b \<Longrightarrow> d = '''' \<or> last d = CHR ''/'' \<Longrightarrow> path_Split (d @ b) = (d, b)"
  unfolding path_Split_def Let_def
  by (cases d rule: rev_cases) (simp_all add: takeWhile_append takeWhile_all)

lemma path_Split_parts:
  obtains d b where "path_Split p = (d, b)" "p = d @ b" "CHR ''/'' \<notin> set b"
    "d = '''' \<or> last d = CHR ''/''"
proof -
  let ?b = "rev (takeWhile (\<lambda>c. c \<noteq> CHR ''/'') (rev p))"
  let ?d = "rev (dropWhile (\<lambda>c. c \<noteq> CHR ''/'') (rev p))"
  have p: "p = ?d @ ?b" by (metis rev_append rev_rev_ident takeWhile_dropWhile_id)
  have b: "CHR ''/'' \<notin> set ?b" by (auto dest: set_takeWhileD)
  have d: "?d = '''' \<or> last ?d = CHR ''/''"
  proof (cases "dropWhile (\<lambda>c. c \<noteq> CHR ''/'') (rev p) = []")
    case False
    then show ?thesis
      using hd_dropWhile [OF False] by (simp add: last_rev del: dropWhile_eq_Nil_conv)
  qed simp
  show ?thesis
    using that [OF _ p b d] path_Split_eq [OF b d] p by simp
qed

lemma path_Split_partial:
  assumes "path_Split p = (d, b)"
  shows "path_Split (remotePartialPath p) = (d, ''.'' @ b @ partialSuffix)"
proof -
  obtain d' b' where *: "path_Split p = (d', b')" "CHR ''/'' \<notin> set b'"
    "d' = '''' \<or> last d' = CHR ''/''"
    by (rule path_Split_parts)
  then have "d' = d" "b' = b" using assms by auto
  with * show ?thesis
    using path_Split_eq [of "''.'' @ b @ partialSuffix" d]
    by (simp add: remotePartialPath_def partialSuffix_def)
qed

lemma path_Split_inverse: "fst (path_Split p) @ snd (path_Split p) = p"
  by (rule path_Split_parts [of p]) simp

lemma remotePartialPath_inj: "remotePartialPath p = remotePartialPath q \<Longrightarrow> p = q"
proof -
  assume eq: "remotePartialPath p = remotePartialPath q"
  obtain d b where p: "path_Split p = (d, b)" by fastforce
  obtain d' b' where q: "path_Split q = (d', b')" by fastforce
  from eq have "d = d' \<and> b = b'"
    using path_Split_partial [OF p] path_Split_partial [OF q] by simp
  then show ?thesis using p q path_Split_inverse by metis
qed

lemma remotePartialPath_longer: "length (remotePartialPath p) = length p + 12"
proof -
  obtain d b where "path_Split p = (d, b)" by fastforce
  moreover have "length d + length b = length p"
    using path_Split_inverse [of p] calculation by (metis fst_conv length_append snd_conv)
  ultimately show ?thesis by (simp add: remotePartialPath_def partialSuffix_def)
qed

lemma remotePartialPath_neq: "remotePartialPath p \<noteq> p"
  using remotePartialPath_longer [of p] by (metis add_eq_self_zero zero_neq_numeral)

lemma IsPartialName_partial: "IsPartialName (snd (path_Split (remotePartialPath p)))"
proof -
  obtain d b where "path_Split p = (d, b)" by fastforce
  then show ?thesis
    by (simp add: path_Split_partial IsPartialName_def HasSuffix_iff)
qed

section \<open>Sizes for people\<close>

text \<open>
  \<open>float64\<close> of an int64 (53 bits, to nearest, ties to even), and \<open>%.1f\<close> of such a value divided
  by a power of two, which is exact.
\<close>

definition round_even :: "int \<Rightarrow> int \<Rightarrow> int" where
  "round_even a b =
    (let q = a div b; r = a mod b
     in if 2 * r < b then q else if 2 * r > b then q + 1 else if even q then q else q + 1)"

definition float64 :: "int \<Rightarrow> int" where
  "float64 n =
    (let e = length (filter (\<lambda>i. 2 ^ (53 + i) \<le> n) [0..<11]) in round_even n (2 ^ e) * 2 ^ e)"

definition show_tenths :: "int \<Rightarrow> string" where
  "show_tenths m = show_int (m div 10) @ ''.'' @ show_int (m mod 10)"

definition HumanSize :: "int \<Rightarrow> string" where
  "HumanSize bytes =
    (if bytes < 1024 then show_int bytes @ '' B''
     else if bytes < 1024 * 1024 then show_tenths (round_even (10 * float64 bytes) 1024) @ '' KB''
     else if bytes < 1024 * 1024 * 1024
       then show_tenths (round_even (10 * float64 bytes) (1024 * 1024)) @ '' MB''
     else show_tenths (round_even (10 * float64 bytes) (1024 * 1024 * 1024)) @ '' GB'')"

end
