(* ===== verification/Mirror_Diff.thy ===== *)
theory Mirror_Diff
  imports Transfer_Client
begin

text \<open>
  The planning half of internal/transfer/mirror.go: \<open>diffTrees\<close>, \<open>isDifferent\<close>,
  \<open>sortActions\<close>, \<open>depthLevels\<close>.

  A Go map that is ranged over is an association list with distinct keys, in the order
  of that iteration (Go leaves it open, the theorems hold for every order); a lookup in
  it is \<open>map_of\<close>. \<open>sort.Slice\<close> is not stable, so sorting is an argument \<open>ss\<close> of which
  only its contract is used.
\<close>

type_synonym local_tree = "(string \<times> FileInfo) list"
type_synonym remote_tree = "(string \<times> RemoteFileInfo) list"

section \<open>isDifferent\<close>

definition isDifferent :: "FileInfo \<Rightarrow> RemoteFileInfo \<Rightarrow> bool" where
  "isDifferent loc remote =
    (if fi_Size loc \<noteq> ri_Size remote then True
     else
       let slack = 2 * Second;
           diff = time_Sub (fi_ModTime loc) (ri_ModTime remote)
       in diff < - slack \<or> diff > int64 (ri_ModTimePrecision remote + slack))"

section \<open>diffTrees\<close>

definition mk_entry :: "MirrorAction \<Rightarrow> string \<Rightarrow> MirrorEntry" where
  "mk_entry a p = \<lparr>Action = a, RelPath = p, LocalInfo = None, RemoteInfo = None, IsNew = False\<rparr>"

text \<open>One iteration of each of the four loops: the entries it appends.\<close>

definition up_local :: "remote_tree \<Rightarrow> string \<times> FileInfo \<Rightarrow> MirrorEntry list" where
  "up_local remote = (\<lambda>(relPath, entry).
    (let re = map_of remote relPath in
     if fi_IsDir entry then
       (case re of
          None \<Rightarrow> [mk_entry ActionMkdir relPath]
        | Some r \<Rightarrow> if \<not> ri_IsDir r then [mk_entry ActionConflict relPath] else [])
     else
       (case re of
          None \<Rightarrow> [\<lparr>Action = ActionUpload, RelPath = relPath, LocalInfo = Some entry,
                    RemoteInfo = None, IsNew = True\<rparr>]
        | Some r \<Rightarrow>
            if ri_IsDir r then [mk_entry ActionConflict relPath]
            else if isDifferent entry r then
              [\<lparr>Action = ActionUpload, RelPath = relPath, LocalInfo = Some entry,
                RemoteInfo = Some r, IsNew = False\<rparr>]
            else [mk_entry ActionSkip relPath])))"

definition up_remote :: "local_tree \<Rightarrow> string \<times> RemoteFileInfo \<Rightarrow> MirrorEntry list" where
  "up_remote loc = (\<lambda>(relPath, r).
    (if map_of loc relPath = None then
       (if ri_IsDir r then [mk_entry ActionDeleteDir relPath]
        else [mk_entry ActionDelete relPath])
     else []))"

definition down_remote :: "local_tree \<Rightarrow> string \<times> RemoteFileInfo \<Rightarrow> MirrorEntry list" where
  "down_remote loc = (\<lambda>(relPath, r).
    (let le = map_of loc relPath in
     if ri_IsDir r then
       (case le of
          None \<Rightarrow> [mk_entry ActionMkdir relPath]
        | Some l \<Rightarrow> if \<not> fi_IsDir l then [mk_entry ActionConflict relPath] else [])
     else
       (case le of
          None \<Rightarrow> [\<lparr>Action = ActionDownload, RelPath = relPath, LocalInfo = None,
                    RemoteInfo = Some r, IsNew = True\<rparr>]
        | Some l \<Rightarrow>
            if fi_IsDir l then [mk_entry ActionConflict relPath]
            else if isDifferent l r then
              [\<lparr>Action = ActionDownload, RelPath = relPath, LocalInfo = Some l,
                RemoteInfo = Some r, IsNew = False\<rparr>]
            else [mk_entry ActionSkip relPath])))"

definition down_local :: "remote_tree \<Rightarrow> string \<times> FileInfo \<Rightarrow> MirrorEntry list" where
  "down_local remote = (\<lambda>(relPath, l).
    (if map_of remote relPath = None then
       (if fi_IsDir l then [mk_entry ActionDeleteDir relPath]
        else [mk_entry ActionDelete relPath])
     else []))"

definition diffTrees :: "local_tree \<Rightarrow> remote_tree \<Rightarrow> bool \<Rightarrow> MirrorEntry list" where
  "diffTrees loc remote upload =
    (if upload
     then concat (map (up_local remote) loc) @ concat (map (up_remote loc) remote)
     else concat (map (down_remote loc) remote) @ concat (map (down_local remote) loc))"

section \<open>sortActions and depthLevels\<close>

type_synonym sorter = "(MirrorEntry \<Rightarrow> int) \<Rightarrow> MirrorEntry list \<Rightarrow> MirrorEntry list"

text \<open>\<open>strings.Count(e.RelPath, "/")\<close>.\<close>

definition depth :: "MirrorEntry \<Rightarrow> nat" where
  "depth e = Count (RelPath e) CHR ''/''"

definition of_kind :: "MirrorAction set \<Rightarrow> MirrorEntry list \<Rightarrow> MirrorEntry list" where
  "of_kind ks es = filter (\<lambda>e. Action e \<in> ks) es"

definition sortActions :: "sorter \<Rightarrow> MirrorEntry list \<Rightarrow> MirrorEntry list" where
  "sortActions ss actions =
    (let mkdirs = of_kind {ActionMkdir} actions;
         transfers = of_kind {ActionUpload, ActionDownload} actions;
         deletes = of_kind {ActionDelete} actions;
         deleteDirs = of_kind {ActionDeleteDir} actions;
         conflicts = of_kind {ActionConflict} actions;
         mkdirs = ss (\<lambda>e. int (depth e)) mkdirs;
         deleteDirs = ss (\<lambda>e. - int (depth e)) deleteDirs
     in mkdirs @ transfers @ deletes @ deleteDirs @ conflicts)"

function depthLevels :: "MirrorEntry list \<Rightarrow> MirrorEntry list list" where
  "depthLevels [] = []"
| "depthLevels (e # es) =
    (e # takeWhile (\<lambda>x. depth x = depth e) es)
    # depthLevels (dropWhile (\<lambda>x. depth x = depth e) es)"
  by pat_completeness auto
termination
  by (relation "measure length") (auto simp: le_imp_less_Suc length_dropWhile_le)

text \<open>The contract of \<open>sort.Slice\<close>: a permutation, ordered by the key.\<close>

definition sort_slice_ok :: "sorter \<Rightarrow> bool" where
  "sort_slice_ok ss \<longleftrightarrow>
    (\<forall>key xs. mset (ss key xs) = mset xs \<and> sorted (map key (ss key xs)))"

locale slice_sort =
  fixes ss :: sorter
  assumes perm: "mset (ss key xs) = mset xs"
    and ordered: "sorted (map key (ss key xs))"

lemma slice_sort_iff: "slice_sort ss \<longleftrightarrow> sort_slice_ok ss"
  by (auto simp: slice_sort_def sort_slice_ok_def)

section \<open>The specification of the plan\<close>

text \<open>What is to happen at one path, from what is there on either side.\<close>

definition transfer_of :: "bool \<Rightarrow> MirrorAction" where
  "transfer_of upload = (if upload then ActionUpload else ActionDownload)"

fun plan_new :: "bool \<Rightarrow> bool \<Rightarrow> MirrorAction" where
  "plan_new upload is_dir = (if is_dir then ActionMkdir else transfer_of upload)"

fun plan_gone :: "bool \<Rightarrow> MirrorAction" where
  "plan_gone is_dir = (if is_dir then ActionDeleteDir else ActionDelete)"

fun plan :: "bool \<Rightarrow> FileInfo option \<Rightarrow> RemoteFileInfo option \<Rightarrow> MirrorAction option" where
  "plan upload None None = None"
| "plan upload (Some l) None =
     Some (if upload then plan_new upload (fi_IsDir l) else plan_gone (fi_IsDir l))"
| "plan upload None (Some r) =
     Some (if upload then plan_gone (ri_IsDir r) else plan_new upload (ri_IsDir r))"
| "plan upload (Some l) (Some r) =
     (if fi_IsDir l \<and> ri_IsDir r then None
      else if fi_IsDir l \<or> ri_IsDir r then Some ActionConflict
      else if isDifferent l r then Some (transfer_of upload)
      else Some ActionSkip)"

lemmas diff_defs = up_local_def up_remote_def down_remote_def down_local_def mk_entry_def

lemma fst_in_dom_map_of: "x \<in> set m \<Longrightarrow> map_of m (fst x) \<noteq> None"
  by (cases x) (auto simp: map_of_eq_None_iff rev_image_eqI)

lemma RelPath_diff_loops:
  "e \<in> set (up_local remote x) \<Longrightarrow> RelPath e = fst x"
  "e \<in> set (up_remote loc y) \<Longrightarrow> RelPath e = fst y \<and> map_of loc (fst y) = None"
  "e \<in> set (down_remote loc y) \<Longrightarrow> RelPath e = fst y"
  "e \<in> set (down_local remote x) \<Longrightarrow> RelPath e = fst x \<and> map_of remote (fst x) = None"
  by (auto simp: diff_defs Let_def split: prod.splits if_splits option.splits)

lemma length_diff_loops:
  "length (up_local remote x) \<le> 1" "length (up_remote loc y) \<le> 1"
  "length (down_remote loc y) \<le> 1" "length (down_local remote x) \<le> 1"
  by (auto simp: diff_defs Let_def split: prod.splits option.splits)

text \<open>A loop that emits at most one entry per key, carrying that key, repeats no path.\<close>

lemma distinct_loop:
  assumes "distinct_keys m"
    and len: "\<And>x. length (f x) \<le> 1"
    and key: "\<And>x e. x \<in> set m \<Longrightarrow> e \<in> set (f x) \<Longrightarrow> RelPath e = fst x"
  shows "distinct (map RelPath (concat (map f m)))"
  using assms(1) key
proof (induction m)
  case (Cons x m)
  have "distinct (map RelPath (f x))"
    using len [of x] by (cases "f x"; cases "tl (f x)") auto
  moreover have "RelPath ` set (f x) \<inter> RelPath ` set (concat (map f m)) = {}"
  proof (rule equals0I)
    fix p assume "p \<in> RelPath ` set (f x) \<inter> RelPath ` set (concat (map f m))"
    then obtain e y e' where "e \<in> set (f x)" "p = RelPath e"
      and y: "y \<in> set m" and "e' \<in> set (f y)" "p = RelPath e'"
      by auto
    then have "p = fst x" "p = fst y" using Cons.prems(2) by (metis list.set_intros)+
    then show False using Cons.prems(1) y by (metis distinct.simps(2) image_eqI list.simps(9) set_map)
  qed
  ultimately show ?case
    using Cons by auto
qed simp

lemma distinct_diffTrees:
  assumes "distinct_keys loc" "distinct_keys remote"
  shows "distinct (map RelPath (diffTrees loc remote upload))"
proof (cases upload)
  case True
  have "distinct (map RelPath (concat (map (up_local remote) loc)))"
    using assms(1) length_diff_loops(1) RelPath_diff_loops(1) by (rule distinct_loop)
  moreover have "distinct (map RelPath (concat (map (up_remote loc) remote)))"
    using assms(2) length_diff_loops(2) RelPath_diff_loops(2) [THEN conjunct1] by (rule distinct_loop)
  moreover have "RelPath ` set (concat (map (up_local remote) loc)) \<inter>
      RelPath ` set (concat (map (up_remote loc) remote)) = {}"
    using fst_in_dom_map_of [of _ loc] RelPath_diff_loops(1,2) by fastforce
  ultimately show ?thesis using True by (simp add: diffTrees_def)
next
  case False
  have "distinct (map RelPath (concat (map (down_remote loc) remote)))"
    using assms(2) length_diff_loops(3) RelPath_diff_loops(3) by (rule distinct_loop)
  moreover have "distinct (map RelPath (concat (map (down_local remote) loc)))"
    using assms(1) length_diff_loops(4) RelPath_diff_loops(4) [THEN conjunct1] by (rule distinct_loop)
  moreover have "RelPath ` set (concat (map (down_remote loc) remote)) \<inter>
      RelPath ` set (concat (map (down_local remote) loc)) = {}"
    using fst_in_dom_map_of [of _ remote] RelPath_diff_loops(3,4) by fastforce
  ultimately show ?thesis using False by (simp add: diffTrees_def)
qed

text \<open>Each loop emits exactly what the plan says at its keys.\<close>

lemma up_local_plan:
  "(\<exists>e \<in> set (up_local remote (p, l)). Action e = a) \<longleftrightarrow> plan True (Some l) (map_of remote p) = Some a"
  by (cases "map_of remote p") (auto simp: diff_defs transfer_of_def)

lemma up_remote_plan:
  "map_of loc p = None \<Longrightarrow>
   (\<exists>e \<in> set (up_remote loc (p, r)). Action e = a) \<longleftrightarrow> plan True (map_of loc p) (Some r) = Some a"
  by (auto simp: diff_defs)

lemma down_remote_plan:
  "(\<exists>e \<in> set (down_remote loc (p, r)). Action e = a) \<longleftrightarrow> plan False (map_of loc p) (Some r) = Some a"
  by (cases "map_of loc p") (auto simp: diff_defs transfer_of_def)

lemma down_local_plan:
  "map_of remote p = None \<Longrightarrow>
   (\<exists>e \<in> set (down_local remote (p, l)). Action e = a) \<longleftrightarrow> plan False (Some l) (map_of remote p) = Some a"
  by (auto simp: diff_defs)

text \<open>Lifting one loop to its map: at a path that is no key it emits nothing.\<close>

lemma loop_entries:
  assumes "distinct_keys m" and key: "\<And>x e. e \<in> set (f x) \<Longrightarrow> RelPath e = fst x"
  shows "(\<exists>e \<in> set (concat (map f m)). RelPath e = p \<and> Action e = a) \<longleftrightarrow>
    (\<exists>v. map_of m p = Some v \<and> (\<exists>e \<in> set (f (p, v)). Action e = a))"
  using assms key by (fastforce simp: map_of_eq_Some_iff_in)

lemma diffTrees_plan:
  assumes "distinct_keys loc" "distinct_keys remote"
  shows "(\<exists>e \<in> set (diffTrees loc remote upload). RelPath e = p \<and> Action e = a) \<longleftrightarrow>
    plan upload (map_of loc p) (map_of remote p) = Some a"
proof -
  note keys = RelPath_diff_loops(1) RelPath_diff_loops(2) [THEN conjunct1]
    RelPath_diff_loops(3) RelPath_diff_loops(4) [THEN conjunct1]
  have none: "\<And>r. map_of loc p = Some l \<Longrightarrow> up_remote loc (p, r) = []"
    "\<And>r. map_of remote p = Some r' \<Longrightarrow> down_local remote (p, l') = []" for l r' l'
    by (auto simp: diff_defs)
  show ?thesis
  proof (cases upload)
    case True
    note A = loop_entries [where f = "up_local remote" and p = p and a = a, OF assms(1) keys(1), simplified]
    note B = loop_entries [where f = "up_remote loc" and p = p and a = a, OF assms(2) keys(2), simplified]
    have "(\<exists>e \<in> set (diffTrees loc remote upload). RelPath e = p \<and> Action e = a) \<longleftrightarrow>
      (\<exists>l. map_of loc p = Some l \<and> (\<exists>e \<in> set (up_local remote (p, l)). Action e = a)) \<or>
      (\<exists>r. map_of remote p = Some r \<and> (\<exists>e \<in> set (up_remote loc (p, r)). Action e = a))"
      using True A B by (simp add: diffTrees_def bex_Un)
    then show ?thesis
      using True none up_remote_plan [of loc p] up_local_plan
      by (cases "map_of loc p"; cases "map_of remote p") auto
  next
    case False
    note A = loop_entries [where f = "down_remote loc" and p = p and a = a, OF assms(2) keys(3), simplified]
    note B = loop_entries [where f = "down_local remote" and p = p and a = a, OF assms(1) keys(4), simplified]
    have "(\<exists>e \<in> set (diffTrees loc remote upload). RelPath e = p \<and> Action e = a) \<longleftrightarrow>
      (\<exists>r. map_of remote p = Some r \<and> (\<exists>e \<in> set (down_remote loc (p, r)). Action e = a)) \<or>
      (\<exists>l. map_of loc p = Some l \<and> (\<exists>e \<in> set (down_local remote (p, l)). Action e = a))"
      using False A B by (simp add: diffTrees_def bex_Un)
    then show ?thesis
      using False none down_local_plan [of remote p] down_remote_plan
      by (cases "map_of loc p"; cases "map_of remote p") auto
  qed
qed

section \<open>Ordering of the sorted plan\<close>

fun phase :: "MirrorAction \<Rightarrow> nat" where
  "phase ActionMkdir = 0"
| "phase ActionUpload = 1"
| "phase ActionDownload = 1"
| "phase ActionDelete = 2"
| "phase ActionDeleteDir = 3"
| "phase ActionConflict = 4"
| "phase ActionSkip = 5"

text \<open>\<open>may_precede a b\<close>: the order of execution puts \<open>a\<close> no later than \<open>b\<close>.\<close>

definition may_precede :: "MirrorEntry \<Rightarrow> MirrorEntry \<Rightarrow> bool" where
  "may_precede a b \<longleftrightarrow>
     phase (Action a) < phase (Action b) \<or>
     phase (Action a) = phase (Action b) \<and>
     (Action a = ActionMkdir \<longrightarrow> depth a \<le> depth b) \<and>
     (Action a = ActionDeleteDir \<longrightarrow> depth b \<le> depth a)"

text \<open>\<open>p\<close> is a proper ancestor directory of \<open>q\<close>.\<close>

definition is_ancestor :: "string \<Rightarrow> string \<Rightarrow> bool" where
  "is_ancestor p q \<longleftrightarrow> (\<exists>r. q = p @ CHR ''/'' # r)"

lemma is_ancestor_depth: "is_ancestor (RelPath a) (RelPath b) \<Longrightarrow> depth a < depth b"
  by (auto simp: is_ancestor_def depth_def)

lemma set_of_kind: "set (of_kind ks es) = {e \<in> set es. Action e \<in> ks}"
  by (auto simp: of_kind_def)

lemma mset_of_kinds:
  "mset (of_kind {ActionMkdir} es) + mset (of_kind {ActionUpload, ActionDownload} es)
   + mset (of_kind {ActionDelete} es) + mset (of_kind {ActionDeleteDir} es)
   + mset (of_kind {ActionConflict} es) = filter_mset (\<lambda>e. Action e \<noteq> ActionSkip) (mset es)"
proof (induction es)
  case (Cons e es)
  then show ?case by (cases "Action e") (auto simp: of_kind_def)
qed (simp add: of_kind_def)

lemma sorted_wrt_map_key: "sorted (map f xs) \<longleftrightarrow> sorted_wrt (\<lambda>a b. f a \<le> f b) xs"
  by (simp add: sorted_wrt_map)

lemma sorted_wrt_same_phase:
  assumes "\<forall>e \<in> set xs. Action e \<in> ks" "\<And>a b. a \<in> ks \<Longrightarrow> b \<in> ks \<Longrightarrow> phase a = phase b"
    "ActionMkdir \<notin> ks" "ActionDeleteDir \<notin> ks"
  shows "sorted_wrt may_precede xs"
  using assms(1)
proof (induction xs)
  case (Cons e xs)
  have "may_precede e b" if "b \<in> set xs" for b
    using that Cons.prems assms(2) [of "Action e" "Action b"] assms(3,4)
    by (auto simp: may_precede_def)
  then show ?case using Cons by simp
qed simp

context slice_sort
begin

lemma set_ss: "set (ss key xs) = set xs"
  by (metis perm set_mset_mset)

lemma mset_sortActions:
  "mset (sortActions ss es) = filter_mset (\<lambda>e. Action e \<noteq> ActionSkip) (mset es)"
  using mset_of_kinds [of es] by (simp add: sortActions_def Let_def perm ac_simps)

lemma sorted_mkdirs:
  "sorted_wrt may_precede (ss (\<lambda>e. int (depth e)) (of_kind {ActionMkdir} es))"
proof -
  have "\<forall>e \<in> set (ss (\<lambda>e. int (depth e)) (of_kind {ActionMkdir} es)). Action e = ActionMkdir"
    by (simp add: set_ss set_of_kind)
  then show ?thesis
    using ordered [of "\<lambda>e. int (depth e)" "of_kind {ActionMkdir} es"]
    unfolding sorted_wrt_map_key
    by (rule_tac sorted_wrt_mono_rel) (auto simp: may_precede_def)
qed

lemma sorted_deleteDirs:
  "sorted_wrt may_precede (ss (\<lambda>e. - int (depth e)) (of_kind {ActionDeleteDir} es))"
proof -
  have "\<forall>e \<in> set (ss (\<lambda>e. - int (depth e)) (of_kind {ActionDeleteDir} es)). Action e = ActionDeleteDir"
    by (simp add: set_ss set_of_kind)
  then show ?thesis
    using ordered [of "\<lambda>e. - int (depth e)" "of_kind {ActionDeleteDir} es"]
    unfolding sorted_wrt_map_key
    by (rule_tac sorted_wrt_mono_rel) (auto simp: may_precede_def)
qed

lemma sorted_sortActions: "sorted_wrt may_precede (sortActions ss es)"
proof -
  have "sorted_wrt may_precede (of_kind {ActionUpload, ActionDownload} es)"
    by (rule sorted_wrt_same_phase [where ks = "{ActionUpload, ActionDownload}"])
       (auto simp: set_of_kind)
  moreover have "sorted_wrt may_precede (of_kind {ActionDelete} es)"
    by (rule sorted_wrt_same_phase [where ks = "{ActionDelete}"]) (auto simp: set_of_kind)
  moreover have "sorted_wrt may_precede (of_kind {ActionConflict} es)"
    by (rule sorted_wrt_same_phase [where ks = "{ActionConflict}"]) (auto simp: set_of_kind)
  ultimately show ?thesis
    using sorted_mkdirs sorted_deleteDirs
    by (auto simp: sortActions_def Let_def sorted_wrt_append set_ss set_of_kind may_precede_def)
qed

text \<open>Parents are created before their children, children removed before their parents.\<close>

lemma mkdir_parent_first:
  assumes "i < length (sortActions ss es)" "j < length (sortActions ss es)"
    "Action (sortActions ss es ! i) = ActionMkdir" "Action (sortActions ss es ! j) = ActionMkdir"
    "is_ancestor (RelPath (sortActions ss es ! i)) (RelPath (sortActions ss es ! j))"
  shows "i < j"
proof (rule ccontr)
  assume "\<not> i < j"
  moreover have "depth (sortActions ss es ! i) < depth (sortActions ss es ! j)"
    using assms(5) by (rule is_ancestor_depth)
  ultimately have "j < i" by (metis antisym_conv3 less_irrefl)
  then have "may_precede (sortActions ss es ! j) (sortActions ss es ! i)"
    using sorted_sortActions assms(1) by (auto simp: sorted_wrt_iff_nth_less)
  then show False
    using assms \<open>depth _ < depth _\<close> by (auto simp: may_precede_def)
qed

lemma rmdir_child_first:
  assumes "i < length (sortActions ss es)" "j < length (sortActions ss es)"
    "Action (sortActions ss es ! i) = ActionDeleteDir" "Action (sortActions ss es ! j) = ActionDeleteDir"
    "is_ancestor (RelPath (sortActions ss es ! i)) (RelPath (sortActions ss es ! j))"
  shows "j < i"
proof (rule ccontr)
  assume "\<not> j < i"
  moreover have "depth (sortActions ss es ! i) < depth (sortActions ss es ! j)"
    using assms(5) by (rule is_ancestor_depth)
  ultimately have "i < j" by (metis antisym_conv3 less_irrefl)
  then have "may_precede (sortActions ss es ! i) (sortActions ss es ! j)"
    using sorted_sortActions assms(2) by (auto simp: sorted_wrt_iff_nth_less)
  then show False
    using assms \<open>depth _ < depth _\<close> by (auto simp: may_precede_def)
qed

end

text \<open>An insertion sort by key, which is what \<open>sort.Slice\<close> runs on short slices.\<close>

definition insertion_slice :: sorter where
  "insertion_slice key xs = sort_key key xs"

interpretation ins: slice_sort insertion_slice
  by unfold_locales (simp_all add: insertion_slice_def)

section \<open>Levels\<close>

lemma concat_depthLevels: "concat (depthLevels es) = es"
  by (induction es rule: depthLevels.induct) simp_all

lemma takeWhile_same_key: "\<forall>x \<in> set (takeWhile (\<lambda>x. f x = d) es). f x = d"
  by (auto dest: set_takeWhileD)

lemma depthLevels_level:
  "lvl \<in> set (depthLevels es) \<Longrightarrow> lvl \<noteq> [] \<and> (\<forall>x \<in> set lvl. depth x = depth (hd lvl))"
proof (induction es rule: depthLevels.induct)
  case (2 e es)
  show ?case
  proof (cases "lvl \<in> set (depthLevels (dropWhile (\<lambda>x. depth x = depth e) es))")
    case True
    then show ?thesis by (rule 2(1))
  next
    case False
    then have lvl: "lvl = e # takeWhile (\<lambda>x. depth x = depth e) es" using 2(2) by simp
    show ?thesis
      unfolding lvl using takeWhile_same_key [of depth "depth e" es]
      by (metis list.distinct(1) list.sel(1) set_ConsD)
  qed
qed simp

lemma set_depthLevels: "(\<Union>lvl \<in> set (depthLevels es). set lvl) = set es"
  by (metis concat_depthLevels set_concat)

text \<open>
  On entries sorted by a key that grows strictly with depth (or falls, for removals),
  the levels are strictly ordered: every earlier level is strictly smaller.
\<close>

lemma dropWhile_strict:
  assumes "sorted (map k (e # es))"
    and "x \<in> set (dropWhile (\<lambda>x. depth x = depth e) es)"
    and "\<And>a b. k a = k b \<longleftrightarrow> depth a = depth b"
  shows "(k e :: int) < k x"
  using assms(1,2)
proof (induction es)
  case (Cons a es)
  show ?case
  proof (cases "depth a = depth e")
    case True
    then show ?thesis using Cons by auto
  next
    case False
    then have "k e < k a" using Cons.prems(1) assms(3) by force
    moreover have "k a \<le> k x" using False Cons.prems by auto
    ultimately show ?thesis by simp
  qed
qed simp

lemma sorted_dropWhile_map:
  "sorted (map k es) \<Longrightarrow> sorted (map k (dropWhile P es))"
  by (induction es) auto

lemma depthLevels_strict:
  assumes "sorted (map k es)" and "\<And>a b. (k a :: int) = k b \<longleftrightarrow> depth a = depth b"
  shows "sorted_wrt (\<lambda>l1 l2. \<forall>a \<in> set l1. \<forall>b \<in> set l2. k a < k b) (depthLevels es)"
  using assms(1)
proof (induction es rule: depthLevels.induct)
  case (2 e es)
  have "k a = k e" if "a \<in> set (e # takeWhile (\<lambda>x. depth x = depth e) es)" for a
  proof -
    have "depth a = depth e" using that takeWhile_same_key [of depth "depth e" es]
      by (metis set_ConsD)
    then show ?thesis by (simp only: assms(2))
  qed
  moreover have "k e < k b"
    if "l2 \<in> set (depthLevels (dropWhile (\<lambda>x. depth x = depth e) es))" "b \<in> set l2" for l2 b
  proof -
    have "b \<in> set (dropWhile (\<lambda>x. depth x = depth e) es)"
      using that set_depthLevels by blast
    then show ?thesis using dropWhile_strict 2(2) assms(2) by blast
  qed
  moreover
  have "sorted (map k (dropWhile (\<lambda>x. depth x = depth e) es))"
    using 2(2) sorted_dropWhile_map [of k es] by simp
  then have "sorted_wrt (\<lambda>l1 l2. \<forall>a \<in> set l1. \<forall>b \<in> set l2. k a < k b)
      (depthLevels (dropWhile (\<lambda>x. depth x = depth e) es))"
    by (rule 2(1))
  ultimately show ?case
    unfolding depthLevels.simps sorted_wrt.simps by metis
qed simp

end
