(* ===== verification/Syncignore.thy ===== *)
theory Syncignore
  imports Go_Errors
begin

text \<open>
  internal/syncignore: reading a \<open>.syncignore\<close> file into patterns, and matching a
  relative path against them. The glob matcher \<open>doublestar.Match\<close> is third-party code:
  an argument \<open>dm\<close> (pattern, then path; an error counts as no match, as in the source).
\<close>

section \<open>Load\<close>

text \<open>
  The lines \<open>bufio.Scanner\<close> yields: split at newlines, without an empty rest at the end
  and without one trailing carriage return. A line that does not fit its 64 KB buffer
  ends the scan with an error.
\<close>

definition scan_lines :: "string \<Rightarrow> string list" where
  "scan_lines s =
    (let ls = Split CHR 0x0A s;
         ls = (if last ls = '''' then butlast ls else ls)
     in map (\<lambda>l. if l \<noteq> [] \<and> last l = CHR 0x0D then butlast l else l) ls)"

definition line_too_long :: "string \<Rightarrow> bool" where
  "line_too_long s = list_ex (\<lambda>l. 65536 \<le> length l) (Split CHR 0x0A s)"

definition keep_line :: "string \<Rightarrow> string option" where
  "keep_line text =
    (let line = TrimSpace text in
     if line = '''' then None
     else if HasPrefix line ''#'' then None
     else if Contains line ''***'' then None
     else Some line)"

definition parse_lines :: "string list \<Rightarrow> string list" where
  "parse_lines ls = List.map_filter keep_line ls"

text \<open>
  \<open>Load\<close> on the results of \<open>os.Stat\<close> (is the file there) and of opening and reading it.
\<close>

definition Load :: "unit res \<Rightarrow> string res \<Rightarrow> string list res" where
  "Load st contents =
    (if (case st of Inl e \<Rightarrow> errors_Is e ErrNotExist | Inr _ \<Rightarrow> False) then Inr []
     else
       (case contents of
          Inl e \<Rightarrow> Inl (Wrapped (''failed to open .syncignore: '' @ error_msg e) [e])
        | Inr s \<Rightarrow>
            if line_too_long s
            then Inl (ErrorString ''failed to read .syncignore: bufio.Scanner: token too long'')
            else Inr (parse_lines (scan_lines s) @ [''.syncignore''])))"

section \<open>Matching\<close>

type_synonym matcher = "string \<Rightarrow> string \<Rightarrow> bool"

definition matchPattern :: "matcher \<Rightarrow> string \<Rightarrow> string \<Rightarrow> bool" where
  "matchPattern dm pattern relPath =
    (let isDir = HasSuffix pattern ''/'';
         pattern = (if isDir then butlast pattern else pattern);
         isRooted = HasPrefix pattern ''/'';
         pattern = (if isRooted then drop 1 pattern else pattern);
         try = (\<lambda>p. dm p relPath)
     in if isRooted \<or> HasPrefix pattern ''**/'' then
          try pattern \<or> (isDir \<and> try (pattern @ ''/**''))
        else
          try pattern \<or> try (''**/'' @ pattern) \<or>
          (isDir \<and> (try (pattern @ ''/**'') \<or> try (''**/'' @ pattern @ ''/**''))))"

fun ShouldIgnore :: "matcher \<Rightarrow> string \<Rightarrow> string list \<Rightarrow> bool" where
  "ShouldIgnore dm relativePath [] = False"
| "ShouldIgnore dm relativePath (pattern # patterns) =
    (if matchPattern dm pattern relativePath then True
     else ShouldIgnore dm relativePath patterns)"

section \<open>Lemmas\<close>

lemma ShouldIgnore_iff: "ShouldIgnore dm r ps \<longleftrightarrow> (\<exists>p \<in> set ps. matchPattern dm p r)"
  by (induction ps) auto

lemma ShouldIgnore_mono: "set ps \<subseteq> set qs \<Longrightarrow> ShouldIgnore dm r ps \<Longrightarrow> ShouldIgnore dm r qs"
  by (auto simp: ShouldIgnore_iff)

lemma ShouldIgnore_Nil [simp]: "\<not> ShouldIgnore dm r []"
  by simp

text \<open>A pattern without markers, with either, and with both.\<close>

lemma matchPattern_name:
  assumes "name \<noteq> ''''" "hd name \<noteq> CHR ''/''" "last name \<noteq> CHR ''/''" "\<not> HasPrefix name ''**/''"
  shows "matchPattern dm name r \<longleftrightarrow> dm name r \<or> dm (''**/'' @ name) r"
    and "matchPattern dm (name @ ''/'') r \<longleftrightarrow>
      dm name r \<or> dm (''**/'' @ name) r \<or> dm (name @ ''/**'') r \<or> dm (''**/'' @ name @ ''/**'') r"
    and "matchPattern dm (''/'' @ name) r \<longleftrightarrow> dm name r"
    and "matchPattern dm (''/'' @ name @ ''/'') r \<longleftrightarrow> dm name r \<or> dm (name @ ''/**'') r"
proof -
  obtain x xs where n: "name = x # xs" "x \<noteq> CHR ''/''" using assms(1,2) by (cases name) auto
  obtain y ys where m: "name = ys @ [y]" "y \<noteq> CHR ''/''"
    using assms(1,3) by (cases name rule: rev_cases) auto
  have suffix: "\<not> HasSuffix name ''/''" "\<not> HasSuffix (''/'' @ name) ''/''"
    using m by (auto simp: HasSuffix_iff)
  have suffix2: "HasSuffix (name @ ''/'') ''/''" "HasSuffix (''/'' @ name @ ''/'') ''/''"
    by (auto simp: HasSuffix_iff)
  have prefix: "\<not> HasPrefix name ''/''" using n by (auto simp: HasPrefix_iff)
  have rooted: "HasPrefix (''/'' @ name) ''/''" by (simp add: HasPrefix_def)
  have bl: "butlast (''/'' @ name @ ''/'') = ''/'' @ name" by (simp add: butlast_append)
  show "matchPattern dm name r \<longleftrightarrow> dm name r \<or> dm (''**/'' @ name) r"
    using suffix prefix assms(4) by (simp add: matchPattern_def)
  show "matchPattern dm (name @ ''/'') r \<longleftrightarrow>
      dm name r \<or> dm (''**/'' @ name) r \<or> dm (name @ ''/**'') r \<or> dm (''**/'' @ name @ ''/**'') r"
    using suffix2 prefix assms(4) by (simp add: matchPattern_def)
  show "matchPattern dm (''/'' @ name) r \<longleftrightarrow> dm name r"
    unfolding matchPattern_def Let_def using suffix rooted by simp
  show "matchPattern dm (''/'' @ name @ ''/'') r \<longleftrightarrow> dm name r \<or> dm (name @ ''/**'') r"
    unfolding matchPattern_def Let_def bl using suffix2 rooted by simp
qed

lemma set_parse_lines:
  "p \<in> set (parse_lines ls) \<longleftrightarrow> (\<exists>l \<in> set ls. keep_line l = Some p)"
  by (induction ls) (auto simp: parse_lines_def List.map_filter_def)

lemma keep_line_Some:
  "keep_line l = Some p \<longleftrightarrow>
    p = TrimSpace l \<and> p \<noteq> '''' \<and> \<not> HasPrefix p ''#'' \<and> \<not> Contains p ''***''"
  by (auto simp: keep_line_def Let_def)

lemma syncignore_Load_Inr:
  "Load st c = Inr ps \<Longrightarrow> ps = [] \<or>
    (\<exists>s. c = Inr s \<and> ps = parse_lines (scan_lines s) @ [''.syncignore''])"
  by (auto simp: Load_def split: if_splits sum.splits)

end
