(* ===== verification/Mirror_WalkLocal.thy ===== *)
theory Mirror_WalkLocal
  imports Mirror_Diff Syncignore "HOL-Library.AList" "HOL-Library.Multiset"
begin

text \<open>
  The local scan of internal/transfer/mirror.go: \<open>walkLocal\<close> over
  \<open>filepath.WalkDir\<close>.
\<close>

section \<open>filepath.WalkDir\<close>

text \<open>
  A file on the local disk as the walk sees it: its directory entry (name, type bits,
  the result of \<open>Info\<close>), and for a directory what \<open>os.ReadDir\<close> gives, the entries it
  could read and its error.
\<close>

datatype dnode = DNode (dn_name: string) (dn_kind: fkind) (dn_info: "FileInfo res")
  (dn_readerr: "goerr option") (dn_children: "dnode list")

definition dn_IsDir :: "dnode \<Rightarrow> bool" where
  "dn_IsDir d \<longleftrightarrow> dn_kind d = KDir"

text \<open>What a \<open>WalkDirFunc\<close> returns: nil, \<open>SkipDir\<close>, or another error.\<close>

datatype walk_ctl = Continue | SkipDir | Fail goerr

type_synonym 'a walk_fn = "string \<Rightarrow> dnode option \<Rightarrow> goerr option \<Rightarrow> 'a \<Rightarrow> walk_ctl \<times> 'a"

definition skipped :: "dnode \<Rightarrow> walk_ctl \<Rightarrow> walk_ctl" where
  "skipped d c = (if c = SkipDir \<and> dn_IsDir d then Continue else c)"

fun walkDir :: "'a walk_fn \<Rightarrow> string \<Rightarrow> dnode \<Rightarrow> 'a \<Rightarrow> walk_ctl \<times> 'a"
and walkDirs :: "'a walk_fn \<Rightarrow> string \<Rightarrow> dnode list \<Rightarrow> 'a \<Rightarrow> walk_ctl \<times> 'a" where
  "walkDir fn path (DNode nm kd fi re cs) acc =
    (let d = DNode nm kd fi re cs;
         (c, acc) = fn path (Some d) None acc
     in if c \<noteq> Continue \<or> \<not> dn_IsDir d then (skipped d c, acc)
        else
          (case re of
             None \<Rightarrow> walkDirs fn path cs acc
           | Some e \<Rightarrow>
               let (c, acc) = fn path (Some d) (Some e) acc
               in if c \<noteq> Continue then (skipped d c, acc)
                  else walkDirs fn path cs acc))"
| "walkDirs fn path [] acc = (Continue, acc)"
| "walkDirs fn path (d1 # ds) acc =
    (let (c, acc) = walkDir fn (path_Join [path, dn_name d1]) d1 acc
     in case c of
          Continue \<Rightarrow> walkDirs fn path ds acc
        | SkipDir \<Rightarrow> (Continue, acc)
        | Fail e \<Rightarrow> (Fail e, acc))"

text \<open>\<open>WalkDir\<close>; the first argument is what \<open>os.Lstat\<close> of the root gives.\<close>

definition WalkDir :: "dnode res \<Rightarrow> string \<Rightarrow> 'a walk_fn \<Rightarrow> 'a \<Rightarrow> goerr option \<times> 'a" where
  "WalkDir lstat root fn acc =
    (let (c, acc) =
           (case lstat of
              Inl e \<Rightarrow> fn root None (Some e) acc
            | Inr d \<Rightarrow> walkDir fn root d acc)
     in ((case c of Fail e \<Rightarrow> Some e | _ \<Rightarrow> None), acc))"

section \<open>walkLocal\<close>

text \<open>
  The callback. \<open>WalkDir\<close> passes no entry only together with an error, so the case of
  neither does not arise.
\<close>

definition walkLocal_fn :: "matcher \<Rightarrow> string \<Rightarrow> string list \<Rightarrow> local_tree walk_fn" where
  "walkLocal_fn dm localRoot patterns p dopt err entries =
    (case (err, dopt) of
       (Some e, Some d) \<Rightarrow> if dn_IsDir d then (SkipDir, entries) else (Continue, entries)
     | (_, None) \<Rightarrow> (Continue, entries)
     | (None, Some d) \<Rightarrow>
         if dn_kind d = KSymlink then
           (if dn_IsDir d then (SkipDir, entries) else (Continue, entries))
         else if \<not> dn_IsDir d \<and> IsPartialName (dn_name d) then (Continue, entries)
         else
           (case filepath_Rel localRoot p of
              None \<Rightarrow> (Continue, entries)
            | Some relPath \<Rightarrow>
                if relPath = ''.'' then (Continue, entries)
                else if ShouldIgnore dm relPath patterns then
                  (if dn_IsDir d then (SkipDir, entries) else (Continue, entries))
                else
                  (case dn_info d of
                     Inl e \<Rightarrow> (Continue, entries)
                   | Inr info \<Rightarrow> (Continue, AList.update relPath info entries))))"

definition walkLocal ::
  "matcher \<Rightarrow> dnode res \<Rightarrow> string \<Rightarrow> string list \<Rightarrow> goerr option \<times> local_tree" where
  "walkLocal dm lstat localRoot patterns =
     WalkDir lstat localRoot (walkLocal_fn dm localRoot patterns) []"

section \<open>What walkLocal lists\<close>

text \<open>
  The specification: the nodes the walk comes to, with the names that lead to them. A
  node is shown unless it is a symlink, a partial file or ignored; the walk enters the
  shown directories that \<open>ReadDir\<close> can read.
\<close>

definition shown :: "matcher \<Rightarrow> string list \<Rightarrow> string list \<Rightarrow> dnode \<Rightarrow> bool" where
  "shown dm patterns ns d \<longleftrightarrow>
     dn_kind d \<noteq> KSymlink \<and> (dn_IsDir d \<or> \<not> IsPartialName (dn_name d)) \<and>
     \<not> ShouldIgnore dm (StrJoin ''/'' ns) patterns"

definition enters :: "dnode \<Rightarrow> bool" where
  "enters d \<longleftrightarrow> dn_IsDir d \<and> dn_readerr d = None"

fun below :: "matcher \<Rightarrow> string list \<Rightarrow> string list \<Rightarrow> dnode \<Rightarrow> (string list \<times> dnode) list"
and belows :: "matcher \<Rightarrow> string list \<Rightarrow> string list \<Rightarrow> dnode list \<Rightarrow> (string list \<times> dnode) list" where
  "below dm ps ns (DNode nm kd fi re cs) =
    (if enters (DNode nm kd fi re cs) then belows dm ps ns cs else [])"
| "belows dm ps ns [] = []"
| "belows dm ps ns (d # ds) =
    (let ns' = ns @ [dn_name d] in
     (if shown dm ps ns' d then (ns', d) # below dm ps ns' d else []) @ belows dm ps ns ds)"

definition infos1 :: "string list \<times> dnode \<Rightarrow> (string \<times> FileInfo) list" where
  "infos1 x = (case dn_info (snd x) of Inl _ \<Rightarrow> [] | Inr i \<Rightarrow> [(StrJoin ''/'' (fst x), i)])"

definition infos :: "(string list \<times> dnode) list \<Rightarrow> (string \<times> FileInfo) list" where
  "infos xs = concat (map infos1 xs)"

text \<open>A tree as a file system has it: plain names, distinct in each directory.\<close>

fun wf_dnode :: "dnode \<Rightarrow> bool" where
  "wf_dnode (DNode nm kd fi re cs) \<longleftrightarrow>
     distinct (map dn_name cs) \<and> list_all (\<lambda>c. plain (dn_name c)) cs \<and> list_all wf_dnode cs"

definition put_all :: "('k \<times> 'v) list \<Rightarrow> ('k \<times> 'v) list \<Rightarrow> ('k \<times> 'v) list" where
  "put_all kvs m = foldl (\<lambda>m (k, v). AList.update k v m) m kvs"

lemma put_all_simps [simp]:
  "put_all [] m = m" "put_all (x # xs) m = put_all xs (AList.update (fst x) (snd x) m)"
  by (simp_all add: put_all_def case_prod_beta)

lemma put_all_append [simp]: "put_all (xs @ ys) m = put_all ys (put_all xs m)"
  by (simp add: put_all_def)

lemma put_all_distinct: "distinct_keys m \<Longrightarrow> distinct_keys (put_all xs m)"
  by (induction xs arbitrary: m) (simp_all add: distinct_update)

lemma map_of_put_all: "map_of (put_all xs m) = map_of m ++ map_of (rev xs)"
  by (induction xs arbitrary: m) (auto simp: update_conv' map_add_def fun_eq_iff split: option.splits)

lemma put_all_fresh: "distinct_keys (m @ xs) \<Longrightarrow> put_all xs m = m @ xs"
proof (induction xs arbitrary: m)
  case (Cons x xs)
  have "AList.update (fst x) (snd x) m = m @ [x]"
    using Cons.prems update_fresh [of "fst x" m "snd x"] by (auto simp: image_iff)
  then show ?case using Cons.IH [of "m @ [x]"] Cons.prems by simp
qed simp

lemma StrJoin_plain_not_dot: "ns \<noteq> [] \<Longrightarrow> \<forall>c \<in> set ns. plain c \<Longrightarrow> StrJoin ''/'' ns \<noteq> ''.''"
proof
  assume ns: "ns \<noteq> []" "\<forall>c \<in> set ns. plain c" and "StrJoin ''/'' ns = ''.''"
  then have "comps (build_path False ns) = comps ''.''" by (simp add: build_path_def)
  then have "ns = comps ''.''" using comps_build_plain [OF ns(2), of False] by simp
  also have "\<dots> = []" by (simp add: comps_def clean_comps_def clean_step_def IsAbs_def)
  finally show False using ns(1) by simp
qed

lemma strip_common_prefix: "strip_common as (as @ ts) = ([], ts)"
  by (induction as) (cases ts, auto)

lemma filepath_Rel_self: "filepath_Rel root root = Some ''.''"
  by (simp add: filepath_Rel_def)

lemma Clean_eq_dot: "Clean p = ''.'' \<Longrightarrow> comps p = [] \<and> \<not> IsAbs p"
  by (metis IsAbs_Clean comps_Clean comps_build_plain build_path_def empty_iff empty_set
      IsAbs_def list.set(1) IsAbs_build_path)

lemma filepath_Rel_under:
  assumes "IsAbs p = IsAbs root" "comps p = comps root @ ns" "ns \<noteq> []" "\<forall>c \<in> set ns. plain c"
  shows "filepath_Rel root p = Some (StrJoin ''/'' ns)"
proof -
  have "Clean p \<noteq> Clean root" using assms(2,3) by (metis append_self_conv comps_Clean)
  moreover have "Clean p \<noteq> ''.''" using Clean_eq_dot [of p] assms(2,3) by auto
  moreover have "\<not> (Clean root = ''.'' \<and> IsAbs (Clean p))"
    using Clean_eq_dot [of root] assms(1) by auto
  ultimately show ?thesis
    using assms by (simp add: filepath_Rel_def strip_common_prefix Let_def)
qed

lemma walkLocal_fn_plain:
  assumes "IsAbs p = IsAbs root" "comps p = comps root @ ns" "ns \<noteq> []" "\<forall>c \<in> set ns. plain c"
  shows "walkLocal_fn dm root ps p (Some d) None acc =
    (if shown dm ps ns d then (Continue, put_all (infos1 (ns, d)) acc)
     else (if dn_IsDir d \<and> dn_kind d \<noteq> KSymlink then SkipDir else Continue, acc))"
  using assms StrJoin_plain_not_dot [of ns]
  by (auto simp: walkLocal_fn_def filepath_Rel_under shown_def infos1_def dn_IsDir_def
      split: sum.splits)

lemma path_Join_child:
  assumes "p \<noteq> ''''" "plain n"
  shows "path_Join [p, n] \<noteq> ''''" "IsAbs (path_Join [p, n]) = IsAbs p"
    "comps (path_Join [p, n]) = comps p @ [n]"
proof -
  have "path_Join [p, n] = Clean (p @ ''/'' @ n)"
    using assms by (simp add: path_Join_def plain_def)
  moreover have "comps (p @ ''/'' @ n) = comps p @ [n]"
    using comps_join_plain [of p "[n]"] assms by simp
  ultimately show "path_Join [p, n] \<noteq> ''''" "IsAbs (path_Join [p, n]) = IsAbs p"
    "comps (path_Join [p, n]) = comps p @ [n]"
    using assms(1) by (simp_all add: IsAbs_append)
qed

lemma infos_simps [simp]:
  "infos [] = []" "infos (x # xs) = infos1 x @ infos xs" "infos (xs @ ys) = infos xs @ infos ys"
  by (simp_all add: infos_def)

lemma walkLocal_fn_err:
  "dn_IsDir d \<Longrightarrow> walkLocal_fn dm root ps p (Some d) (Some e) acc = (SkipDir, acc)"
  by (simp add: walkLocal_fn_def)

lemma walkDir_not_shown:
  assumes "IsAbs p = IsAbs root" "comps p = comps root @ ns" "ns \<noteq> []" "\<forall>c \<in> set ns. plain c"
    and "\<not> shown dm ps ns d"
  shows "walkDir (walkLocal_fn dm root ps) p d acc = (Continue, acc)"
proof (cases d)
  case [simp]: (DNode nm kd fi re cs)
  show ?thesis
    using assms(5) walkLocal_fn_plain [OF assms(1-4), of dm ps d]
    by (auto simp: skipped_def Let_def shown_def dn_IsDir_def)
qed

text \<open>The walk, from any path that stands for the names \<open>ns\<close> below the root.\<close>

lemma walk_below:
  assumes "root \<noteq> ''''"
  shows "\<lbrakk>wf_dnode d; p \<noteq> ''''; IsAbs p = IsAbs root; comps p = comps root @ ns; ns \<noteq> [];
      \<forall>c \<in> set ns. plain c\<rbrakk> \<Longrightarrow>
    walkDir (walkLocal_fn dm root ps) p d acc =
      (Continue, put_all (infos
         (if shown dm ps ns d then (ns, d) # below dm ps ns d else [])) acc)"
  and "\<lbrakk>list_all wf_dnode ds; list_all (\<lambda>c. plain (dn_name c)) ds; p \<noteq> '''';
      IsAbs p = IsAbs root; comps p = comps root @ ns; \<forall>c \<in> set ns. plain c\<rbrakk> \<Longrightarrow>
    walkDirs (walkLocal_fn dm root ps) p ds acc =
      (Continue, put_all (infos (belows dm ps ns ds)) acc)"
proof (induction dm ps ns d and dm ps ns ds arbitrary: p acc and p acc rule: below_belows.induct)
  case (1 dm ps ns nm kd fi re cs)
  let ?d = "DNode nm kd fi re cs"
  have cs: "list_all wf_dnode cs" "list_all (\<lambda>c. plain (dn_name c)) cs" using 1(2) by auto
  note here = walkLocal_fn_plain [OF 1(4-7), of dm ps ?d]
  have sub: "walkDirs (walkLocal_fn dm root ps) p cs acc' =
      (Continue, put_all (infos (belows dm ps ns cs)) acc')"
    if "enters ?d" for acc' using 1(1) [OF that cs 1(3-5,7)] .
  show ?case
  proof (cases "shown dm ps ns ?d")
    case False
    then show ?thesis using walkDir_not_shown [OF 1(4-7) False] by simp
  next
    case True
    note shown = this
    show ?thesis
    proof (cases "enters ?d")
      case True
      then have re: "re = None" by (simp add: enters_def)
      show ?thesis
        using shown True here sub unfolding re by (simp add: enters_def Let_def)
    next
      case False
      then show ?thesis
        using shown here walkLocal_fn_err [of ?d dm root ps p]
        by (auto simp: enters_def skipped_def Let_def)
    qed
  qed
next
  case (2 dm ps ns)
  then show ?case by simp
next
  case (3 dm ps ns d ds)
  have d: "plain (dn_name d)" "wf_dnode d" using 3(3,4) by auto
  note child = path_Join_child [OF 3(5) d(1)]
  have rest: "walkDirs (walkLocal_fn dm root ps) p ds acc' =
      (Continue, put_all (infos (belows dm ps ns ds)) acc')" for acc'
    using 3 by simp
  have ns: "ns @ [dn_name d] \<noteq> []" "\<forall>c \<in> set (ns @ [dn_name d]). plain c" using 3(8) d by auto
  have abs: "IsAbs (path_Join [p, dn_name d]) = IsAbs root"
    "comps (path_Join [p, dn_name d]) = comps root @ ns @ [dn_name d]"
    using child 3(6,7) by simp_all
  show ?case
  proof (cases "shown dm ps (ns @ [dn_name d]) d")
    case True
    then show ?thesis
      using 3(1) [OF refl True d(2) child(1) abs ns] rest by (simp add: Let_def)
  next
    case False
    then show ?thesis
      using walkDir_not_shown [OF abs ns False] rest by (simp add: Let_def)
  qed
qed

text \<open>The nodes of the listing: below the start, along plain names, each once.\<close>

lemma below_paths:
  shows "wf_dnode d \<Longrightarrow> x \<in> set (below dm ps ns d) \<Longrightarrow>
    \<exists>ms. fst x = ns @ ms \<and> ms \<noteq> [] \<and> (\<forall>c \<in> set ms. plain c)"
  and "list_all wf_dnode ds \<Longrightarrow> list_all (\<lambda>c. plain (dn_name c)) ds \<Longrightarrow>
    x \<in> set (belows dm ps ns ds) \<Longrightarrow>
    \<exists>n ms. fst x = ns @ n # ms \<and> n \<in> dn_name ` set ds \<and> plain n \<and> (\<forall>c \<in> set ms. plain c)"
proof (induction dm ps ns d and dm ps ns ds rule: below_belows.induct)
  case (1 dm ps ns nm kd fi re cs)
  then show ?case by (fastforce split: if_splits)
next
  case (3 dm ps ns d ds)
  consider "x = (ns @ [dn_name d], d)"
    | "shown dm ps (ns @ [dn_name d]) d" "x \<in> set (below dm ps (ns @ [dn_name d]) d)"
    | "x \<in> set (belows dm ps ns ds)"
    using 3(5) by (auto simp: Let_def split: if_splits)
  then show ?case
  proof cases
    case 1
    then show ?thesis using 3(4) by auto
  next
    case 2
    then show ?thesis using 3(1) [OF refl 2(1) _ 2(2)] 3(3,4) by auto
  next
    case 3
    then show ?thesis using "3.IH"(2) [OF refl] "3.prems" by auto
  qed
qed simp

lemma distinct_below:
  shows "wf_dnode d \<Longrightarrow> distinct (map fst (below dm ps ns d))"
  and "list_all wf_dnode ds \<Longrightarrow> list_all (\<lambda>c. plain (dn_name c)) ds \<Longrightarrow> distinct (map dn_name ds) \<Longrightarrow>
    distinct (map fst (belows dm ps ns ds))"
proof (induction dm ps ns d and dm ps ns ds rule: below_belows.induct)
  case (3 dm ps ns d ds)
  let ?ns = "ns @ [dn_name d]"
  have rest: "distinct (map fst (belows dm ps ns ds))" using 3 by simp
  have heads: "fst x \<noteq> ?ns \<and> (\<forall>ms. fst x \<noteq> ?ns @ ms)" if "x \<in> set (belows dm ps ns ds)" for x
    using below_paths(2) [OF _ _ that] 3(3-5) by fastforce
  have under: "fst x \<noteq> ?ns \<and> (\<exists>ms. fst x = ?ns @ ms)" if "x \<in> set (below dm ps ?ns d)" for x
    using below_paths(1) [OF _ that] 3(3) by auto
  show ?case
  proof (cases "shown dm ps ?ns d")
    case True
    have "fst ` set (below dm ps ?ns d) \<inter> fst ` set (belows dm ps ns ds) = {}"
      using heads under by (auto simp: disjoint_iff image_iff) metis
    moreover have "?ns \<notin> fst ` set (below dm ps ?ns d)" "?ns \<notin> fst ` set (belows dm ps ns ds)"
      using heads under by (metis imageE)+
    ultimately show ?thesis
      using True rest 3(1) [OF refl True] 3(3) by (simp add: Let_def)
  next
    case False
    then show ?thesis using rest by (simp add: Let_def)
  qed
qed auto

lemma StrJoin_plain_inj:
  assumes "\<forall>c \<in> set as. plain c" "\<forall>c \<in> set bs. plain c" "StrJoin ''/'' as = StrJoin ''/'' bs"
  shows "as = bs"
  using comps_build_plain [OF assms(1), of True] comps_build_plain [OF assms(2), of True] assms(3)
  by (simp add: build_path_def)

lemma distinct_infos:
  "distinct (map fst xs) \<Longrightarrow> \<forall>x \<in> set xs. \<forall>c \<in> set (fst x). plain c \<Longrightarrow> distinct_keys (infos xs)"
proof (induction xs)
  case (Cons x xs)
  have key: "k \<in> fst ` set (infos ys) \<Longrightarrow> \<exists>y \<in> set ys. k = StrJoin ''/'' (fst y)" for k ys
    by (induction ys) (auto simp: infos1_def split: sum.splits)
  have "StrJoin ''/'' (fst x) \<notin> fst ` set (infos xs)"
  proof
    assume "StrJoin ''/'' (fst x) \<in> fst ` set (infos xs)"
    then obtain y where y: "y \<in> set xs" "StrJoin ''/'' (fst x) = StrJoin ''/'' (fst y)"
      using key by blast
    then have "fst x = fst y" using Cons.prems(2) StrJoin_plain_inj by auto
    then show False using Cons.prems(1) y(1) by (force simp: image_iff)
  qed
  then show ?case
    using Cons by (auto simp: infos1_def split: sum.splits)
qed simp

lemma infos_below_distinct: "wf_dnode d \<Longrightarrow> distinct_keys (infos (below dm ps [] d))"
  using distinct_infos [OF distinct_below(1) [of d dm ps "[]"]] below_paths(1) [of d _ dm ps "[]"]
  by fastforce

lemma walkLocal_below:
  assumes "root \<noteq> ''''" "wf_dnode d"
  shows "walkLocal dm (Inr d) root ps = (None, infos (below dm ps [] d))"
proof (cases d)
  case [simp]: (DNode nm kd fi re cs)
  have cs: "list_all wf_dnode cs" "list_all (\<lambda>c. plain (dn_name c)) cs" using assms(2) by auto
  have fn: "walkLocal_fn dm root ps root (Some d) None [] = (Continue, [])"
    by (simp add: walkLocal_fn_def filepath_Rel_self dn_IsDir_def)
  have sub: "walkDirs (walkLocal_fn dm root ps) root cs [] =
      (Continue, put_all (infos (belows dm ps [] cs)) [])"
    using walk_below(2) [OF assms(1) cs assms(1), where ns = "[]"] by simp
  have dist: "put_all (infos (below dm ps [] d)) [] = infos (below dm ps [] d)"
    using put_all_fresh [of "[]" "infos (below dm ps [] d)"] infos_below_distinct [OF assms(2)]
    by (simp only: append_Nil)
  show ?thesis
    using fn sub dist walkLocal_fn_err [of d dm root ps root]
    by (cases re) (auto simp: walkLocal_def WalkDir_def Let_def enters_def skipped_def)
qed

text \<open>Whatever the disk answers, the walk reports no error and keeps the keys distinct.\<close>

definition good :: "('a \<Rightarrow> bool) \<Rightarrow> walk_ctl \<times> 'a \<Rightarrow> bool" where
  "good P r \<longleftrightarrow> (\<forall>x. fst r \<noteq> Fail x) \<and> P (snd r)"

lemma good_Pair [simp]: "good P (c, acc) \<longleftrightarrow> (\<forall>x. c \<noteq> Fail x) \<and> P acc"
  by (simp add: good_def)

lemma walk_good:
  shows "\<lbrakk>\<And>p d e acc. P acc \<Longrightarrow> good P (fn p d e acc); P acc\<rbrakk> \<Longrightarrow> good P (walkDir fn p d acc)"
    and "\<lbrakk>\<And>p d e acc. P acc \<Longrightarrow> good P (fn p d e acc); P acc\<rbrakk> \<Longrightarrow> good P (walkDirs fn p ds acc)"
proof (induction fn p d acc and fn p ds acc rule: walkDir_walkDirs.induct)
  case (1 fn path nm kd fi re cs acc)
  let ?d = "DNode nm kd fi re cs"
  obtain c acc1 where one: "fn path (Some ?d) None acc = (c, acc1)" by fastforce
  then have ok1: "(\<forall>x. c \<noteq> Fail x) \<and> P acc1" using 1(3) [OF 1(4), of path "Some ?d" None] by simp
  show ?case
  proof (cases "c \<noteq> Continue \<or> \<not> dn_IsDir ?d")
    case True
    then show ?thesis using one ok1 by (simp add: Let_def skipped_def)
  next
    case False
    note go = this
    show ?thesis
    proof (cases re)
      case None
      then show ?thesis
        using 1(1) [OF refl one [symmetric] refl go None] 1(3) ok1 one go by (simp add: Let_def)
    next
      case (Some e)
      obtain c2 acc2 where two: "fn path (Some ?d) (Some e) acc1 = (c2, acc2)" by fastforce
      then have ok2: "(\<forall>x. c2 \<noteq> Fail x) \<and> P acc2"
        using 1(3) [of acc1 path "Some ?d" "Some e"] ok1 by simp
      show ?thesis
      proof (cases "c2 = Continue")
        case True
        then show ?thesis
          using 1(2) [OF refl one [symmetric] refl go Some _ refl] 1(3) ok2 one two go Some
          by (simp add: Let_def)
      next
        case False
        then show ?thesis using ok2 one two go Some by (simp add: Let_def skipped_def)
      qed
    qed
  qed
next
  case (3 fn path d1 ds acc)
  obtain c acc1 where one: "walkDir fn (path_Join [path, dn_name d1]) d1 acc = (c, acc1)"
    by fastforce
  have ok1: "(\<forall>x. c \<noteq> Fail x) \<and> P acc1" using 3(1) [OF 3(3,4)] one by simp
  show ?case
    using 3(2) [OF one [symmetric] refl _ 3(3)] ok1 one by (cases c) (simp_all add: Let_def)
qed simp

lemma walkLocal_fn_good:
  "distinct_keys acc \<Longrightarrow> good distinct_keys (walkLocal_fn dm root ps p d e acc)"
  by (auto simp: walkLocal_fn_def distinct_update split: option.splits sum.splits)

lemma walkLocal_good:
  "fst (walkLocal dm lstat root ps) = None \<and> distinct_keys (snd (walkLocal dm lstat root ps))"
proof -
  have "good distinct_keys
      (case lstat of Inl e \<Rightarrow> walkLocal_fn dm root ps root None (Some e) []
       | Inr d \<Rightarrow> walkDir (walkLocal_fn dm root ps) root d [])"
    using walkLocal_fn_good [where acc = "[]"] walk_good(1) [OF walkLocal_fn_good, where acc = "[]"]
    by (auto split: sum.splits)
  then show ?thesis
    by (auto simp: walkLocal_def WalkDir_def Let_def case_prod_beta good_def split: walk_ctl.splits)
qed

lemma walkLocal_unreadable: "walkLocal dm (Inl e) root ps = (None, [])"
  by (simp add: walkLocal_def WalkDir_def walkLocal_fn_def)

lemma walkLocal_not_dir: "\<not> dn_IsDir d \<Longrightarrow> walkLocal dm (Inr d) root ps = (None, [])"
  by (cases d) (simp add: walkLocal_def WalkDir_def walkLocal_fn_def filepath_Rel_self Let_def
      skipped_def)

end
