(* ===== verification/Transfer_Workers.thy ===== *)
theory Transfer_Workers
  imports Transfer_Client
begin

text \<open>
  The worker pool of internal/transfer/mirror.go: \<open>runTransfers\<close> with its
  \<open>reconnectCoordinator\<close> (\<open>runGuarded\<close>, \<open>healthy\<close>, \<open>reconnect\<close>).

  First as a step function over a list of workers that interleave freely. A step is the
  code between two points where a goroutine can block: taking the read lock and calling
  out, returning from the call and releasing it, taking the write lock, and so on. What
  a call returns is the environment's choice, an argument of the step. Then as the
  sequential loop a single worker runs, over a concrete client.

  The lock is the one of \<open>sync.RWMutex\<close>: readers are the workers inside \<open>runGuarded\<close>
  and \<open>healthy\<close>, the writer the one inside \<open>reconnect\<close>. Its preference for waiting
  writers only removes interleavings, so it is left out.
\<close>

section \<open>Workers as a step function\<close>

datatype 'j wpc =
    Receive
  | WantRun 'j nat
  | Running 'j nat
  | WantProbe 'j nat goerr
  | Probing 'j nat goerr
  | WantReconnect 'j nat goerr
  | Reconnecting 'j nat goerr
  | Report 'j "goerr option"
  | Finished

record 'j rt_state =
  rt_queue :: "'j list"
  rt_pcs :: "'j wpc list"
  rt_gen :: nat
  rt_results :: "('j \<times> goerr option) list"
  rt_reconnects :: "(nat \<times> bool) list"

datatype outcome = RunReturns "goerr option" | AliveReturns bool | ConnectReturns "goerr option" | NoCall

fun is_reader :: "'j wpc \<Rightarrow> bool" where
  "is_reader (Running _ _) = True"
| "is_reader (Probing _ _ _) = True"
| "is_reader _ = False"

fun is_writer :: "'j wpc \<Rightarrow> bool" where
  "is_writer (Reconnecting _ _ _) = True"
| "is_writer _ = False"

definition can_rlock :: "'j rt_state \<Rightarrow> bool" where
  "can_rlock s \<longleftrightarrow> list_all (\<lambda>p. \<not> is_writer p) (rt_pcs s)"

definition can_lock :: "'j rt_state \<Rightarrow> bool" where
  "can_lock s \<longleftrightarrow> list_all (\<lambda>p. \<not> is_writer p \<and> \<not> is_reader p) (rt_pcs s)"

definition set_pc :: "nat \<Rightarrow> 'j wpc \<Rightarrow> 'j rt_state \<Rightarrow> 'j rt_state" where
  "set_pc i p s = s\<lparr>rt_pcs := (rt_pcs s)[i := p]\<rparr>"

text \<open>
  \<open>reconnect\<close> under the write lock: nothing to do if another worker reconnected since
  the failure was observed, otherwise \<open>Close\<close> and \<open>Connect\<close> (the state
  \<open>Reconnecting\<close>), and a new generation if that worked.
\<close>

definition enter_reconnect :: "nat \<Rightarrow> 'j \<Rightarrow> nat \<Rightarrow> goerr \<Rightarrow> 'j rt_state \<Rightarrow> 'j rt_state" where
  "enter_reconnect i j observedGen e s =
    (if rt_gen s \<noteq> observedGen then set_pc i (WantRun j 2) s
     else set_pc i (Reconnecting j observedGen e) s)"

definition leave_reconnect ::
  "nat \<Rightarrow> 'j \<Rightarrow> nat \<Rightarrow> goerr \<Rightarrow> goerr option \<Rightarrow> 'j rt_state \<Rightarrow> 'j rt_state" where
  "leave_reconnect i j observedGen e connErr s =
    (if connErr \<noteq> None
     then set_pc i (Report j (Some e)) s
       \<lparr>rt_reconnects := rt_reconnects s @ [(observedGen, False)]\<rparr>
     else set_pc i (WantRun j 2) s
       \<lparr>rt_gen := Suc (rt_gen s), rt_reconnects := rt_reconnects s @ [(observedGen, True)]\<rparr>)"

text \<open>\<open>healthy\<close>: the generation is compared first, the connection is probed only then.\<close>

definition enter_healthy :: "nat \<Rightarrow> 'j \<Rightarrow> nat \<Rightarrow> goerr \<Rightarrow> 'j rt_state \<Rightarrow> 'j rt_state" where
  "enter_healthy i j observedGen e s =
    (if rt_gen s = observedGen then set_pc i (Probing j observedGen e) s
     else set_pc i (WantReconnect j observedGen e) s)"

text \<open>
  \<open>runGuarded\<close> returns: the first attempt's failure goes on to \<open>healthy\<close> with the
  generation read under the lock, a success or any second result is reported.
\<close>

definition leave_run :: "nat \<Rightarrow> 'j \<Rightarrow> nat \<Rightarrow> goerr option \<Rightarrow> 'j rt_state \<Rightarrow> 'j rt_state" where
  "leave_run i j k err s =
    (case err of
       None \<Rightarrow> set_pc i (Report j None) s
     | Some e \<Rightarrow> if k = 1 then set_pc i (WantProbe j (rt_gen s) e) s
                 else set_pc i (Report j (Some e)) s)"

fun pc_next :: "nat \<Rightarrow> 'j wpc \<Rightarrow> outcome \<Rightarrow> 'j rt_state \<Rightarrow> 'j rt_state option" where
  "pc_next i Receive NoCall s =
    (case rt_queue s of
       [] \<Rightarrow> Some (set_pc i Finished s)
     | j # q \<Rightarrow> Some (set_pc i (WantRun j 1) (s\<lparr>rt_queue := q\<rparr>)))"
| "pc_next i (WantRun j k) NoCall s =
    (if can_rlock s then Some (set_pc i (Running j k) s) else None)"
| "pc_next i (Running j k) (RunReturns err) s = Some (leave_run i j k err s)"
| "pc_next i (WantProbe j g e) NoCall s =
    (if can_rlock s then Some (enter_healthy i j g e s) else None)"
| "pc_next i (Probing j g e) (AliveReturns alive) s =
    Some (if alive then set_pc i (Report j (Some e)) s else set_pc i (WantReconnect j g e) s)"
| "pc_next i (WantReconnect j g e) NoCall s =
    (if can_lock s then Some (enter_reconnect i j g e s) else None)"
| "pc_next i (Reconnecting j g e) (ConnectReturns err) s = Some (leave_reconnect i j g e err s)"
| "pc_next i (Report j err) NoCall s =
    Some (set_pc i Receive s\<lparr>rt_results := rt_results s @ [(j, err)]\<rparr>)"
| "pc_next _ _ _ _ = None"

definition rt_next :: "nat \<Rightarrow> outcome \<Rightarrow> 'j rt_state \<Rightarrow> 'j rt_state option" where
  "rt_next i out s = (if i < length (rt_pcs s) then pc_next i (rt_pcs s ! i) out s else None)"

text \<open>The start of \<open>runTransfers\<close> with this many workers.\<close>

definition workers :: "'w RemoteClient \<Rightarrow> 'j list \<Rightarrow> nat" where
  "workers client jobs =
    (if supportsConcurrentRequests client then min MaxConcurrentTransfers (length jobs) else 1)"

definition rt_init :: "nat \<Rightarrow> 'j list \<Rightarrow> 'j rt_state" where
  "rt_init n jobs = \<lparr>rt_queue = jobs, rt_pcs = replicate n Receive, rt_gen = 0,
     rt_results = [], rt_reconnects = []\<rparr>"

inductive rt_reach :: "nat \<Rightarrow> 'j list \<Rightarrow> 'j rt_state \<Rightarrow> bool" for n jobs where
  rt_start: "rt_reach n jobs (rt_init n jobs)"
| rt_step: "rt_reach n jobs s \<Longrightarrow> rt_next i out s = Some t \<Longrightarrow> rt_reach n jobs t"

text \<open>\<open>wg.Wait\<close> returns.\<close>

definition rt_done :: "'j rt_state \<Rightarrow> bool" where
  "rt_done s \<longleftrightarrow> (\<forall>p \<in> set (rt_pcs s). p = Finished)"

section \<open>The single worker\<close>

type_synonym 'w job = "MirrorEntry \<times> ('w \<Rightarrow> goerr option \<times> 'w)"
type_synonym 'w runner = "'w job list \<Rightarrow> 'w \<Rightarrow> (MirrorEntry \<times> goerr option) list \<times> 'w"

definition run_one ::
  "'w RemoteClient \<Rightarrow> ('w \<Rightarrow> goerr option \<times> 'w) \<Rightarrow> 'w \<Rightarrow> goerr option \<times> 'w" where
  "run_one client run w =
    (case run w of
       (None, w1) \<Rightarrow> (None, w1)
     | (Some e, w1) \<Rightarrow>
         (case rc_IsAlive client w1 of
            (True, w2) \<Rightarrow> (Some e, w2)
          | (False, w2) \<Rightarrow>
              (case rc_Connect client (snd (rc_Close client w2)) of
                 (Some _, w3) \<Rightarrow> (Some e, w3)
               | (None, w3) \<Rightarrow> run w3)))"

text \<open>The results in the order \<open>onResult\<close> is called with them.\<close>

fun runTransfers :: "'w RemoteClient \<Rightarrow> 'w runner" where
  "runTransfers client [] w = ([], w)"
| "runTransfers client ((a, run) # jobs) w =
    (case run_one client run w of
       (err, w1) \<Rightarrow>
         (case runTransfers client jobs w1 of
            (rs, w2) \<Rightarrow> ((a, err) # rs, w2)))"

text \<open>
  What \<open>executeUp\<close> and \<open>executeDown\<close> rely on: one result for every job. Which order
  the results come in is the scheduler's choice.
\<close>

locale transfer_runner =
  fixes rt :: "'w runner"
  assumes one_result: "mset (map fst (fst (rt jobs w))) = mset (map fst jobs)"
begin

lemma length_results: "length (fst (rt jobs w)) = length jobs"
  using arg_cong [OF one_result, of size jobs w] by simp

lemma set_results: "fst ` set (fst (rt jobs w)) = fst ` set jobs"
  using arg_cong [OF one_result, of set_mset jobs w] by simp

lemma no_jobs: "fst (rt [] w) = []"
  using length_results [of "[]" w] by simp

end

lemma runTransfers_actions: "map fst (fst (runTransfers client jobs w)) = map fst jobs"
  by (induction client jobs w rule: runTransfers.induct) (auto split: prod.splits)

interpretation seq_runner: transfer_runner "runTransfers client"
  by unfold_locales (simp add: runTransfers_actions)

section \<open>Inversion of a step\<close>

text \<open>
  Every step replaces one worker's state; the shared fields change as the rule says.
\<close>

lemma set_pc_sel [simp]:
  "rt_pcs (set_pc i p s) = (rt_pcs s)[i := p]" "rt_queue (set_pc i p s) = rt_queue s"
  "rt_gen (set_pc i p s) = rt_gen s" "rt_results (set_pc i p s) = rt_results s"
  "rt_reconnects (set_pc i p s) = rt_reconnects s"
  by (simp_all add: set_pc_def)

lemmas rt_step_defs = leave_run_def enter_healthy_def enter_reconnect_def leave_reconnect_def

fun pc_job :: "'j wpc \<Rightarrow> 'j multiset" where
  "pc_job (WantRun j _) = {#j#}"
| "pc_job (Running j _) = {#j#}"
| "pc_job (WantProbe j _ _) = {#j#}"
| "pc_job (Probing j _ _) = {#j#}"
| "pc_job (WantReconnect j _ _) = {#j#}"
| "pc_job (Reconnecting j _ _) = {#j#}"
| "pc_job (Report j _) = {#j#}"
| "pc_job _ = {#}"

definition in_hand :: "'j rt_state \<Rightarrow> 'j multiset" where
  "in_hand s = (\<Sum>p \<leftarrow> rt_pcs s. pc_job p)"

lemma sum_pc_job_empty: "\<forall>p \<in> set ps. pc_job p = {#} \<Longrightarrow> (\<Sum>p \<leftarrow> ps. pc_job p) = {#}"
  by (induction ps) auto

definition all_jobs :: "'j rt_state \<Rightarrow> 'j multiset" where
  "all_jobs s = mset (rt_queue s) + in_hand s + mset (map fst (rt_results s))"

text \<open>The worker that moves, singled out in the list of workers.\<close>

lemma rt_next_split:
  assumes "rt_next i out s = Some t"
  obtains xs p ys where "rt_pcs s = xs @ p # ys" "i = length xs" "pc_next i p out s = Some t"
proof -
  from assms have "i < length (rt_pcs s)" and *: "pc_next i (rt_pcs s ! i) out s = Some t"
    by (auto simp: rt_next_def split: if_splits)
  then have "rt_pcs s = take i (rt_pcs s) @ rt_pcs s ! i # drop (Suc i) (rt_pcs s)"
    "i = length (take i (rt_pcs s))"
    by (simp_all add: id_take_nth_drop)
  then show ?thesis using that * by blast
qed

text \<open>No job is lost or duplicated: what is queued, in hand or reported is constant.\<close>

lemma pc_next_all_jobs:
  assumes "rt_pcs s = xs @ p # ys" "pc_next (length xs) p out s = Some t"
  shows "all_jobs t = all_jobs s"
  using assms
  by (cases "(length xs, p, out, s)" rule: pc_next.cases)
     (auto simp: all_jobs_def in_hand_def rt_step_defs split: list.splits option.splits if_splits)

lemma rt_next_all_jobs: "rt_next i out s = Some t \<Longrightarrow> all_jobs t = all_jobs s"
  by (erule rt_next_split) (auto dest: pc_next_all_jobs)

text \<open>
  The lock, and what the generation numbers in the workers' hands mean: a reconnect in
  progress excludes every attempt and probe, it is for the current generation, and each
  generation has been left by exactly one successful reconnect.
\<close>

definition lock_ok :: "'j rt_state \<Rightarrow> bool" where
  "lock_ok s \<longleftrightarrow> length (filter is_writer (rt_pcs s)) \<le> 1 \<and>
    (filter is_writer (rt_pcs s) \<noteq> [] \<longrightarrow> filter is_reader (rt_pcs s) = [])"

definition gen_ok :: "'j rt_state \<Rightarrow> bool" where
  "gen_ok s \<longleftrightarrow>
    (\<forall>j g e. Reconnecting j g e \<in> set (rt_pcs s) \<longrightarrow> g = rt_gen s) \<and>
    map fst (filter snd (rt_reconnects s)) = [0..<rt_gen s]"

definition queue_ok :: "'j rt_state \<Rightarrow> bool" where
  "queue_ok s \<longleftrightarrow> (Finished \<in> set (rt_pcs s) \<longrightarrow> rt_queue s = [])"

definition rt_inv :: "'j rt_state \<Rightarrow> bool" where
  "rt_inv s \<longleftrightarrow> lock_ok s \<and> gen_ok s \<and> queue_ok s"

lemma list_all_filter_Nil: "list_all (\<lambda>x. \<not> P x) xs \<longleftrightarrow> filter P xs = []"
  by (induction xs) auto

lemma can_rlock_iff: "can_rlock s \<longleftrightarrow> filter is_writer (rt_pcs s) = []"
  by (simp add: can_rlock_def list_all_filter_Nil)

lemma can_lock_iff:
  "can_lock s \<longleftrightarrow> filter is_writer (rt_pcs s) = [] \<and> filter is_reader (rt_pcs s) = []"
  by (auto simp: can_lock_def list_all_iff filter_empty_conv)

lemma pc_next_lock_ok:
  assumes "rt_pcs s = xs @ p # ys" "pc_next (length xs) p out s = Some t" "lock_ok s"
  shows "lock_ok t"
  using assms
  by (cases "(length xs, p, out, s)" rule: pc_next.cases)
     (auto simp: lock_ok_def can_rlock_iff can_lock_iff rt_step_defs
       split: list.splits option.splits if_splits)

lemma lock_ok_others:
  assumes "rt_pcs s = xs @ p # ys" "is_writer p" "lock_ok s" "q \<in> set xs \<union> set ys"
  shows "\<not> is_writer q"
proof -
  have "filter is_writer xs = [] \<and> filter is_writer ys = []"
    using assms(1-3) by (auto simp: lock_ok_def)
  then show ?thesis using assms(4) by (auto simp: filter_empty_conv)
qed

lemma pc_next_gen_ok:
  assumes "rt_pcs s = xs @ p # ys" "pc_next (length xs) p out s = Some t" "lock_ok s" "gen_ok s"
  shows "gen_ok t"
proof -
  have others: "Reconnecting j g e \<notin> set xs \<and> Reconnecting j g e \<notin> set ys"
    if "is_writer p" for j g e
    using lock_ok_others [OF assms(1) that assms(3), of "Reconnecting j g e"] by auto
  show ?thesis
    using assms(1,2,4) others
    by (cases "(length xs, p, out, s)" rule: pc_next.cases)
       (auto simp: gen_ok_def rt_step_defs split: list.splits option.splits if_splits)
qed

lemma pc_next_queue_ok:
  assumes "rt_pcs s = xs @ p # ys" "pc_next (length xs) p out s = Some t" "queue_ok s"
  shows "queue_ok t"
  using assms
  by (cases "(length xs, p, out, s)" rule: pc_next.cases)
     (auto simp: queue_ok_def rt_step_defs split: list.splits option.splits if_splits)

lemma rt_next_inv: "rt_next i out s = Some t \<Longrightarrow> rt_inv s \<Longrightarrow> rt_inv t"
  unfolding rt_inv_def
  by (erule rt_next_split)
     (auto intro: pc_next_lock_ok pc_next_gen_ok pc_next_queue_ok)

lemma rt_next_length: "rt_next i out s = Some t \<Longrightarrow> length (rt_pcs t) = length (rt_pcs s)"
proof (erule rt_next_split)
  fix xs p ys
  assume "rt_pcs s = xs @ p # ys" "i = length xs" "pc_next i p out s = Some t"
  then show ?thesis
    by (cases "(length xs, p, out, s)" rule: pc_next.cases)
       (auto simp: rt_step_defs split: list.splits option.splits if_splits)
qed

lemma rt_inv_init: "rt_inv (rt_init n jobs)"
  by (auto simp: rt_inv_def rt_init_def lock_ok_def gen_ok_def queue_ok_def filter_empty_conv)

lemma rt_reach_inv:
  "rt_reach n jobs s \<Longrightarrow>
   rt_inv s \<and> all_jobs s = mset jobs \<and> length (rt_pcs s) = n"
proof (induction rule: rt_reach.induct)
  case rt_start
  then show ?case
    using rt_inv_init [of n jobs] sum_pc_job_empty [of "replicate n Receive"]
    by (simp add: all_jobs_def in_hand_def rt_init_def)
next
  case (rt_step s i out t)
  then show ?case
    using rt_next_inv rt_next_all_jobs rt_next_length by metis
qed

section \<open>Progress and termination\<close>

fun pc_work :: "'j wpc \<Rightarrow> nat" where
  "pc_work Finished = 0"
| "pc_work Receive = 1"
| "pc_work (Report _ _) = 2"
| "pc_work (Running _ k) = (if k = 1 then 9 else 3)"
| "pc_work (WantRun _ k) = (if k = 1 then 10 else 4)"
| "pc_work (Reconnecting _ _ _) = 5"
| "pc_work (WantReconnect _ _ _) = 6"
| "pc_work (Probing _ _ _) = 7"
| "pc_work (WantProbe _ _ _) = 8"

definition rt_work :: "'j rt_state \<Rightarrow> nat" where
  "rt_work s = 10 * length (rt_queue s) + (\<Sum>p \<leftarrow> rt_pcs s. pc_work p)"

lemma rt_work_init: "rt_work (rt_init n jobs) = 10 * length jobs + n"
  by (simp add: rt_work_def rt_init_def sum_list_replicate)

lemma rt_next_work: "rt_next i out s = Some t \<Longrightarrow> rt_work t < rt_work s"
proof (erule rt_next_split)
  fix xs p ys
  assume "rt_pcs s = xs @ p # ys" "i = length xs" "pc_next i p out s = Some t"
  then show ?thesis
    by (cases "(length xs, p, out, s)" rule: pc_next.cases)
       (auto simp: rt_work_def rt_step_defs split: list.splits option.splits if_splits)
qed

text \<open>Some worker can always move: the writer, else a reader, else anyone.\<close>

lemma pc_next_free:
  assumes "p \<noteq> Finished" "is_writer p \<or> is_reader p \<or> can_lock s"
  shows "\<exists>out t. pc_next i p out s = Some t"
proof -
  have "can_rlock s" if "can_lock s" using that by (simp add: can_rlock_iff can_lock_iff)
  then have
    "\<exists>t. pc_next i p NoCall s = Some t \<or> pc_next i p (RunReturns None) s = Some t \<or>
         pc_next i p (AliveReturns True) s = Some t \<or> pc_next i p (ConnectReturns None) s = Some t"
    using assms by (cases p) (auto split: list.splits)
  then show ?thesis by blast
qed

lemma rt_progress: "\<not> rt_done s \<Longrightarrow> \<exists>i out t. rt_next i out s = Some t"
proof -
  assume nd: "\<not> rt_done s"
  have "\<exists>p \<in> set (rt_pcs s). p \<noteq> Finished \<and> (is_writer p \<or> is_reader p \<or> can_lock s)"
  proof (cases "can_lock s")
    case True
    then show ?thesis using nd by (auto simp: rt_done_def)
  next
    case False
    then obtain p where "p \<in> set (rt_pcs s)" "is_writer p \<or> is_reader p"
      by (auto simp: can_lock_def list_all_iff)
    moreover from this have "p \<noteq> Finished" by auto
    ultimately show ?thesis by blast
  qed
  then obtain i where "i < length (rt_pcs s)" "rt_pcs s ! i \<noteq> Finished"
    "is_writer (rt_pcs s ! i) \<or> is_reader (rt_pcs s ! i) \<or> can_lock s"
    by (auto simp: in_set_conv_nth)
  then show ?thesis
    using pc_next_free [of "rt_pcs s ! i" s i] by (auto simp: rt_next_def)
qed

text \<open>A schedule is a list of choices; running one is executable.\<close>

fun rt_run :: "(nat \<times> outcome) list \<Rightarrow> 'j rt_state \<Rightarrow> 'j rt_state option" where
  "rt_run [] s = Some s"
| "rt_run ((i, out) # sched) s =
    (case rt_next i out s of None \<Rightarrow> None | Some t \<Rightarrow> rt_run sched t)"

lemma rt_run_append:
  "rt_run (a @ b) s = (case rt_run a s of None \<Rightarrow> None | Some t \<Rightarrow> rt_run b t)"
  by (induction a s rule: rt_run.induct) (auto split: option.splits)

lemma rt_run_reach: "rt_run sched s = Some t \<Longrightarrow> rt_reach n jobs s \<Longrightarrow> rt_reach n jobs t"
  by (induction sched s rule: rt_run.induct) (auto split: option.splits intro: rt_step)

lemma rt_run_bound: "rt_run sched s = Some t \<Longrightarrow> length sched + rt_work t \<le> rt_work s"
  by (induction sched s rule: rt_run.induct) (fastforce split: option.splits dest: rt_next_work)+

lemma rt_run_to_done: "\<exists>sched t. rt_run sched s = Some t \<and> rt_done t"
proof (induction "rt_work s" arbitrary: s rule: less_induct)
  case less
  show ?case
  proof (cases "rt_done s")
    case True
    then show ?thesis using rt_run.simps(1) by blast
  next
    case False
    then obtain i out u where u: "rt_next i out s = Some u" using rt_progress by blast
    then obtain sched t where "rt_run sched u = Some t" "rt_done t"
      using less rt_next_work by blast
    then have "rt_run ((i, out) # sched) s = Some t \<and> rt_done t" using u by simp
    then show ?thesis by blast
  qed
qed

lemma rt_done_results:
  assumes "rt_reach n jobs s" "rt_done s" "n > 0"
  shows "mset (map fst (rt_results s)) = mset jobs"
proof -
  have inv: "rt_inv s" "all_jobs s = mset jobs" "length (rt_pcs s) = n"
    using rt_reach_inv [OF assms(1)] by auto
  then have "rt_pcs s \<noteq> []" using assms(3) by auto
  then have "Finished \<in> set (rt_pcs s)" using assms(2) by (cases "rt_pcs s") (auto simp: rt_done_def)
  then have "rt_queue s = []" using inv(1) by (simp add: rt_inv_def queue_ok_def)
  moreover have "in_hand s = {#}"
    using assms(2) by (auto simp: in_hand_def rt_done_def intro!: sum_pc_job_empty)
  ultimately show ?thesis using inv(2) by (simp add: all_jobs_def)
qed

section \<open>The single worker is a schedule of one worker\<close>

lemma run_one_schedule:
  assumes "rt_pcs s = [Receive]" "rt_queue s = j # q"
  shows "\<exists>sched t. rt_run sched s = Some t \<and> rt_pcs t = [Receive] \<and> rt_queue t = q \<and>
    rt_results t = rt_results s @ [(j, fst (run_one client run w))]"
proof -
  let ?s1 = "set_pc 0 (Running j 1) (s\<lparr>rt_queue := q\<rparr>)"
  have go: "\<exists>sched t. rt_run sched s = Some t \<and> rt_pcs t = [Receive] \<and> rt_queue t = q \<and>
      rt_results t = rt_results s @ [(j, err)]"
    if "rt_run sch s = Some t" "rt_pcs t = [Receive]" "rt_queue t = q"
      "rt_results t = rt_results s @ [(j, err)]" for sch t err
    using that by blast
  note eval = rt_next_def can_rlock_def can_lock_def rt_step_defs assms
  show ?thesis
  proof (cases "run w")
    case (Pair o1 w1)
    note r1 = Pair
    show ?thesis
    proof (cases o1)
      case None
      show ?thesis
        by (rule go [of "[(0, NoCall), (0, NoCall), (0, RunReturns None), (0, NoCall)]"])
           (simp add: eval r1 None run_one_def)+
    next
      case (Some e)
      show ?thesis
      proof (cases "rc_IsAlive client w1")
        case (Pair alive w2)
        note r2 = Pair
        show ?thesis
        proof (cases alive)
          case True
          show ?thesis
            by (rule go [of "[(0, NoCall), (0, NoCall), (0, RunReturns (Some e)), (0, NoCall),
                (0, AliveReturns True), (0, NoCall)]"])
               (simp add: eval r1 r2 Some True run_one_def)+
        next
          case False
          show ?thesis
          proof (cases "rc_Connect client (snd (rc_Close client w2))")
            case (Pair c w3)
            note r3 = Pair
            show ?thesis
            proof (cases c)
              case None
              obtain o2 w4 where r4: "run w3 = (o2, w4)" by fastforce
              show ?thesis
                by (cases o2; rule go [of "[(0, NoCall), (0, NoCall), (0, RunReturns (Some e)), (0, NoCall),
                    (0, AliveReturns False), (0, NoCall), (0, ConnectReturns None), (0, NoCall),
                    (0, RunReturns o2), (0, NoCall)]"])
                   (simp add: eval r1 r2 r3 r4 Some False None run_one_def)+
            next
              case (Some ce)
              show ?thesis
                by (rule go [of "[(0, NoCall), (0, NoCall), (0, RunReturns (Some e)), (0, NoCall),
                    (0, AliveReturns False), (0, NoCall), (0, ConnectReturns (Some ce)), (0, NoCall)]"])
                   (simp add: eval r1 r2 r3 \<open>o1 = Some e\<close> False Some run_one_def)+
            qed
          qed
        qed
      qed
    qed
  qed
qed

lemma runTransfers_schedule:
  assumes "rt_pcs s = [Receive]" "rt_queue s = map fst jobs"
  shows "\<exists>sched t. rt_run sched s = Some t \<and> rt_done t \<and>
    rt_results t = rt_results s @ fst (runTransfers client jobs w)"
  using assms
proof (induction client jobs w arbitrary: s rule: runTransfers.induct)
  case (1 client w)
  then have "rt_run [(0, NoCall)] s = Some (set_pc 0 Finished s)"
    by (simp add: rt_next_def)
  moreover have "rt_done (set_pc 0 Finished s)"
    using 1 by (simp add: rt_done_def)
  moreover have "rt_results (set_pc 0 Finished s) = rt_results s @ fst (runTransfers client [] w)"
    by simp
  ultimately show ?case by blast
next
  case (2 client a run jobs w)
  obtain err w1 where one: "run_one client run w = (err, w1)" by fastforce
  obtain sched t where t: "rt_run sched s = Some t" "rt_pcs t = [Receive]"
    "rt_queue t = map fst jobs" "rt_results t = rt_results s @ [(a, err)]"
    using run_one_schedule [of s a "map fst jobs" client run w] 2(2,3) one by auto
  obtain sched' u where "rt_run sched' t = Some u" "rt_done u"
    "rt_results u = rt_results t @ fst (runTransfers client jobs w1)"
    using 2(1) [OF one [symmetric] t(2,3)] by blast
  then have "rt_run (sched @ sched') s = Some u \<and> rt_done u \<and>
    rt_results u = rt_results s @ fst (runTransfers client ((a, run) # jobs) w)"
    using t one by (simp add: rt_run_append split: prod.splits)
  then show ?case by blast
qed

end
