(* ===== verification/Config.thy ===== *)
theory Config
  imports Transfer_Client
begin

text \<open>
  internal/config: the profile, its defaults and validation (types.go), loading the
  configuration file and looking a profile up (config.go).

  The file system is an argument: the home directory, the result of \<open>os.Stat\<close> and of
  \<open>os.ReadFile\<close> on the configuration path; so is \<open>json.Unmarshal\<close>. The map of profiles
  is an association list in the order of Go's iteration.
\<close>

section \<open>Profile\<close>

record Profile =
  p_Host :: string
  p_Username :: string
  p_Password :: string
  p_SSHKey :: string
  p_Port :: int
  p_Protocol :: string
  p_RemotePath :: string
  p_Context :: string
  p_AutoSync :: bool
  p_AutoSyncDebounce :: int
  p_AutoSyncDeletes :: bool
  p_VerifyHostKey :: "bool option"
  p_FTPConnections :: int
  p_TLSCACert :: string

definition DefaultFTPConnections :: int where "DefaultFTPConnections = 8"
definition MaxFTPConnections :: int where "MaxFTPConnections = 16"

datatype validate_err =
    ErrMissingHost | ErrMissingUsername | ErrMissingPassword | ErrMissingPasswordOrKey
  | ErrInvalidProtocol | ErrInvalidPort | ErrInvalidFTPConnections

definition Validate :: "Profile \<Rightarrow> validate_err option" where
  "Validate p =
    (if p_Host p = '''' then Some ErrMissingHost
     else if p_Username p = '''' then Some ErrMissingUsername
     else if p_Protocol p \<noteq> ''ftp'' \<and> p_Protocol p \<noteq> ''ftps'' \<and> p_Protocol p \<noteq> ''sftp''
       then Some ErrInvalidProtocol
     else if p_FTPConnections p < 0 \<or> p_FTPConnections p > MaxFTPConnections
       then Some ErrInvalidFTPConnections
     else if p_Port p < 1 \<or> p_Port p > 65535 then Some ErrInvalidPort
     else if p_Protocol p = ''sftp'' then
       (if p_Password p = '''' \<and> p_SSHKey p = '''' then Some ErrMissingPasswordOrKey else None)
     else
       (if p_Password p = '''' then Some ErrMissingPassword else None))"

definition ExpandHome :: "string res \<Rightarrow> string \<Rightarrow> string" where
  "ExpandHome homeDir p =
    (if p \<noteq> ''~'' \<and> \<not> HasPrefix p ''~/'' then p
     else (case homeDir of
             Inl _ \<Rightarrow> p
           | Inr home \<Rightarrow> path_Join [home, drop 1 p]))"

text \<open>Each conditional assignment writes its field back unchanged when it does not apply.\<close>

definition SetDefaults :: "string res \<Rightarrow> Profile \<Rightarrow> Profile" where
  "SetDefaults homeDir p =
    (let p = p\<lparr>p_Protocol := (if p_Protocol p = '''' then ''sftp'' else p_Protocol p)\<rparr>;
         p = p\<lparr>p_Port := (if p_Port p = 0
                            then (if p_Protocol p = ''sftp'' then 22 else 21) else p_Port p)\<rparr>;
         p = p\<lparr>p_RemotePath := (if p_RemotePath p = '''' then ''/'' else p_RemotePath p)\<rparr>;
         p = p\<lparr>p_VerifyHostKey :=
                 (if p_VerifyHostKey p = None then Some True else p_VerifyHostKey p)\<rparr>;
         p = p\<lparr>p_AutoSyncDebounce :=
                 (if p_AutoSyncDebounce p = 0 then 2000 else p_AutoSyncDebounce p)\<rparr>;
         p = p\<lparr>p_FTPConnections :=
                 (if p_FTPConnections p = 0 \<and> p_Protocol p \<noteq> ''sftp''
                  then DefaultFTPConnections else p_FTPConnections p)\<rparr>;
         p = p\<lparr>p_SSHKey := ExpandHome homeDir (p_SSHKey p)\<rparr>;
         p = p\<lparr>p_Context := ExpandHome homeDir (p_Context p)\<rparr>;
         p = p\<lparr>p_Context := (if p_Context p \<noteq> '''' then Clean (p_Context p) else p_Context p)\<rparr>
     in p\<lparr>p_TLSCACert := ExpandHome homeDir (p_TLSCACert p)\<rparr>)"

section \<open>Load\<close>

datatype config_err =
    HomeUnknown goerr
  | ErrConfigNotFound string
  | ErrConfigUnreadable goerr
  | ErrConfigEmpty string
  | ErrInvalidJSON goerr
  | ErrProfile string validate_err
  | ErrProfileNotFound string

datatype config_warning = PlainFTP string | HostKeyDisabled string | ReadableByOthers string

type_synonym Config = "(string \<times> Profile) list"

definition GetConfigPath :: "string res \<Rightarrow> config_err + string" where
  "GetConfigPath homeDir =
    (case homeDir of
       Inl e \<Rightarrow> Inl (HomeUnknown e)
     | Inr home \<Rightarrow> Inr (path_Join [home, ''.config/sfync'', ''config.json'']))"

definition warnIfInsecureProfile :: "string \<Rightarrow> Profile \<Rightarrow> config_warning list" where
  "warnIfInsecureProfile name p =
    (if p_Protocol p = ''ftp'' then [PlainFTP name] else []) @
    (if p_VerifyHostKey p = Some False then [HostKeyDisabled name] else [])"

text \<open>\<open>Perm() & 0o077 != 0\<close>: one of the six low permission bits is set.\<close>

definition warnIfInsecurePermissions :: "string \<Rightarrow> FileInfo \<Rightarrow> config_warning list" where
  "warnIfInsecurePermissions configPath info =
    (if fi_Perm info mod 64 \<noteq> 0 then [ReadableByOthers configPath] else [])"

fun load_profiles ::
  "string res \<Rightarrow> (string \<times> Profile) list \<Rightarrow> config_err + (Config \<times> config_warning list)" where
  "load_profiles homeDir [] = Inr ([], [])"
| "load_profiles homeDir ((name, p) # ps) =
    (let p' = SetDefaults homeDir p in
     case Validate p' of
       Some e \<Rightarrow> Inl (ErrProfile name e)
     | None \<Rightarrow>
         (case load_profiles homeDir ps of
            Inl e \<Rightarrow> Inl e
          | Inr (cfg, ws) \<Rightarrow> Inr ((name, p') # cfg, warnIfInsecureProfile name p' @ ws)))"

text \<open>The existence check, which only warns about permissions when it succeeds.\<close>

definition stat_config :: "string \<Rightarrow> FileInfo res \<Rightarrow> config_err + config_warning list" where
  "stat_config configPath st =
    (case st of
       Inl e \<Rightarrow> if errors_Is e ErrNotExist then Inl (ErrConfigNotFound configPath) else Inr []
     | Inr info \<Rightarrow> Inr (warnIfInsecurePermissions configPath info))"

definition Load ::
  "string res \<Rightarrow> (string \<Rightarrow> FileInfo res) \<Rightarrow> (string \<Rightarrow> string res) \<Rightarrow> (string \<Rightarrow> (string \<times> Profile) list res)
   \<Rightarrow> config_err + (Config \<times> config_warning list)" where
  "Load homeDir os_Stat os_ReadFile unmarshal =
    (case GetConfigPath homeDir of
       Inl e \<Rightarrow> Inl e
     | Inr configPath \<Rightarrow>
         (case stat_config configPath (os_Stat configPath) of
            Inl e \<Rightarrow> Inl e
          | Inr ws0 \<Rightarrow>
              (case os_ReadFile configPath of
                 Inl e \<Rightarrow> Inl (ErrConfigUnreadable e)
               | Inr bytes \<Rightarrow>
                   if bytes = '''' then Inl (ErrConfigEmpty configPath)
                   else (case unmarshal bytes of
                           Inl e \<Rightarrow> Inl (ErrInvalidJSON e)
                         | Inr profiles \<Rightarrow>
                             (case load_profiles homeDir profiles of
                                Inl e \<Rightarrow> Inl e
                              | Inr (cfg, ws) \<Rightarrow> Inr (cfg, ws0 @ ws))))))"

definition GetProfile :: "Config \<Rightarrow> string \<Rightarrow> config_err + Profile" where
  "GetProfile c name =
    (case map_of c name of None \<Rightarrow> Inl (ErrProfileNotFound name) | Some p \<Rightarrow> Inr p)"

text \<open>The errors as Go values, with the texts of config.go.\<close>

definition quoted :: "string \<Rightarrow> string" where
  "quoted s = [CHR 0x27] @ s @ [CHR 0x27]"

fun validate_msg :: "validate_err \<Rightarrow> string" where
  "validate_msg ErrMissingHost = ''missing required field: host''"
| "validate_msg ErrMissingUsername = ''missing required field: username''"
| "validate_msg ErrMissingPassword = ''missing required field: password''"
| "validate_msg ErrMissingPasswordOrKey =
     ''missing required field: password or sshKey (at least one required for SFTP)''"
| "validate_msg ErrInvalidProtocol = ''invalid protocol: must be 'ftp', 'ftps', or '' @ quoted ''sftp''"
| "validate_msg ErrInvalidPort = ''invalid port: must be between 1 and 65535''"
| "validate_msg ErrInvalidFTPConnections = ''invalid ftpConnections: must be between 1 and 16''"

fun config_error :: "config_err \<Rightarrow> goerr" where
  "config_error (HomeUnknown e) = Wrapped (''cannot determine home directory: '' @ error_msg e) [e]"
| "config_error (ErrConfigNotFound path) = ErrorString (''config file not found: '' @ path)"
| "config_error (ErrConfigUnreadable e) = ErrorString (''cannot read config file: '' @ error_msg e)"
| "config_error (ErrConfigEmpty path) = ErrorString (''config file is empty: '' @ path)"
| "config_error (ErrInvalidJSON e) = ErrorString (''invalid JSON syntax: '' @ error_msg e)"
| "config_error (ErrProfile n v) = ErrorString (''profile '' @ quoted n @ '': '' @ validate_msg v)"
| "config_error (ErrProfileNotFound n) = ErrorString (''profile not found in config: '' @ quoted n)"

section \<open>What a loaded profile satisfies\<close>

text \<open>The clean form contexts have everywhere after loading (empty: not configured).\<close>

definition context_ok :: "string \<Rightarrow> bool" where
  "context_ok c \<longleftrightarrow> c = '''' \<or> Clean c = c"

definition profile_ok :: "Profile \<Rightarrow> bool" where
  "profile_ok p \<longleftrightarrow>
     p_Host p \<noteq> '''' \<and> p_Username p \<noteq> '''' \<and>
     p_Protocol p \<in> {''ftp'', ''ftps'', ''sftp''} \<and>
     1 \<le> p_Port p \<and> p_Port p \<le> 65535 \<and>
     (p_Protocol p = ''sftp'' \<longrightarrow> p_Password p \<noteq> '''' \<or> p_SSHKey p \<noteq> '''') \<and>
     (p_Protocol p \<noteq> ''sftp'' \<longrightarrow> p_Password p \<noteq> '''' \<and> 1 \<le> p_FTPConnections p) \<and>
     0 \<le> p_FTPConnections p \<and> p_FTPConnections p \<le> MaxFTPConnections \<and>
     p_RemotePath p \<noteq> '''' \<and> p_VerifyHostKey p \<noteq> None \<and> p_AutoSyncDebounce p \<noteq> 0 \<and>
     context_ok (p_Context p)"

lemma SetDefaults_fields [simp]:
  "p_Host (SetDefaults h p) = p_Host p"
  "p_Username (SetDefaults h p) = p_Username p"
  "p_Password (SetDefaults h p) = p_Password p"
  "p_AutoSync (SetDefaults h p) = p_AutoSync p"
  "p_AutoSyncDeletes (SetDefaults h p) = p_AutoSyncDeletes p"
  "p_Protocol (SetDefaults h p) = (if p_Protocol p = '''' then ''sftp'' else p_Protocol p)"
  "p_Port (SetDefaults h p) =
     (if p_Port p = 0 then (if p_Protocol p = '''' \<or> p_Protocol p = ''sftp'' then 22 else 21)
      else p_Port p)"
  "p_RemotePath (SetDefaults h p) = (if p_RemotePath p = '''' then ''/'' else p_RemotePath p)"
  "p_VerifyHostKey (SetDefaults h p) =
     (if p_VerifyHostKey p = None then Some True else p_VerifyHostKey p)"
  "p_AutoSyncDebounce (SetDefaults h p) =
     (if p_AutoSyncDebounce p = 0 then 2000 else p_AutoSyncDebounce p)"
  "p_FTPConnections (SetDefaults h p) =
     (if p_FTPConnections p = 0 \<and> p_Protocol p \<noteq> '''' \<and> p_Protocol p \<noteq> ''sftp''
      then DefaultFTPConnections else p_FTPConnections p)"
  "p_SSHKey (SetDefaults h p) = ExpandHome h (p_SSHKey p)"
  "p_TLSCACert (SetDefaults h p) = ExpandHome h (p_TLSCACert p)"
  "p_Context (SetDefaults h p) =
     (if ExpandHome h (p_Context p) = '''' then '''' else Clean (ExpandHome h (p_Context p)))"
  by (simp_all add: SetDefaults_def Let_def)

lemma context_ok_SetDefaults: "context_ok (p_Context (SetDefaults h p))"
  by (simp add: context_ok_def)

lemma Validate_None_iff:
  "Validate p = None \<longleftrightarrow>
     p_Host p \<noteq> '''' \<and> p_Username p \<noteq> '''' \<and> p_Protocol p \<in> {''ftp'', ''ftps'', ''sftp''} \<and>
     0 \<le> p_FTPConnections p \<and> p_FTPConnections p \<le> MaxFTPConnections \<and>
     1 \<le> p_Port p \<and> p_Port p \<le> 65535 \<and>
     (if p_Protocol p = ''sftp'' then p_Password p \<noteq> '''' \<or> p_SSHKey p \<noteq> ''''
      else p_Password p \<noteq> '''')"
  by (auto simp: Validate_def)

lemma profile_ok_defaults:
  assumes "Validate (SetDefaults h p) = None"
  shows "profile_ok (SetDefaults h p)"
proof -
  have "p_Protocol (SetDefaults h p) \<noteq> ''sftp'' \<Longrightarrow> p_FTPConnections (SetDefaults h p) \<noteq> 0"
    "p_RemotePath (SetDefaults h p) \<noteq> ''''" "p_VerifyHostKey (SetDefaults h p) \<noteq> None"
    "p_AutoSyncDebounce (SetDefaults h p) \<noteq> 0"
    by (auto simp: DefaultFTPConnections_def)
  then show ?thesis
    using assms context_ok_SetDefaults [of h p]
    unfolding profile_ok_def Validate_None_iff
    by (simp del: SetDefaults_fields split: if_splits)
qed

lemma load_profiles_Cons:
  "load_profiles h ((n, p) # ps) = Inr (cfg, ws) \<Longrightarrow>
   \<exists>cfg' ws'. cfg = (n, SetDefaults h p) # cfg' \<and> Validate (SetDefaults h p) = None \<and>
     load_profiles h ps = Inr (cfg', ws')"
  by (auto simp: Let_def split: option.splits sum.splits)

lemma load_profiles_ok:
  "load_profiles h ps = Inr (cfg, ws) \<Longrightarrow>
   map fst cfg = map fst ps \<and> (\<forall>np \<in> set cfg. profile_ok (snd np))"
proof (induction ps arbitrary: cfg ws)
  case (Cons np ps)
  obtain n p where np: "np = (n, p)" by fastforce
  obtain cfg' ws' where "cfg = (n, SetDefaults h p) # cfg'" "Validate (SetDefaults h p) = None"
    "load_profiles h ps = Inr (cfg', ws')"
    using load_profiles_Cons Cons.prems np by blast
  then show ?case using Cons.IH [of cfg' ws'] profile_ok_defaults np by simp
qed simp

lemma load_profiles_origin:
  "load_profiles h ps = Inr (cfg, ws) \<Longrightarrow> (n, p) \<in> set cfg \<Longrightarrow>
   \<exists>q. (n, q) \<in> set ps \<and> p = SetDefaults h q"
proof (induction ps arbitrary: cfg ws)
  case (Cons np ps)
  obtain m q where np: "np = (m, q)" by fastforce
  obtain cfg' ws' where l: "cfg = (m, SetDefaults h q) # cfg'" "load_profiles h ps = Inr (cfg', ws')"
    using load_profiles_Cons Cons.prems(1) np by blast
  show ?case
  proof (cases "(n, p) \<in> set cfg'")
    case True
    then show ?thesis using Cons.IH [OF l(2)] by auto
  next
    case False
    then have "n = m \<and> p = SetDefaults h q" using Cons.prems(2) l(1) by simp
    then show ?thesis using np by auto
  qed
qed simp

lemma load_profiles_error:
  "load_profiles h ps = Inl e \<Longrightarrow>
   \<exists>n p v. (n, p) \<in> set ps \<and> Validate (SetDefaults h p) = Some v \<and> e = ErrProfile n v"
  by (induction h ps rule: load_profiles.induct)
     (auto simp: Let_def split: option.splits sum.splits prod.splits)

lemma load_profiles_total:
  "(\<forall>(n, p) \<in> set ps. Validate (SetDefaults h p) = None) \<Longrightarrow>
   \<exists>ws. load_profiles h ps = Inr (map (\<lambda>(n, p). (n, SetDefaults h p)) ps, ws)"
  by (induction h ps rule: load_profiles.induct) (auto simp: Let_def)

lemma Load_Inr:
  assumes "Load h st rd um = Inr (cfg, ws)"
  obtains path bytes profiles ws' where "GetConfigPath h = Inr path" "rd path = Inr bytes"
    "bytes \<noteq> ''''" "um bytes = Inr profiles" "load_profiles h profiles = Inr (cfg, ws')"
  using assms by (auto simp: Load_def split: sum.splits if_splits)

text \<open>Setting the defaults twice is setting them once.\<close>

lemma ExpandHome_idem:
  assumes "IsAbs home"
  shows "ExpandHome (Inr home) (ExpandHome (Inr home) p) = ExpandHome (Inr home) p"
proof (cases "p \<noteq> ''~'' \<and> \<not> HasPrefix p ''~/''")
  case True
  then show ?thesis by (auto simp: ExpandHome_def)
next
  case False
  have ne: "home \<noteq> ''''" using assms by (auto simp: IsAbs_def HasPrefix_def)
  then have "ExpandHome (Inr home) p = Clean (home @ ''/'' @ drop 1 p)"
    using False by (auto simp: ExpandHome_def path_Join_2)
  moreover have "IsAbs (Clean (home @ ''/'' @ drop 1 p))"
    using assms ne IsAbs_append by simp
  then have "Clean (home @ ''/'' @ drop 1 p) \<noteq> ''~''"
    "\<not> HasPrefix (Clean (home @ ''/'' @ drop 1 p)) ''~/''"
    by (auto simp: IsAbs_def HasPrefix_iff)
  ultimately show ?thesis by (simp add: ExpandHome_def)
qed

section \<open>Every profile of a loaded configuration is well formed\<close>

text \<open>C26: whatever the file holds, a profile that \<open>GetProfile\<close> hands out after a successful
  \<open>Load\<close> is well formed: a host, a user, one of the three protocols, a port of 16 bits, the
  credential its protocol needs, between one and sixteen connections for FTP, a remote path, a
  decided host key check, a debounce, and a clean context. It is the defaults applied to the
  entry of that name in the file, and no name is added or lost.\<close>

theorem Load_well_formed:
  assumes "Load homeDir os_Stat os_ReadFile unmarshal = Inr (cfg, ws)"
  shows "\<exists>path bytes profiles. GetConfigPath homeDir = Inr path \<and> os_ReadFile path = Inr bytes \<and>
    unmarshal bytes = Inr profiles \<and> map fst cfg = map fst profiles \<and>
    (\<forall>name p. GetProfile cfg name = Inr p \<longrightarrow> profile_ok p \<and>
       (\<exists>q. (name, q) \<in> set profiles \<and> p = SetDefaults homeDir q))"
proof -
  obtain path bytes profiles ws' where l: "GetConfigPath homeDir = Inr path"
    "os_ReadFile path = Inr bytes" "unmarshal bytes = Inr profiles"
    "load_profiles homeDir profiles = Inr (cfg, ws')"
    using Load_Inr [OF assms] by metis
  have "profile_ok p \<and> (\<exists>q. (name, q) \<in> set profiles \<and> p = SetDefaults homeDir q)"
    if "GetProfile cfg name = Inr p" for name p
  proof -
    have "(name, p) \<in> set cfg"
      using that by (auto simp: GetProfile_def split: option.splits dest: map_of_SomeD)
    then show ?thesis using load_profiles_ok [OF l(4)] load_profiles_origin [OF l(4)] by (metis snd_conv)
  qed
  then show ?thesis using l load_profiles_ok [OF l(4)] by blast
qed

text \<open>A configuration file with one profile, given as the map \<open>json.Unmarshal\<close> makes of it.\<close>

definition example_entry :: Profile where
  "example_entry = \<lparr>p_Host = ''example.org'', p_Username = ''web'', p_Password = ''s'',
     p_SSHKey = '''', p_Port = 0, p_Protocol = ''ftps'', p_RemotePath = '''',
     p_Context = ''~/site/'', p_AutoSync = False, p_AutoSyncDebounce = 0,
     p_AutoSyncDeletes = False, p_VerifyHostKey = None, p_FTPConnections = 0, p_TLSCACert = ''''\<rparr>"

definition example_load :: "config_err + (Config \<times> config_warning list)" where
  "example_load = Load (Inr ''/home/web'') (\<lambda>_. Inl (ErrorString ''permission denied''))
     (\<lambda>_. Inr ''file'') (\<lambda>_. Inr [(''live'', example_entry)])"

lemma example_load_run:
  "\<exists>cfg p. example_load = Inr (cfg, []) \<and> GetProfile cfg ''live'' = Inr p \<and>
     p_Port p = 21 \<and> p_FTPConnections p = 8 \<and> p_Context p = ''/home/web/site''"
proof -
  have "case example_load of Inr (cfg, []) \<Rightarrow>
      (case GetProfile cfg ''live'' of Inr p \<Rightarrow>
         p_Port p = 21 \<and> p_FTPConnections p = 8 \<and> p_Context p = ''/home/web/site'' | _ \<Rightarrow> False)
    | _ \<Rightarrow> False"
    by code_simp
  then show ?thesis by (auto split: sum.splits prod.splits list.splits)
qed

lemma Load_well_formed_witness:
  "\<exists>cfg p. example_load = Inr (cfg, []) \<and> GetProfile cfg ''live'' = Inr p \<and> profile_ok p \<and>
     p = SetDefaults (Inr ''/home/web'') example_entry"
proof -
  obtain cfg p where l: "example_load = Inr (cfg, [])" "GetProfile cfg ''live'' = Inr p"
    using example_load_run by (elim exE conjE)
  obtain path bytes profiles where u: "(Inr [(''live'', example_entry)] :: (string \<times> Profile) list res) = Inr profiles"
    and p: "\<forall>name p. GetProfile cfg name = Inr p \<longrightarrow> profile_ok p \<and>
      (\<exists>q. (name, q) \<in> set profiles \<and> p = SetDefaults (Inr ''/home/web'') q)"
    using Load_well_formed [OF l(1) [unfolded example_load_def]] by (elim exE conjE)
  obtain q where "profile_ok p" "(''live'', q) \<in> set profiles" "p = SetDefaults (Inr ''/home/web'') q"
    using p [rule_format, OF l(2)] by (elim exE conjE)
  moreover from this(2) u have "q = example_entry" by (auto dest: sym)
  ultimately show ?thesis using l by blast
qed

end
