(* ===== verification/Mirror_Execute.thy ===== *)
theory Mirror_Execute
  imports Mirror_WalkLocal Transfer_Workers Config
begin

text \<open>
  The executing half of internal/transfer/mirror.go: \<open>doUpload\<close>, \<open>executeUp\<close>,
  \<open>executeDown\<close>. The pool of workers is an argument \<open>rt\<close>, of which only the contract
  \<open>transfer_runner\<close> is used, so the results hold for the serial worker of FTP and for
  every scheduling of the workers of SFTP.
\<close>

text \<open>
  The local side: what a walk sees at a path, \<open>os.Stat\<close> and reading of a file (for
  \<open>.syncignore\<close>), and the calls of package \<open>os\<close> that change the tree.
\<close>

record 'w LocalFS =
  fs_Tree :: "string \<Rightarrow> 'w \<Rightarrow> dnode res"
  fs_Stat :: "string \<Rightarrow> 'w \<Rightarrow> unit res"
  fs_ReadFile :: "string \<Rightarrow> 'w \<Rightarrow> string res"
  fs_MkdirAll :: "string \<Rightarrow> 'w \<Rightarrow> goerr option \<times> 'w"
  fs_Remove :: "string \<Rightarrow> 'w \<Rightarrow> goerr option \<times> 'w"

section \<open>Results\<close>

definition add_warning :: "string \<Rightarrow> MirrorResult \<Rightarrow> MirrorResult" where
  "add_warning m r = r\<lparr>Warnings := Warnings r @ [m]\<rparr>"

definition add_error :: "string \<Rightarrow> MirrorResult \<Rightarrow> MirrorResult" where
  "add_error m r = r\<lparr>Errors := Errors r @ [m]\<rparr>"

definition conflict_warning :: "MirrorEntry \<Rightarrow> string" where
  "conflict_warning a = ''skipped '' @ RelPath a @
     '': file on one side, directory on the other '' @
     [CHR 0xE2, CHR 0x80, CHR 0x94] @ '' resolve manually''"

text \<open>The four \<open>onResult\<close> callbacks of \<open>executeUp\<close> and the one of \<open>executeDown\<close>.\<close>

type_synonym on_result = "MirrorEntry \<times> goerr option \<Rightarrow> MirrorResult \<Rightarrow> MirrorResult"

definition mkdir_result :: on_result where
  "mkdir_result = (\<lambda>(a, err) r.
     (if err \<noteq> None then add_warning (''mkdir '' @ RelPath a @ '': '' @ translateError err) r
      else r\<lparr>Created := Created r + 1\<rparr>))"

definition upload_result :: on_result where
  "upload_result = (\<lambda>(a, err) r.
     (if err \<noteq> None then add_error (''upload '' @ RelPath a @ '': '' @ translateError err) r
      else r\<lparr>Uploaded := Uploaded r + 1\<rparr>))"

definition delete_result :: on_result where
  "delete_result = (\<lambda>(a, err) r.
     (if err \<noteq> None then add_warning (''delete '' @ RelPath a @ '': '' @ translateError err) r
      else r\<lparr>Deleted := Deleted r + 1\<rparr>))"

definition rmdir_result :: on_result where
  "rmdir_result = (\<lambda>(a, err) r.
     (if err \<noteq> None then add_warning (''rmdir '' @ RelPath a @ '': '' @ translateError err) r
      else r\<lparr>Deleted := Deleted r + 1\<rparr>))"

definition download_result :: on_result where
  "download_result = (\<lambda>(a, err) r.
     (if err \<noteq> None then add_error (''download '' @ RelPath a @ '': '' @ translateError err) r
      else r\<lparr>Downloaded := Downloaded r + 1\<rparr>))"

section \<open>executeUp\<close>

definition doUpload ::
  "'w RemoteClient \<Rightarrow> string \<Rightarrow> string \<Rightarrow> MirrorEntry \<Rightarrow> 'w \<Rightarrow> goerr option \<times> 'w" where
  "doUpload client localPath remotePath action w =
    (if (case LocalInfo action of None \<Rightarrow> False | Some i \<Rightarrow> fi_Size i \<ge> ResumeThreshold)
     then rc_UploadResume client localPath remotePath w
     else rc_Upload client localPath remotePath w)"

definition jobsFor ::
  "MirrorEntry list \<Rightarrow> (MirrorEntry \<Rightarrow> 'w \<Rightarrow> goerr option \<times> 'w) \<Rightarrow> 'w job list" where
  "jobsFor entries fn = map (\<lambda>a. (a, fn a)) entries"

text \<open>\<open>runTransfers\<close> with its callback: the results in the order the workers report them.\<close>

definition run_phase :: "'w runner \<Rightarrow> 'w job list \<Rightarrow> on_result \<Rightarrow>
    MirrorResult \<times> 'w \<Rightarrow> MirrorResult \<times> 'w" where
  "run_phase rt jobs onResult s =
    (case rt jobs (snd s) of (rs, w) \<Rightarrow> (foldl (\<lambda>r x. onResult x r) (fst s) rs, w))"

definition run_levels :: "'w runner \<Rightarrow> (MirrorEntry \<Rightarrow> 'w \<Rightarrow> goerr option \<times> 'w) \<Rightarrow> on_result \<Rightarrow>
    MirrorEntry list list \<Rightarrow> MirrorResult \<times> 'w \<Rightarrow> MirrorResult \<times> 'w" where
  "run_levels rt fn onResult levels s =
     foldl (\<lambda>s level. run_phase rt (jobsFor level fn) onResult s) s levels"

definition up_mkdir :: "'w RemoteClient \<Rightarrow> Profile \<Rightarrow> MirrorEntry \<Rightarrow> 'w \<Rightarrow> goerr option \<times> 'w" where
  "up_mkdir client profile a w =
    (let remote = RemotePath [p_RemotePath profile, RelPath a] in
     case rc_Mkdir client remote w of
       (Some _, w) \<Rightarrow> rc_MkdirAll client remote w
     | (None, w) \<Rightarrow> (None, w))"

definition up_upload :: "'w RemoteClient \<Rightarrow> Profile \<Rightarrow> MirrorEntry \<Rightarrow> 'w \<Rightarrow> goerr option \<times> 'w" where
  "up_upload client profile a w =
     doUpload client (path_Join [p_Context profile, RelPath a])
       (RemotePath [p_RemotePath profile, RelPath a]) a w"

definition up_delete :: "'w RemoteClient \<Rightarrow> Profile \<Rightarrow> MirrorEntry \<Rightarrow> 'w \<Rightarrow> goerr option \<times> 'w" where
  "up_delete client profile a w =
    (case rc_Remove client (RemotePath [p_RemotePath profile, RelPath a]) w of
       (err, w) \<Rightarrow> if err \<noteq> None \<and> \<not> IsNotExist err then (err, w) else (None, w))"

definition up_rmdir :: "'w RemoteClient \<Rightarrow> Profile \<Rightarrow> MirrorEntry \<Rightarrow> 'w \<Rightarrow> goerr option \<times> 'w" where
  "up_rmdir client profile a w = rc_RemoveDir client (RemotePath [p_RemotePath profile, RelPath a]) w"

definition warn_conflicts :: "MirrorEntry list \<Rightarrow> MirrorResult \<Rightarrow> MirrorResult" where
  "warn_conflicts actions r =
     foldl (\<lambda>r a. add_warning (conflict_warning a) r) r (of_kind {ActionConflict} actions)"

definition executeUp :: "'w RemoteClient \<Rightarrow> 'w runner \<Rightarrow> Profile \<Rightarrow> MirrorEntry list \<Rightarrow>
    MirrorResult \<Rightarrow> 'w \<Rightarrow> MirrorResult \<times> 'w" where
  "executeUp client rt profile actions result w =
    (let mkdirs = of_kind {ActionMkdir} actions;
         uploads = of_kind {ActionUpload} actions;
         deletes = of_kind {ActionDelete} actions;
         deleteDirs = of_kind {ActionDeleteDir} actions;
         s = (warn_conflicts actions result, w);
         s = run_levels rt (up_mkdir client profile) mkdir_result (depthLevels mkdirs) s;
         s = run_phase rt (jobsFor uploads (up_upload client profile)) upload_result s;
         s = run_phase rt (jobsFor deletes (up_delete client profile)) delete_result s
     in run_levels rt (up_rmdir client profile) rmdir_result (depthLevels deleteDirs) s)"

section \<open>executeDown\<close>

text \<open>The loop over the actions, all local operations but the downloads.\<close>

definition down_local_step :: "'w LocalFS \<Rightarrow> Profile \<Rightarrow> MirrorEntry \<Rightarrow>
    MirrorResult \<times> 'w \<Rightarrow> MirrorResult \<times> 'w" where
  "down_local_step fs profile a s =
    (let (r, w) = s; path = path_Join [p_Context profile, RelPath a] in
     case Action a of
       ActionMkdir \<Rightarrow>
         (case fs_MkdirAll fs path w of
            (Some e, w) \<Rightarrow> (add_warning (''mkdir '' @ RelPath a @ '': '' @ error_msg e) r, w)
          | (None, w) \<Rightarrow> (r\<lparr>Created := Created r + 1\<rparr>, w))
     | ActionDelete \<Rightarrow>
         (case fs_Remove fs path w of
            (Some e, w) \<Rightarrow> (add_warning (''delete '' @ RelPath a @ '': '' @ error_msg e) r, w)
          | (None, w) \<Rightarrow> (r\<lparr>Deleted := Deleted r + 1\<rparr>, w))
     | ActionDeleteDir \<Rightarrow>
         (case fs_Remove fs path w of
            (Some e, w) \<Rightarrow> (add_warning (''rmdir '' @ RelPath a @ '': '' @ error_msg e) r, w)
          | (None, w) \<Rightarrow> (r\<lparr>Deleted := Deleted r + 1\<rparr>, w))
     | ActionConflict \<Rightarrow> (add_warning (conflict_warning a) r, w)
     | _ \<Rightarrow> (r, w))"

definition down_download :: "'w RemoteClient \<Rightarrow> Profile \<Rightarrow> MirrorEntry \<Rightarrow> 'w \<Rightarrow> goerr option \<times> 'w" where
  "down_download client profile a w =
    (let rPath = RemotePath [p_RemotePath profile, RelPath a];
         localPath = path_Join [p_Context profile, RelPath a]
     in case (rc_DownloadKnown client, RemoteInfo a) of
          (Some dk, Some i) \<Rightarrow> dk rPath localPath (ri_Size i) (ri_ModTime i) w
        | _ \<Rightarrow> rc_Download client rPath localPath w)"

definition executeDown :: "'w RemoteClient \<Rightarrow> 'w LocalFS \<Rightarrow> 'w runner \<Rightarrow> Profile \<Rightarrow>
    MirrorEntry list \<Rightarrow> MirrorResult \<Rightarrow> 'w \<Rightarrow> MirrorResult \<times> 'w" where
  "executeDown client fs rt profile actions result w =
    (let s = foldl (\<lambda>s a. down_local_step fs profile a s) (result, w) actions;
         transferActions = of_kind {ActionDownload} actions
     in run_phase rt (jobsFor transferActions (down_download client profile)) download_result s)"

section \<open>Every action is accounted for\<close>

text \<open>Transfers that are counted or reported as errors; the rest, counted or warned about.\<close>

definition transfers_of :: "MirrorResult \<Rightarrow> int" where
  "transfers_of r = Uploaded r + Downloaded r + int (length (Errors r))"

definition others_of :: "MirrorResult \<Rightarrow> int" where
  "others_of r = Created r + Deleted r + int (length (Warnings r))"

definition tally :: "MirrorResult \<Rightarrow> int \<times> int" where
  "tally r = (transfers_of r, others_of r)"

lemmas result_defs = mkdir_result_def upload_result_def delete_result_def rmdir_result_def
  download_result_def add_warning_def add_error_def tally_def transfers_of_def others_of_def

lemma tally_results:
  "tally (mkdir_result x r) = (transfers_of r, others_of r + 1)"
  "tally (delete_result x r) = (transfers_of r, others_of r + 1)"
  "tally (rmdir_result x r) = (transfers_of r, others_of r + 1)"
  "tally (upload_result x r) = (transfers_of r + 1, others_of r)"
  "tally (download_result x r) = (transfers_of r + 1, others_of r)"
  by (cases x; simp add: result_defs)+

lemma tally_foldl:
  assumes "\<And>x r. tally (f x r) = (transfers_of r + a, others_of r + b)"
  shows "tally (foldl (\<lambda>r x. f x r) r rs) =
    (transfers_of r + int (length rs) * a, others_of r + int (length rs) * b)"
  by (induction rs arbitrary: r) (use assms in \<open>simp_all add: tally_def algebra_simps\<close>)

lemma tally_warn_conflicts:
  "tally (warn_conflicts es r) =
   (transfers_of r, others_of r + int (length (of_kind {ActionConflict} es)))"
  unfolding warn_conflicts_def
  using tally_foldl [of "\<lambda>a r. add_warning (conflict_warning a) r" 0 1]
  by (simp add: result_defs)

lemma length_concat_levels: "sum_list (map length (depthLevels es)) = length es"
  using concat_depthLevels [of es] by (metis length_concat)

context transfer_runner
begin

lemma tally_run_phase:
  assumes "\<And>x r. tally (f x r) = (transfers_of r + a, others_of r + b)"
    and "tally (fst s) = (t, u)"
  shows "tally (fst (run_phase rt jobs f s)) =
    (t + int (length jobs) * a, u + int (length jobs) * b)"
proof -
  have "length (fst (rt jobs (snd s))) = length jobs" by (rule length_results)
  then show ?thesis
    using tally_foldl [of f a b "fst s" "fst (rt jobs (snd s))", OF assms(1)] assms(2)
    by (simp add: run_phase_def case_prod_beta tally_def)
qed

lemma tally_run_levels:
  assumes "\<And>x r. tally (f x r) = (transfers_of r + a, others_of r + b)"
  shows "tally (fst s) = (t, u) \<Longrightarrow> tally (fst (run_levels rt fn f levels s)) =
    (t + int (sum_list (map length levels)) * a, u + int (sum_list (map length levels)) * b)"
proof (induction levels arbitrary: s t u)
  case (Cons l ls)
  show ?case
    using Cons.IH [OF tally_run_phase [OF assms Cons.prems, of "jobsFor l fn"]]
    by (simp add: run_levels_def jobsFor_def algebra_simps)
qed (simp add: run_levels_def)

lemma tally_executeUp:
  "tally (fst (executeUp client rt profile actions r w)) =
    (transfers_of r + int (length (of_kind {ActionUpload} actions)),
     others_of r + int (length (of_kind {ActionMkdir, ActionDelete, ActionDeleteDir, ActionConflict} actions)))"
proof -
  let ?n = "\<lambda>k. int (length (of_kind {k} actions))"
  have split: "int (length (of_kind {ActionMkdir, ActionDelete, ActionDeleteDir, ActionConflict} actions)) =
      ?n ActionConflict + ?n ActionMkdir + ?n ActionDelete + ?n ActionDeleteDir"
    by (induction actions) (auto simp: of_kind_def)
  have c: "tally (fst (warn_conflicts actions r, w)) = (transfers_of r, others_of r + ?n ActionConflict)"
    by (simp add: tally_warn_conflicts)
  have m: "tally (mkdir_result x r) = (transfers_of r + 0, others_of r + 1)"
    and u: "tally (upload_result x r) = (transfers_of r + 1, others_of r + 0)"
    and d: "tally (delete_result x r) = (transfers_of r + 0, others_of r + 1)"
    and rm: "tally (rmdir_result x r) = (transfers_of r + 0, others_of r + 1)" for x r
    by (simp_all add: tally_results)
  let ?jobs = "\<lambda>k fn. jobsFor (of_kind {k} actions) fn"
  note 1 = tally_run_levels [OF m c, where fn = "up_mkdir client profile"
      and levels = "depthLevels (of_kind {ActionMkdir} actions)"]
  note 2 = tally_run_phase [OF u 1, where jobs = "?jobs ActionUpload (up_upload client profile)"]
  note 3 = tally_run_phase [OF d 2, where jobs = "?jobs ActionDelete (up_delete client profile)"]
  note 4 = tally_run_levels [OF rm 3, where fn = "up_rmdir client profile"
      and levels = "depthLevels (of_kind {ActionDeleteDir} actions)"]
  show ?thesis
    unfolding executeUp_def Let_def 4 by (simp add: jobsFor_def length_concat_levels split)
qed

lemma tally_executeDown:
  "tally (fst (executeDown client fs rt profile actions r w)) =
    (transfers_of r + int (length (of_kind {ActionDownload} actions)),
     others_of r + int (length (of_kind {ActionMkdir, ActionDelete, ActionDeleteDir, ActionConflict} actions)))"
proof -
  have one: "tally (fst (down_local_step fs profile a s)) =
      (transfers_of (fst s),
       others_of (fst s) + int (length (of_kind {ActionMkdir, ActionDelete, ActionDeleteDir, ActionConflict} [a])))"
    for a s
    by (cases "Action a") (auto simp: down_local_step_def Let_def case_prod_beta result_defs of_kind_def
        split: option.splits prod.splits)
  have loop: "tally (fst (foldl (\<lambda>s a. down_local_step fs profile a s) s actions)) =
      (transfers_of (fst s),
       others_of (fst s) + int (length (of_kind {ActionMkdir, ActionDelete, ActionDeleteDir, ActionConflict} actions)))"
    for s
  proof (induction actions arbitrary: s)
    case (Cons a actions)
    show ?case
      using Cons.IH [of "down_local_step fs profile a s"] one [of a s]
      by (auto simp: tally_def of_kind_def)
  qed (simp add: tally_def of_kind_def)
  have d: "tally (download_result x r) = (transfers_of r + 1, others_of r + 0)" for x r
    by (simp add: tally_results)
  show ?thesis
    unfolding executeDown_def Let_def
    using tally_run_phase [OF d loop [of "(r, w)"], where jobs =
        "jobsFor (of_kind {ActionDownload} actions) (down_download client profile)"]
    by (simp add: jobsFor_def)
qed

end

section \<open>What the execution touches\<close>

text \<open>What no callback changes stays as it is.\<close>

lemma run_phase_frame:
  assumes "\<And>x r. g (f x r) = g r"
  shows "g (fst (run_phase rt jobs f s)) = g (fst s)"
proof -
  have "g (foldl (\<lambda>r x. f x r) r rs) = g r" for r rs
    by (induction rs arbitrary: r) (simp_all add: assms)
  then show ?thesis by (simp add: run_phase_def case_prod_beta)
qed

lemma run_levels_frame:
  assumes "\<And>x r. g (f x r) = g r"
  shows "g (fst (run_levels rt fn f levels s)) = g (fst s)"
  by (induction levels arbitrary: s) (simp_all add: run_levels_def run_phase_frame [of g f, OF assms])

lemma warn_conflicts_frame:
  "Downloaded (warn_conflicts es r) = Downloaded r" "Uploaded (warn_conflicts es r) = Uploaded r"
  "Skipped (warn_conflicts es r) = Skipped r"
proof -
  have "Downloaded (foldl (\<lambda>r a. add_warning (conflict_warning a) r) r xs) = Downloaded r \<and>
      Uploaded (foldl (\<lambda>r a. add_warning (conflict_warning a) r) r xs) = Uploaded r \<and>
      Skipped (foldl (\<lambda>r a. add_warning (conflict_warning a) r) r xs) = Skipped r" for xs
    by (induction xs arbitrary: r) (simp_all add: add_warning_def)
  then show "Downloaded (warn_conflicts es r) = Downloaded r" "Uploaded (warn_conflicts es r) = Uploaded r"
    "Skipped (warn_conflicts es r) = Skipped r"
    by (simp_all add: warn_conflicts_def)
qed

lemma callback_frame:
  "Downloaded (mkdir_result x r) = Downloaded r" "Downloaded (upload_result x r) = Downloaded r"
  "Downloaded (delete_result x r) = Downloaded r" "Downloaded (rmdir_result x r) = Downloaded r"
  "Uploaded (download_result x r) = Uploaded r" "Skipped (download_result x r) = Skipped r"
  "Skipped (mkdir_result x r) = Skipped r" "Skipped (upload_result x r) = Skipped r"
  "Skipped (delete_result x r) = Skipped r" "Skipped (rmdir_result x r) = Skipped r"
  by (simp_all add: result_defs case_prod_beta)

lemma executeUp_frame:
  "Downloaded (fst (executeUp client rt profile actions r w)) = Downloaded r"
  "Skipped (fst (executeUp client rt profile actions r w)) = Skipped r"
  unfolding executeUp_def Let_def
  by (simp_all add: run_levels_frame [where g = Downloaded] run_phase_frame [where g = Downloaded]
      run_levels_frame [where g = Skipped] run_phase_frame [where g = Skipped]
      callback_frame warn_conflicts_frame)

lemma executeDown_frame:
  "Uploaded (fst (executeDown client fs rt profile actions r w)) = Uploaded r"
  "Skipped (fst (executeDown client fs rt profile actions r w)) = Skipped r"
proof -
  have "Uploaded (fst (down_local_step fs profile a s)) = Uploaded (fst s) \<and>
      Skipped (fst (down_local_step fs profile a s)) = Skipped (fst s)" for a s
    by (cases "Action a") (auto simp: down_local_step_def Let_def case_prod_beta add_warning_def
        split: option.splits prod.splits)
  then have "Uploaded (fst (foldl (\<lambda>s a. down_local_step fs profile a s) s actions)) = Uploaded (fst s) \<and>
      Skipped (fst (foldl (\<lambda>s a. down_local_step fs profile a s) s actions)) = Skipped (fst s)" for s
    by (induction actions arbitrary: s) simp_all
  then show "Uploaded (fst (executeDown client fs rt profile actions r w)) = Uploaded r"
    "Skipped (fst (executeDown client fs rt profile actions r w)) = Skipped r"
    unfolding executeDown_def Let_def
    by (simp_all add: run_phase_frame [where g = Uploaded] run_phase_frame [where g = Skipped]
        callback_frame)
qed

text \<open>A runner changes the world only by its jobs and by the client's session calls.\<close>

definition session_keeps :: "('w \<Rightarrow> bool) \<Rightarrow> 'w RemoteClient \<Rightarrow> bool" where
  "session_keeps I client \<longleftrightarrow>
     keeps I (rc_IsAlive client) \<and> keeps I (rc_Close client) \<and> keeps I (rc_Connect client)"

locale client_runner = transfer_runner rt for rt :: "'w runner" +
  fixes client :: "'w RemoteClient"
  assumes runs_only: "\<lbrakk>\<And>a run. (a, run) \<in> set jobs \<Longrightarrow> keeps I run; session_keeps I client; I w\<rbrakk>
    \<Longrightarrow> I (snd (rt jobs w))"

lemma run_one_keeps: "keeps I run \<Longrightarrow> session_keeps I client \<Longrightarrow> I w \<Longrightarrow> I (snd (run_one client run w))"
  unfolding run_one_def session_keeps_def
  by (auto split: prod.splits option.splits bool.splits dest: keeps_case)
     (metis keepsD keeps_case snd_conv)+

lemma runTransfers_keeps:
  "\<lbrakk>\<And>a run. (a, run) \<in> set jobs \<Longrightarrow> keeps I run; session_keeps I client; I w\<rbrakk> \<Longrightarrow>
   I (snd (runTransfers client jobs w))"
proof (induction client jobs w rule: runTransfers.induct)
  case (2 client a run jobs w)
  obtain err w1 where one: "run_one client run w = (err, w1)" by fastforce
  have "I w1" using run_one_keeps [of I run client w] 2(2-4) one by auto
  then have "I (snd (runTransfers client jobs w1))" using 2 one by auto
  then show ?case using one by (simp add: case_prod_beta)
qed simp

interpretation seq_client: client_runner "runTransfers client" client
  by unfold_locales (rule runTransfers_keeps)

definition remote_target :: "Profile \<Rightarrow> MirrorEntry \<Rightarrow> string" where
  "remote_target profile a = RemotePath [p_RemotePath profile, RelPath a]"

definition local_target :: "Profile \<Rightarrow> MirrorEntry \<Rightarrow> string" where
  "local_target profile a = path_Join [p_Context profile, RelPath a]"

text \<open>All a mirror-up may do to the server for an entry, a mirror-down to the local disk.\<close>

definition up_keeps :: "('w \<Rightarrow> bool) \<Rightarrow> 'w RemoteClient \<Rightarrow> string \<Rightarrow> string \<Rightarrow> bool" where
  "up_keeps I client loc rem \<longleftrightarrow>
     keeps I (rc_Mkdir client rem) \<and> keeps I (rc_MkdirAll client rem) \<and>
     keeps I (rc_Upload client loc rem) \<and> keeps I (rc_UploadResume client loc rem) \<and>
     keeps I (rc_Remove client rem) \<and> keeps I (rc_RemoveDir client rem)"

definition down_keeps :: "('w \<Rightarrow> bool) \<Rightarrow> 'w RemoteClient \<Rightarrow> 'w LocalFS \<Rightarrow> string \<Rightarrow> bool" where
  "down_keeps I client fs loc \<longleftrightarrow>
     keeps I (fs_MkdirAll fs loc) \<and> keeps I (fs_Remove fs loc) \<and>
     (\<forall>rem. keeps I (rc_Download client rem loc)) \<and>
     (\<forall>dk rem size mtime. rc_DownloadKnown client = Some dk \<longrightarrow> keeps I (dk rem loc size mtime))"

lemma up_jobs_keep:
  assumes "up_keeps I client (local_target profile a) (remote_target profile a)"
  shows "keeps I (up_mkdir client profile a)" "keeps I (up_upload client profile a)"
    "keeps I (up_delete client profile a)" "keeps I (up_rmdir client profile a)"
  using assms
  unfolding up_keeps_def local_target_def remote_target_def up_mkdir_def up_upload_def
    up_delete_def up_rmdir_def doUpload_def keeps_def Let_def
  by (simp_all split: prod.splits option.splits) (metis snd_conv)+

lemma down_download_keeps:
  assumes "down_keeps I client fs (local_target profile a)"
  shows "keeps I (down_download client profile a)"
  using assms
  unfolding down_keeps_def local_target_def down_download_def keeps_def Let_def
  by (simp split: option.splits)

context client_runner
begin

lemma run_phase_keeps:
  assumes "\<And>a. a \<in> set es \<Longrightarrow> keeps I (fn a)" "session_keeps I client" "I (snd s)"
  shows "I (snd (run_phase rt (jobsFor es fn) f s))"
  using runs_only [of "jobsFor es fn" I "snd s"] assms
  by (auto simp: run_phase_def jobsFor_def case_prod_beta)

lemma run_levels_keeps:
  assumes "\<And>a. a \<in> (\<Union>l \<in> set levels. set l) \<Longrightarrow> keeps I (fn a)" "session_keeps I client"
  shows "I (snd s) \<Longrightarrow> I (snd (run_levels rt fn f levels s))"
  using assms(1)
proof (induction levels arbitrary: s)
  case (Cons l ls)
  have "I (snd (run_phase rt (jobsFor l fn) f s))"
    using run_phase_keeps [of l I fn s f] Cons.prems assms(2) by auto
  then show ?case using Cons by (simp add: run_levels_def)
qed (simp add: run_levels_def)

lemma executeUp_keeps:
  assumes "\<And>a. a \<in> set actions \<Longrightarrow> up_keeps I client (local_target profile a) (remote_target profile a)"
    and "session_keeps I client" "I w"
  shows "I (snd (executeUp client rt profile actions r w))"
proof -
  note jobs = up_jobs_keep [OF assms(1)]
  have sub: "a \<in> set actions" if "a \<in> set (of_kind ks actions)" for a ks
    using that by (simp add: set_of_kind)
  have lev: "a \<in> set actions" if "a \<in> (\<Union>l \<in> set (depthLevels (of_kind ks actions)). set l)" for a ks
    using that sub by (simp only: set_depthLevels)
  note levels = run_levels_keeps [OF jobs(1) [OF lev] assms(2)] run_levels_keeps [OF jobs(4) [OF lev] assms(2)]
  note phases = run_phase_keeps [OF jobs(2) [OF sub] assms(2)] run_phase_keeps [OF jobs(3) [OF sub] assms(2)]
  have "I (snd (warn_conflicts actions r, w))" using assms(3) by simp
  then show ?thesis
    unfolding executeUp_def Let_def
    by (rule levels(2) [OF _ phases(2) [OF _ phases(1) [OF _ levels(1)]], rotated -1]) assumption+
qed

lemma executeDown_keeps:
  assumes "\<And>a. a \<in> set actions \<Longrightarrow> down_keeps I client fs (local_target profile a)"
    and "session_keeps I client" "I w"
  shows "I (snd (executeDown client fs rt profile actions r w))"
proof -
  have one: "I (snd (down_local_step fs profile a s))" if "a \<in> set actions" "I (snd s)" for a s
    using that assms(1) [OF that(1)]
    unfolding down_keeps_def local_target_def down_local_step_def Let_def
    by (auto simp: case_prod_beta dest: keepsD keeps_case
        split: MirrorAction.splits option.splits prod.splits)
  have loop: "set es \<subseteq> set actions \<Longrightarrow> I (snd s) \<Longrightarrow>
      I (snd (foldl (\<lambda>s a. down_local_step fs profile a s) s es))" for es s
  proof (induction es arbitrary: s)
    case (Cons a es)
    have "I (snd (down_local_step fs profile a s))" using one Cons.prems by simp
    then show ?case using Cons by simp
  qed simp
  show ?thesis
    unfolding executeDown_def Let_def
  proof (rule run_phase_keeps [OF down_download_keeps [OF assms(1)] assms(2)])
    show "a \<in> set (of_kind {ActionDownload} actions) \<Longrightarrow> a \<in> set actions" for a
      by (simp add: set_of_kind)
    show "I (snd (foldl (\<lambda>s a. down_local_step fs profile a s) (r, w) actions))"
      using loop [OF order_refl, of "(r, w)"] assms(3) by simp
  qed
qed

end

end
