(* ===== verification/Mirror_WalkRemote.thy ===== *)
theory Mirror_WalkRemote
  imports Mirror_WalkLocal
begin

text \<open>
  The remote scan of internal/transfer/mirror.go: \<open>walkRemote\<close> over the client's
  \<open>ReadDir\<close>, serial (FTP) and concurrent (SFTP).
\<close>

section \<open>walkRemote\<close>

text \<open>
  The loop over the items of one directory, which runs under the mutex: the entries it
  adds to the shared map and the subdirectories, a directory and its path below the root.
\<close>

definition item_rel :: "string \<Rightarrow> RemoteFileInfo \<Rightarrow> string" where
  "item_rel relDir item = (if relDir \<noteq> '''' then relDir @ ''/'' @ ri_Name item else ri_Name item)"

type_synonym subdir = "string \<times> string"

fun walk_items :: "matcher \<Rightarrow> string list \<Rightarrow> subdir \<Rightarrow> RemoteFileInfo list \<Rightarrow>
    remote_tree \<Rightarrow> subdir list \<Rightarrow> remote_tree \<times> subdir list" where
  "walk_items dm ps d [] entries subdirs = (entries, subdirs)"
| "walk_items dm ps d (item # items) entries subdirs =
    (if \<not> ri_IsDir item \<and> IsPartialName (ri_Name item) then
       walk_items dm ps d items entries subdirs
     else
       let relPath = item_rel (snd d) item in
       if ShouldIgnore dm relPath ps then walk_items dm ps d items entries subdirs
       else
         walk_items dm ps d items
           (AList.update relPath (item\<lparr>ri_Path := relPath\<rparr>) entries)
           (if ri_IsDir item then subdirs @ [(fst d @ ''/'' @ ri_Name item, relPath)]
            else subdirs))"

text \<open>
  The concurrent walk. A goroutine waits for the semaphore (\<open>wk_wait\<close>), then lists its
  directory and waits for the mutex with the result in hand (\<open>wk_listed\<close>, it holds the
  semaphore until it returns), then merges the result and starts a goroutine for each
  subdirectory. A choice says which goroutine takes its next step.
\<close>

record 'w walk_state =
  wk_wait :: "subdir list"
  wk_listed :: "(subdir \<times> RemoteFileInfo list res) list"
  wk_entries :: remote_tree
  wk_world :: 'w

datatype walk_choice = WList nat | WMerge nat

definition drop_nth :: "nat \<Rightarrow> 'a list \<Rightarrow> 'a list" where
  "drop_nth i xs = take i xs @ drop (Suc i) xs"

definition merge_dir :: "matcher \<Rightarrow> string list \<Rightarrow> subdir \<times> RemoteFileInfo list res \<Rightarrow>
    remote_tree \<Rightarrow> remote_tree \<times> subdir list" where
  "merge_dir dm ps r entries =
    (case snd r of Inl e \<Rightarrow> (entries, []) | Inr items \<Rightarrow> walk_items dm ps (fst r) items entries [])"

fun walk_next :: "'w RemoteClient \<Rightarrow> matcher \<Rightarrow> string list \<Rightarrow> walk_choice \<Rightarrow>
    'w walk_state \<Rightarrow> 'w walk_state option" where
  "walk_next client dm ps (WList i) st =
    (if i < length (wk_wait st) \<and> length (wk_listed st) < MaxConcurrentReadDir then
       (let d = wk_wait st ! i; (r, w) = rc_ReadDir client (fst d) (wk_world st)
        in Some (st\<lparr>wk_wait := drop_nth i (wk_wait st), wk_listed := wk_listed st @ [(d, r)],
                    wk_world := w\<rparr>))
     else None)"
| "walk_next client dm ps (WMerge i) st =
    (if i < length (wk_listed st) then
       (let (entries, subdirs) = merge_dir dm ps (wk_listed st ! i) (wk_entries st)
        in Some (st\<lparr>wk_wait := wk_wait st @ subdirs, wk_listed := drop_nth i (wk_listed st),
                    wk_entries := entries\<rparr>))
     else None)"

definition walk_init :: "string \<Rightarrow> 'w \<Rightarrow> 'w walk_state" where
  "walk_init remoteRoot w =
     \<lparr>wk_wait = [(remoteRoot, '''')], wk_listed = [], wk_entries = [], wk_world = w\<rparr>"

definition walk_done :: "'w walk_state \<Rightarrow> bool" where
  "walk_done st \<longleftrightarrow> wk_wait st = [] \<and> wk_listed st = []"

fun walk_run :: "'w RemoteClient \<Rightarrow> matcher \<Rightarrow> string list \<Rightarrow> walk_choice list \<Rightarrow>
    'w walk_state \<Rightarrow> 'w walk_state option" where
  "walk_run client dm ps [] st = Some st"
| "walk_run client dm ps (c # cs) st =
    (case walk_next client dm ps c st of None \<Rightarrow> None | Some st' \<Rightarrow> walk_run client dm ps cs st')"

text \<open>
  The serial walk: the recursive calls in the order the code makes them, those still to
  be made on a stack. It need not end, so not returning is \<open>None\<close>.
\<close>

partial_function (option) walk_serial :: "'w RemoteClient \<Rightarrow> matcher \<Rightarrow> string list \<Rightarrow>
    subdir list \<Rightarrow> remote_tree \<Rightarrow> 'w \<Rightarrow> (remote_tree \<times> 'w) option" where
  "walk_serial client dm ps stack entries w =
    (case stack of
       [] \<Rightarrow> Some (entries, w)
     | d # rest \<Rightarrow>
         (case rc_ReadDir client (fst d) w of (r, w') \<Rightarrow>
           (case merge_dir dm ps (d, r) entries of (entries', subdirs) \<Rightarrow>
             walk_serial client dm ps (subdirs @ rest) entries' w')))"

declare walk_serial.simps [code]

text \<open>
  \<open>walkRemote\<close>; \<open>sched\<close> is the order in which the goroutines took their steps. Its error
  is always nil: a directory that cannot be listed only prints a warning.
\<close>

definition walkRemote :: "'w RemoteClient \<Rightarrow> matcher \<Rightarrow> walk_choice list \<Rightarrow> string \<Rightarrow>
    string list \<Rightarrow> 'w \<Rightarrow> ((remote_tree \<times> goerr option) \<times> 'w) option" where
  "walkRemote client dm sched remoteRoot ps w =
    (if supportsConcurrentRequests client then
       (case walk_run client dm ps sched (walk_init remoteRoot w) of
          None \<Rightarrow> None
        | Some st \<Rightarrow> if walk_done st then Some ((wk_entries st, None), wk_world st) else None)
     else
       (case walk_serial client dm ps [(remoteRoot, '''')] [] w of
          None \<Rightarrow> None
        | Some (entries, w) \<Rightarrow> Some ((entries, None), w)))"

section \<open>The listing of one directory\<close>

definition item_kept :: "matcher \<Rightarrow> string list \<Rightarrow> subdir \<Rightarrow> RemoteFileInfo \<Rightarrow> bool" where
  "item_kept dm ps d it \<longleftrightarrow>
     (ri_IsDir it \<or> \<not> IsPartialName (ri_Name it)) \<and> \<not> ShouldIgnore dm (item_rel (snd d) it) ps"

definition items_entries :: "matcher \<Rightarrow> string list \<Rightarrow> subdir \<Rightarrow> RemoteFileInfo list \<Rightarrow> remote_tree" where
  "items_entries dm ps d items =
     map (\<lambda>it. (item_rel (snd d) it, it\<lparr>ri_Path := item_rel (snd d) it\<rparr>)) (filter (item_kept dm ps d) items)"

definition items_subs :: "matcher \<Rightarrow> string list \<Rightarrow> subdir \<Rightarrow> RemoteFileInfo list \<Rightarrow> subdir list" where
  "items_subs dm ps d items =
     map (\<lambda>it. (fst d @ ''/'' @ ri_Name it, item_rel (snd d) it))
       (filter (\<lambda>it. ri_IsDir it \<and> item_kept dm ps d it) items)"

lemma walk_items_eq:
  "walk_items dm ps d items entries subdirs =
     (put_all (items_entries dm ps d items) entries, subdirs @ items_subs dm ps d items)"
  by (induction items arbitrary: entries subdirs)
    (auto simp: items_entries_def items_subs_def item_kept_def Let_def)

text \<open>
  Where the walk of a root may get to: a directory \<open>root/n1/.../nk\<close> with the path
  \<open>n1/.../nk\<close>, all names plain; its items have one more name.
\<close>

definition sub_at :: "string \<Rightarrow> string list \<Rightarrow> subdir" where
  "sub_at root ns = (root @ concat (map (\<lambda>n. ''/'' @ n) ns), StrJoin ''/'' ns)"

definition inside :: "string \<Rightarrow> subdir \<Rightarrow> bool" where
  "inside root d \<longleftrightarrow> (\<exists>ns. d = sub_at root ns \<and> (\<forall>n \<in> set ns. plain n))"

definition safe_items :: "RemoteFileInfo list \<Rightarrow> bool" where
  "safe_items items \<longleftrightarrow> list_all (\<lambda>it. isSafeEntryName (ri_Name it)) items"

lemma StrJoin_snoc: "StrJoin s (ns @ [n]) = (if ns = [] then n else StrJoin s ns @ s @ n)"
  using StrJoin_append [of ns "[n]" s] by auto

lemma item_rel_sub_at:
  "\<forall>n \<in> set ns. plain n \<Longrightarrow> item_rel (snd (sub_at root ns)) it = StrJoin ''/'' (ns @ [ri_Name it])"
  using StrJoin_ne [of ns "''/''"]
  by (auto simp: item_rel_def sub_at_def StrJoin_snoc plain_def)

lemma sub_at_snoc:
  "\<forall>n \<in> set ns. plain n \<Longrightarrow>
   (fst (sub_at root ns) @ ''/'' @ ri_Name it, item_rel (snd (sub_at root ns)) it) =
   sub_at root (ns @ [ri_Name it])"
  using item_rel_sub_at [of ns root it] by (simp add: sub_at_def)

lemma items_subs_inside:
  assumes "inside root d" "safe_items items" "s \<in> set (items_subs dm ps d items)"
  shows "inside root s"
proof -
  obtain ns where ns: "d = sub_at root ns" "\<forall>n \<in> set ns. plain n"
    using assms(1) by (auto simp: inside_def)
  obtain it where it: "it \<in> set items" "s = (fst d @ ''/'' @ ri_Name it, item_rel (snd d) it)"
    using assms(3) by (auto simp: items_subs_def)
  then have "plain (ri_Name it)"
    using assms(2) isSafeEntryName_plain by (auto simp: safe_items_def list_all_iff)
  then show ?thesis
    using ns it(2) sub_at_snoc [OF ns(2), of root it]
    by (auto simp: inside_def intro!: exI [of _ "ns @ [ri_Name it]"])
qed

lemma items_entries_keys:
  assumes "\<forall>n \<in> set ns. plain n" "safe_items items"
    and "(k, v) \<in> set (items_entries dm ps (sub_at root ns) items)"
  shows "\<exists>n. plain n \<and> k = StrJoin ''/'' (ns @ [n])"
  using assms isSafeEntryName_plain
  by (auto simp: items_entries_def item_rel_sub_at safe_items_def list_all_iff)

lemma items_entries_plain_key:
  assumes "inside root d" "safe_items items" "(k, v) \<in> set (items_entries dm ps d items)"
  shows "plain_key k"
proof -
  obtain ns where ns: "d = sub_at root ns" "\<forall>n \<in> set ns. plain n"
    using assms(1) by (auto simp: inside_def)
  then obtain n where "plain n" "k = StrJoin ''/'' (ns @ [n])"
    using items_entries_keys [OF ns(2) assms(2)] assms(3) by blast
  then show ?thesis using ns(2) by (auto simp: plain_key_def intro!: exI [of _ "ns @ [n]"])
qed

text \<open>Different directories have no path in common.\<close>

lemma items_entries_disjoint:
  assumes "inside root d" "inside root d'" "safe_items items" "safe_items items'"
    and "(k, v) \<in> set (items_entries dm ps d items)"
    and "(k, v') \<in> set (items_entries dm ps d' items')"
  shows "d = d'"
proof -
  obtain ns where ns: "d = sub_at root ns" "\<forall>n \<in> set ns. plain n"
    using assms(1) by (auto simp: inside_def)
  obtain ms where ms: "d' = sub_at root ms" "\<forall>n \<in> set ms. plain n"
    using assms(2) by (auto simp: inside_def)
  obtain n where n: "plain n" "k = StrJoin ''/'' (ns @ [n])"
    using items_entries_keys [OF ns(2) assms(3)] assms(5) ns(1) by blast
  obtain m where m: "plain m" "k = StrJoin ''/'' (ms @ [m])"
    using items_entries_keys [OF ms(2) assms(4)] assms(6) ms(1) by blast
  have "ns @ [n] = ms @ [m]"
    using StrJoin_plain_inj [of "ns @ [n]" "ms @ [m]"] ns(2) ms(2) n m by auto
  then show ?thesis using ns(1) ms(1) by simp
qed

lemma inside_root [simp]: "inside root (root, '''')"
  by (auto simp: inside_def sub_at_def intro!: exI [of _ "[]"])

section \<open>A client that only passes on safe names\<close>

text \<open>
  The contract \<open>isSafeEntryName\<close> gives the walk: whatever the server answers, at any
  time, the names that reach the walk are safe. The clients' models provide it.
\<close>

definition safe_result :: "RemoteFileInfo list res \<Rightarrow> bool" where
  "safe_result r = (case r of Inl _ \<Rightarrow> True | Inr items \<Rightarrow> safe_items items)"

definition good_entries :: "remote_tree \<Rightarrow> bool" where
  "good_entries m \<longleftrightarrow> distinct_keys m \<and> (\<forall>k \<in> fst ` set m. plain_key k)"

lemma good_put_all:
  "good_entries m \<Longrightarrow> (\<And>k v. (k, v) \<in> set xs \<Longrightarrow> plain_key k) \<Longrightarrow> good_entries (put_all xs m)"
proof (induction xs arbitrary: m)
  case (Cons x xs)
  have "good_entries (AList.update (fst x) (snd x) m)"
    using Cons.prems(1) Cons.prems(2) [of "fst x" "snd x"]
    by (auto simp: good_entries_def distinct_update dom_update)
  then show ?case using Cons.IH Cons.prems(2) by (metis put_all_simps(2) list.set_intros(2))
qed simp

lemma merge_dir_good:
  assumes "inside root d" "safe_result r" "good_entries m"
  shows "good_entries (fst (merge_dir dm ps (d, r) m))"
    and "\<forall>s \<in> set (snd (merge_dir dm ps (d, r) m)). inside root s"
  using assms items_entries_plain_key [OF assms(1)] items_subs_inside [OF assms(1)]
  by (auto simp: merge_dir_def walk_items_eq safe_result_def split: sum.splits intro!: good_put_all)

definition walk_ok :: "string \<Rightarrow> 'w walk_state \<Rightarrow> bool" where
  "walk_ok root st \<longleftrightarrow>
     (\<forall>d \<in> set (wk_wait st). inside root d) \<and>
     (\<forall>x \<in> set (wk_listed st). inside root (fst x) \<and> safe_result (snd x)) \<and>
     good_entries (wk_entries st)"

lemma set_drop_nth: "set (drop_nth i xs) \<subseteq> set xs"
  by (auto simp: drop_nth_def dest: in_set_takeD in_set_dropD)

lemma walk_serial_good:
  assumes "walk_serial client dm ps stack entries w = Some r"
  shows "(\<forall>p w. safe_result (fst (rc_ReadDir client p w))) \<longrightarrow> (\<forall>d \<in> set stack. inside root d) \<longrightarrow>
    good_entries entries \<longrightarrow> good_entries (fst r)"
proof (rule walk_serial.raw_induct [of "\<lambda>client dm ps stack entries w r.
    (\<forall>p w. safe_result (fst (rc_ReadDir client p w))) \<longrightarrow> (\<forall>d \<in> set stack. inside root d) \<longrightarrow>
    good_entries entries \<longrightarrow> good_entries (fst r)", OF _ assms], goal_cases)
  case (1 walk client dm ps stack entries w r)
  show ?case
  proof (cases stack)
    case Nil
    then show ?thesis using 1(2) by auto
  next
    case (Cons d rest)
    obtain x w' where x: "rc_ReadDir client (fst d) w = (x, w')" by fastforce
    obtain e' ss where m: "merge_dir dm ps (d, x) entries = (e', ss)" by fastforce
    have next_step: "walk client dm ps (ss @ rest) e' w' = Some r" using 1(2) Cons x m by simp
    note IH = 1(1) [OF next_step]
    show ?thesis
    proof (intro impI)
      assume *: "\<forall>p w. safe_result (fst (rc_ReadDir client p w))" "\<forall>d \<in> set stack. inside root d"
        "good_entries entries"
      then have "safe_result x" using x by (metis fst_conv)
      then have "good_entries e'" "\<forall>s \<in> set ss. inside root s"
        using merge_dir_good [of root d x entries dm ps] * Cons m by simp_all
      then show "good_entries (fst r)" using IH * Cons by auto
    qed
  qed
qed

locale safe_listing =
  fixes client :: "'w RemoteClient"
  assumes safe: "safe_result (fst (rc_ReadDir client p w))"
begin

lemma walk_next_ok:
  assumes "walk_ok root st" "walk_next client dm ps c st = Some st'"
  shows "walk_ok root st'"
proof (cases c)
  case (WList i)
  then have i: "i < length (wk_wait st)" using assms(2) by (simp split: if_splits)
  obtain r w where r: "rc_ReadDir client (fst (wk_wait st ! i)) (wk_world st) = (r, w)" by fastforce
  then have "safe_result r" using safe by (metis fst_conv)
  moreover have "inside root (wk_wait st ! i)" using assms(1) i by (simp add: walk_ok_def)
  ultimately show ?thesis
    using assms WList r set_drop_nth [of i "wk_wait st"]
    by (auto simp: walk_ok_def Let_def split: if_splits)
next
  case (WMerge i)
  then have i: "i < length (wk_listed st)" using assms(2) by (simp split: if_splits)
  obtain d r where r: "wk_listed st ! i = (d, r)" by fastforce
  then have "inside root d" "safe_result r" "good_entries (wk_entries st)"
    using assms(1) nth_mem [OF i] by (auto simp: walk_ok_def)
  note ok = merge_dir_good [OF this, of dm ps]
  show ?thesis
    using assms WMerge r ok set_drop_nth [of i "wk_listed st"]
    by (auto simp: walk_ok_def Let_def case_prod_beta split: if_splits)
qed

lemma walk_run_ok: "walk_ok root st \<Longrightarrow> walk_run client dm ps cs st = Some st' \<Longrightarrow> walk_ok root st'"
  by (induction cs arbitrary: st) (auto split: option.splits dest: walk_next_ok)

lemma walk_serial_ok:
  assumes "walk_serial client dm ps stack entries w = Some r"
    and "\<forall>d \<in> set stack. inside root d" "good_entries entries"
  shows "good_entries (fst r)"
  using walk_serial_good [OF assms(1)] assms(2,3) safe by blast

end

section \<open>A server that keeps still during the scan\<close>

text \<open>
  \<open>ls\<close> is what \<open>ReadDir\<close> answers for each path. \<open>dirs n d\<close> are the directories below
  \<open>d\<close>, to depth \<open>n\<close>, and \<open>shallow n d\<close> says that there are none deeper.
\<close>

type_synonym listing = "string \<Rightarrow> RemoteFileInfo list res"

definition listing_of :: "listing \<Rightarrow> 'w RemoteClient \<Rightarrow> bool" where
  "listing_of ls client \<longleftrightarrow> (\<forall>p w. fst (rc_ReadDir client p w) = ls p)"

definition dir_entries :: "matcher \<Rightarrow> string list \<Rightarrow> listing \<Rightarrow> subdir \<Rightarrow> remote_tree" where
  "dir_entries dm ps ls d = (case ls (fst d) of Inl _ \<Rightarrow> [] | Inr items \<Rightarrow> items_entries dm ps d items)"

definition dir_subs :: "matcher \<Rightarrow> string list \<Rightarrow> listing \<Rightarrow> subdir \<Rightarrow> subdir list" where
  "dir_subs dm ps ls d = (case ls (fst d) of Inl _ \<Rightarrow> [] | Inr items \<Rightarrow> items_subs dm ps d items)"

fun dirs :: "matcher \<Rightarrow> string list \<Rightarrow> listing \<Rightarrow> nat \<Rightarrow> subdir \<Rightarrow> subdir list" where
  "dirs dm ps ls 0 d = []"
| "dirs dm ps ls (Suc n) d = d # concat (map (dirs dm ps ls n) (dir_subs dm ps ls d))"

fun shallow :: "matcher \<Rightarrow> string list \<Rightarrow> listing \<Rightarrow> nat \<Rightarrow> subdir \<Rightarrow> bool" where
  "shallow dm ps ls 0 d = False"
| "shallow dm ps ls (Suc n) d = list_all (shallow dm ps ls n) (dir_subs dm ps ls d)"

text \<open>The tree the scan is to find: every directory's entries, in depth-first order.\<close>

definition remote_tree_of :: "matcher \<Rightarrow> string list \<Rightarrow> listing \<Rightarrow> nat \<Rightarrow> string \<Rightarrow> remote_tree" where
  "remote_tree_of dm ps ls n root =
     put_all (concat (map (dir_entries dm ps ls) (dirs dm ps ls n (root, '''')))) []"

lemma merge_dir_ls:
  "merge_dir dm ps (d, ls (fst d)) m = (put_all (dir_entries dm ps ls d) m, dir_subs dm ps ls d)"
  by (simp add: merge_dir_def walk_items_eq dir_entries_def dir_subs_def split: sum.splits)

lemma shallow_Suc: "shallow dm ps ls n d \<Longrightarrow> shallow dm ps ls (Suc n) d"
  by (induction n arbitrary: d) (auto simp: list_all_iff)

lemma dirs_stable: "shallow dm ps ls n d \<Longrightarrow> dirs dm ps ls (Suc n) d = dirs dm ps ls n d"
proof (induction n arbitrary: d)
  case (Suc n)
  have "map (dirs dm ps ls (Suc n)) (dir_subs dm ps ls d) = map (dirs dm ps ls n) (dir_subs dm ps ls d)"
    using Suc.prems Suc.IH by (intro map_cong) (auto simp: list_all_iff simp del: dirs.simps)
  then show ?case by (simp only: dirs.simps)
qed simp

text \<open>One unfolding of \<open>dirs\<close> that keeps the depth.\<close>

lemma dirs_unfold:
  "shallow dm ps ls n d \<Longrightarrow> dirs dm ps ls n d = d # concat (map (dirs dm ps ls n) (dir_subs dm ps ls d))"
  using dirs_stable [of dm ps ls n d] by simp

lemma shallow_subs: "shallow dm ps ls n d \<Longrightarrow> s \<in> set (dir_subs dm ps ls d) \<Longrightarrow> shallow dm ps ls n s"
  using shallow_Suc by (cases n) (auto simp: list_all_iff simp del: shallow.simps(2)
      simp add: shallow.simps(2) [of _ _ _ _ d])

lemma walk_serial_listing:
  assumes "listing_of ls client"
  shows "\<lbrakk>\<forall>d \<in> set stack. shallow dm ps ls n d\<rbrakk> \<Longrightarrow>
    \<exists>w'. walk_serial client dm ps stack m w =
      Some (put_all (concat (map (dir_entries dm ps ls) (concat (map (dirs dm ps ls n) stack)))) m, w')"
proof (induction "length (concat (map (dirs dm ps ls n) stack))" arbitrary: stack m w rule: less_induct)
  case less
  show ?case
  proof (cases stack)
    case Nil
    then show ?thesis by (subst walk_serial.simps) simp
  next
    case (Cons d rest)
    let ?subs = "dir_subs dm ps ls d"
    have d: "shallow dm ps ls n d" using less.prems Cons by simp
    have all: "\<forall>d \<in> set (?subs @ rest). shallow dm ps ls n d"
      using less.prems Cons shallow_subs [OF d] by auto
    have smaller: "length (concat (map (dirs dm ps ls n) (?subs @ rest)))
        < length (concat (map (dirs dm ps ls n) stack))"
      using Cons dirs_unfold [OF d] by simp
    obtain w1 where "rc_ReadDir client (fst d) w = (ls (fst d), w1)"
      using assms unfolding listing_of_def by (metis prod.collapse)
    then have "walk_serial client dm ps stack m w =
        walk_serial client dm ps (?subs @ rest) (put_all (dir_entries dm ps ls d) m) w1"
      using Cons by (subst walk_serial.simps) (simp add: merge_dir_ls)
    then show ?thesis
      using less.hyps [OF smaller all, of "put_all (dir_entries dm ps ls d) m" w1]
        dirs_unfold [OF d] Cons
      by simp
  qed
qed

text \<open>
  Work left in a state of the concurrent walk: two steps for each directory still to be
  listed, one for each listed but not merged, and two for each directory below.
\<close>

definition walk_work :: "matcher \<Rightarrow> string list \<Rightarrow> listing \<Rightarrow> nat \<Rightarrow> 'w walk_state \<Rightarrow> nat" where
  "walk_work dm ps ls n st =
     (\<Sum>d \<leftarrow> wk_wait st. 2 * length (dirs dm ps ls n d)) +
     (\<Sum>x \<leftarrow> wk_listed st. 2 * length (dirs dm ps ls n (fst x)) - 1)"

definition walk_inv :: "matcher \<Rightarrow> string list \<Rightarrow> listing \<Rightarrow> nat \<Rightarrow> 'w walk_state \<Rightarrow> bool" where
  "walk_inv dm ps ls n st \<longleftrightarrow>
     (\<forall>d \<in> set (wk_wait st). shallow dm ps ls n d) \<and>
     (\<forall>x \<in> set (wk_listed st). shallow dm ps ls n (fst x) \<and> snd x = ls (fst (fst x)))"

lemma sum_list_drop_nth:
  "i < length xs \<Longrightarrow> sum_list (map f xs) = f (xs ! i) + sum_list (map (f :: 'a \<Rightarrow> nat) (drop_nth i xs))"
  by (subst (1) id_take_nth_drop [of i xs]) (simp_all add: drop_nth_def)

lemma walk_next_inv:
  assumes ls: "listing_of ls client" and inv: "walk_inv dm ps ls n st"
    and nxt: "walk_next client dm ps c st = Some st'"
  shows "walk_inv dm ps ls n st' \<and> Suc (walk_work dm ps ls n st') = walk_work dm ps ls n st"
proof (cases c)
  case (WList i)
  then have i: "i < length (wk_wait st)" using nxt by (simp split: if_splits)
  let ?d = "wk_wait st ! i"
  obtain w where r: "rc_ReadDir client (fst ?d) (wk_world st) = (ls (fst ?d), w)"
    using ls unfolding listing_of_def by (metis prod.collapse)
  have d: "shallow dm ps ls n ?d" using inv i by (auto simp: walk_inv_def)
  have st': "st' = st\<lparr>wk_wait := drop_nth i (wk_wait st),
      wk_listed := wk_listed st @ [(?d, ls (fst ?d))], wk_world := w\<rparr>"
    using nxt WList r by (simp add: Let_def split: if_splits)
  have "length (dirs dm ps ls n ?d) > 0" using dirs_unfold [OF d] by (metis length_greater_0_conv list.distinct(1))
  then show ?thesis
    using inv d set_drop_nth [of i "wk_wait st"]
      sum_list_drop_nth [OF i, of "\<lambda>d. 2 * length (dirs dm ps ls n d)"]
    by (auto simp: st' walk_inv_def walk_work_def)
next
  case (WMerge i)
  then have i: "i < length (wk_listed st)" using nxt by (simp split: if_splits)
  obtain d r where x: "wk_listed st ! i = (d, r)" by fastforce
  have "(d, r) \<in> set (wk_listed st)" using nth_mem [OF i] x by simp
  then have d: "shallow dm ps ls n d" "r = ls (fst d)"
    using inv by (force simp: walk_inv_def)+
  have st': "st' = st\<lparr>wk_wait := wk_wait st @ dir_subs dm ps ls d,
      wk_listed := drop_nth i (wk_listed st), wk_entries := put_all (dir_entries dm ps ls d) (wk_entries st)\<rparr>"
    using nxt WMerge x d(2) by (simp add: Let_def merge_dir_ls split: if_splits)
  have "length (dirs dm ps ls n d) = Suc (\<Sum>s \<leftarrow> dir_subs dm ps ls d. length (dirs dm ps ls n s))"
    by (subst dirs_unfold [OF d(1)]) (simp add: length_concat comp_def)
  then have "2 * length (dirs dm ps ls n d) - 1 =
      Suc (\<Sum>s \<leftarrow> dir_subs dm ps ls d. 2 * length (dirs dm ps ls n s))"
    by (simp add: sum_list_const_mult)
  then show ?thesis
    using inv d x set_drop_nth [of i "wk_listed st"] shallow_subs [OF d(1)]
      sum_list_drop_nth [OF i, of "\<lambda>x. 2 * length (dirs dm ps ls n (fst x)) - 1"]
    by (auto simp: st' walk_inv_def walk_work_def)
qed

lemma walk_run_work:
  assumes "listing_of ls client"
  shows "walk_inv dm ps ls n st \<Longrightarrow> walk_run client dm ps cs st = Some st' \<Longrightarrow>
    walk_inv dm ps ls n st' \<and> length cs + walk_work dm ps ls n st' = walk_work dm ps ls n st"
proof (induction cs arbitrary: st)
  case (Cons c cs)
  then obtain st1 where one: "walk_next client dm ps c st = Some st1"
    and rest: "walk_run client dm ps cs st1 = Some st'"
    by (auto split: option.splits)
  show ?case using walk_next_inv [OF assms Cons.prems(1) one] Cons.IH [OF _ rest] by auto
qed simp

lemma walk_init_inv: "shallow dm ps ls n (root, '''') \<Longrightarrow> walk_inv dm ps ls n (walk_init root w)"
  by (simp add: walk_inv_def walk_init_def)

text \<open>No state is stuck: until the walk is done, some goroutine can take a step.\<close>

lemma walk_progress:
  assumes "\<not> walk_done st"
  shows "\<exists>c st'. walk_next client dm ps c st = Some st'"
proof (cases "wk_listed st")
  case Nil
  then have "wk_wait st \<noteq> []" using assms by (simp add: walk_done_def)
  then have "walk_next client dm ps (WList 0) st \<noteq> None"
    using Nil by (simp add: Let_def MaxConcurrentReadDir_def case_prod_beta)
  then show ?thesis by blast
next
  case (Cons x xs)
  then have "walk_next client dm ps (WMerge 0) st \<noteq> None" by (simp add: Let_def case_prod_beta)
  then show ?thesis by blast
qed

text \<open>Every run can be continued until it is done.\<close>

lemma walk_run_append:
  "walk_run client dm ps (cs @ cs') st =
   (case walk_run client dm ps cs st of None \<Rightarrow> None | Some st' \<Rightarrow> walk_run client dm ps cs' st')"
  by (induction cs arbitrary: st) (auto split: option.splits)

lemma walk_run_to_done:
  assumes "listing_of ls client"
  shows "walk_inv dm ps ls n st \<Longrightarrow> \<exists>cs st'. walk_run client dm ps cs st = Some st' \<and> walk_done st'"
proof (induction "walk_work dm ps ls n st" arbitrary: st rule: less_induct)
  case less
  show ?case
  proof (cases "walk_done st")
    case True
    then have "walk_run client dm ps [] st = Some st \<and> walk_done st" by simp
    then show ?thesis by blast
  next
    case False
    then obtain c st1 where one: "walk_next client dm ps c st = Some st1"
      using walk_progress by blast
    have "walk_inv dm ps ls n st1" "walk_work dm ps ls n st1 < walk_work dm ps ls n st"
      using walk_next_inv [OF assms less.prems one] by auto
    then obtain cs st' where "walk_run client dm ps cs st1 = Some st'" "walk_done st'"
      using less.hyps by blast
    then have "walk_run client dm ps (c # cs) st = Some st' \<and> walk_done st'" using one by simp
    then show ?thesis by blast
  qed
qed

section \<open>Every order of the goroutines finds the same tree\<close>

definition safe_listings :: "listing \<Rightarrow> bool" where
  "safe_listings ls \<longleftrightarrow> (\<forall>p. safe_result (ls p))"

text \<open>The map that the directories of a set have been merged into.\<close>

definition merged :: "(subdir \<Rightarrow> remote_tree) \<Rightarrow> subdir set \<Rightarrow> remote_tree \<Rightarrow> bool" where
  "merged D P m \<longleftrightarrow> (\<forall>k v. map_of m k = Some v \<longleftrightarrow> (\<exists>d \<in> P. map_of (rev (D d)) k = Some v))"

definition apart :: "(subdir \<Rightarrow> remote_tree) \<Rightarrow> subdir set \<Rightarrow> bool" where
  "apart D P \<longleftrightarrow> (\<forall>d \<in> P. \<forall>d' \<in> P. \<forall>k v v'.
     map_of (rev (D d)) k = Some v \<longrightarrow> map_of (rev (D d')) k = Some v' \<longrightarrow> d = d')"

lemma merged_empty: "merged D {} []"
  by (simp add: merged_def)

lemma merged_insert:
  assumes "merged D P m" "apart D Q" "P \<subseteq> Q" "d \<in> Q"
  shows "merged D (insert d P) (put_all (D d) m)"
  unfolding merged_def map_of_put_all
proof (intro allI)
  fix k v
  show "(map_of m ++ map_of (rev (D d))) k = Some v \<longleftrightarrow>
      (\<exists>d' \<in> insert d P. map_of (rev (D d')) k = Some v)"
  proof (cases "map_of (rev (D d)) k")
    case None
    then show ?thesis using assms(1) by (simp add: merged_def map_add_def)
  next
    case (Some u)
    have "d' = d" if "d' \<in> P" "map_of (rev (D d')) k = Some v" for d'
      using assms(2-4) Some that unfolding apart_def by blast
    then show ?thesis using Some by (auto simp: map_add_def)
  qed
qed

lemma merged_list:
  "merged D P m \<Longrightarrow> apart D Q \<Longrightarrow> P \<union> set ds \<subseteq> Q \<Longrightarrow>
   merged D (P \<union> set ds) (put_all (concat (map D ds)) m)"
proof (induction ds arbitrary: P m)
  case (Cons d ds)
  have "merged D (insert d P) (put_all (D d) m)" using Cons.prems by (intro merged_insert) auto
  then show ?case using Cons.IH [of "insert d P" "put_all (D d) m"] Cons.prems by simp
qed simp

lemma merged_unique: "merged D P m \<Longrightarrow> merged D P m' \<Longrightarrow> map_of m = map_of m'"
  unfolding merged_def by (metis ext not_Some_eq)

lemma safe_listingsD: "safe_listings ls \<Longrightarrow> ls p = Inr items \<Longrightarrow> safe_items items"
  unfolding safe_listings_def safe_result_def by (metis sum.simps(6))

lemma dir_entries_disjoint:
  assumes "safe_listings ls" "inside root d" "inside root d'"
    and "(k, v) \<in> set (dir_entries dm ps ls d)" "(k, v') \<in> set (dir_entries dm ps ls d')"
  shows "d = d'"
proof -
  obtain items where i: "ls (fst d) = Inr items" "(k, v) \<in> set (items_entries dm ps d items)"
    using assms(4) by (cases "ls (fst d)") (simp_all add: dir_entries_def)
  obtain items' where i': "ls (fst d') = Inr items'" "(k, v') \<in> set (items_entries dm ps d' items')"
    using assms(5) by (cases "ls (fst d')") (simp_all add: dir_entries_def)
  show ?thesis
    using items_entries_disjoint [OF assms(2,3) _ _ i(2) i'(2)] safe_listingsD [OF assms(1)] i i'
    by blast
qed

lemma apart_inside:
  assumes "safe_listings ls"
  shows "apart (dir_entries dm ps ls) {d. inside root d}"
  unfolding apart_def
proof (intro ballI allI impI)
  fix d d' k v v'
  assume d: "d \<in> {d. inside root d}" "d' \<in> {d. inside root d}"
    and "map_of (rev (dir_entries dm ps ls d)) k = Some v"
      "map_of (rev (dir_entries dm ps ls d')) k = Some v'"
  then have "(k, v) \<in> set (dir_entries dm ps ls d)" "(k, v') \<in> set (dir_entries dm ps ls d')"
    using map_of_SomeD set_rev by metis+
  then show "d = d'" using dir_entries_disjoint [OF assms] d by blast
qed

lemma dir_subs_inside:
  assumes "safe_listings ls" "inside root d" "s \<in> set (dir_subs dm ps ls d)"
  shows "inside root s"
proof -
  obtain items where i: "ls (fst d) = Inr items" "s \<in> set (items_subs dm ps d items)"
    using assms(3) by (cases "ls (fst d)") (simp_all add: dir_subs_def)
  then show ?thesis using items_subs_inside [OF assms(2) safe_listingsD [OF assms(1) i(1)]] by blast
qed

lemma dirs_least:
  assumes "\<And>x s. x \<in> P \<Longrightarrow> s \<in> set (dir_subs dm ps ls x) \<Longrightarrow> s \<in> P"
  shows "d \<in> P \<Longrightarrow> set (dirs dm ps ls n d) \<subseteq> P"
proof (induction n arbitrary: d)
  case (Suc n)
  have "set (dirs dm ps ls n s) \<subseteq> P" if "s \<in> set (dir_subs dm ps ls d)" for s
    using Suc.IH assms [OF Suc.prems that] .
  then show ?case using Suc.prems by auto
qed simp

lemma dirs_inside: "safe_listings ls \<Longrightarrow> inside root d \<Longrightarrow> x \<in> set (dirs dm ps ls n d) \<Longrightarrow> inside root x"
  using dirs_least [of "{x. inside root x}" dm ps ls d n] dir_subs_inside by blast

lemma dirs_self: "shallow dm ps ls n d \<Longrightarrow> d \<in> set (dirs dm ps ls n d)"
  by (cases n) auto

lemma dirs_closed:
  "shallow dm ps ls n d \<Longrightarrow> x \<in> set (dirs dm ps ls n d) \<Longrightarrow> s \<in> set (dir_subs dm ps ls x) \<Longrightarrow>
   s \<in> set (dirs dm ps ls n d)"
proof (induction n arbitrary: d)
  case (Suc n)
  have sub: "shallow dm ps ls n y" if "y \<in> set (dir_subs dm ps ls d)" for y
    using Suc.prems(1) that by (simp add: list_all_iff)
  show ?case
  proof (cases "x = d")
    case True
    then have "s \<in> set (dirs dm ps ls n s)" using Suc.prems(3) sub dirs_self by blast
    then show ?thesis using True Suc.prems(3) by auto
  next
    case False
    then obtain y where y: "y \<in> set (dir_subs dm ps ls d)" "x \<in> set (dirs dm ps ls n y)"
      using Suc.prems(2) by auto
    then have "s \<in> set (dirs dm ps ls n y)" using Suc.IH [OF sub [OF y(1)] y(2) Suc.prems(3)] by simp
    then show ?thesis using y(1) by auto
  qed
qed simp

text \<open>
  The invariant of a run: the directories merged so far (\<open>P\<close>), listed and waiting are
  below the root, contain it, and contain the subdirectories of the merged ones.
\<close>

definition pending :: "'w walk_state \<Rightarrow> subdir set" where
  "pending st = set (wk_wait st) \<union> fst ` set (wk_listed st)"

definition conf_inv :: "matcher \<Rightarrow> string list \<Rightarrow> listing \<Rightarrow> nat \<Rightarrow> string \<Rightarrow> subdir set \<Rightarrow>
    'w walk_state \<Rightarrow> bool" where
  "conf_inv dm ps ls n root P st \<longleftrightarrow>
     (\<forall>x \<in> set (wk_listed st). snd x = ls (fst (fst x))) \<and>
     P \<union> pending st \<subseteq> set (dirs dm ps ls n (root, '''')) \<and>
     (root, '''') \<in> P \<union> pending st \<and>
     (\<forall>d \<in> P. set (dir_subs dm ps ls d) \<subseteq> P \<union> pending st) \<and>
     merged (dir_entries dm ps ls) P (wk_entries st)"

lemma set_drop_nth_Un:
  assumes "i < length xs"
  shows "insert (xs ! i) (set (drop_nth i xs)) = set xs"
proof -
  have "set xs = set (take i xs @ xs ! i # drop (Suc i) xs)"
    using id_take_nth_drop [OF assms] by simp
  also have "\<dots> = insert (xs ! i) (set (drop_nth i xs))" by (simp add: drop_nth_def)
  finally show ?thesis by simp
qed

lemma conf_next:
  assumes ls: "listing_of ls client" "safe_listings ls" and n: "shallow dm ps ls n (root, '''')"
    and inv: "conf_inv dm ps ls n root P st" and nxt: "walk_next client dm ps c st = Some st'"
  shows "\<exists>P'. conf_inv dm ps ls n root P' st'"
proof (cases c)
  case (WList i)
  then have i: "i < length (wk_wait st)" using nxt by (simp split: if_splits)
  let ?d = "wk_wait st ! i"
  obtain w where r: "rc_ReadDir client (fst ?d) (wk_world st) = (ls (fst ?d), w)"
    using ls unfolding listing_of_def by (metis prod.collapse)
  have st': "st' = st\<lparr>wk_wait := drop_nth i (wk_wait st),
      wk_listed := wk_listed st @ [(?d, ls (fst ?d))], wk_world := w\<rparr>"
    using nxt WList r by (simp add: Let_def split: if_splits)
  have "pending st' = pending st"
    using set_drop_nth_Un [OF i] by (auto simp: st' pending_def)
  then have "conf_inv dm ps ls n root P st'" using inv by (auto simp: conf_inv_def st')
  then show ?thesis by blast
next
  case (WMerge i)
  then have i: "i < length (wk_listed st)" using nxt by (simp split: if_splits)
  obtain d r where x: "wk_listed st ! i = (d, r)" by fastforce
  have mem: "(d, r) \<in> set (wk_listed st)" using nth_mem [OF i] x by simp
  then have r: "r = ls (fst d)" using inv by (force simp: conf_inv_def)
  have d: "d \<in> set (dirs dm ps ls n (root, ''''))"
  proof -
    have "d \<in> pending st" using mem unfolding pending_def by force
    then show ?thesis using inv unfolding conf_inv_def by blast
  qed
  have st': "st' = st\<lparr>wk_wait := wk_wait st @ dir_subs dm ps ls d,
      wk_listed := drop_nth i (wk_listed st), wk_entries := put_all (dir_entries dm ps ls d) (wk_entries st)\<rparr>"
    using nxt WMerge x r by (simp add: Let_def merge_dir_ls split: if_splits)
  have "insert (d, r) (set (drop_nth i (wk_listed st))) = set (wk_listed st)"
    using set_drop_nth_Un [OF i] x by simp
  then have "insert d (fst ` set (drop_nth i (wk_listed st))) = fst ` set (wk_listed st)"
    by (metis fst_conv image_insert)
  then have pend: "insert d (pending st') = pending st \<union> insert d (set (dir_subs dm ps ls d))"
    using mem by (auto simp: st' pending_def)
  have P: "P \<subseteq> set (dirs dm ps ls n (root, ''''))" "merged (dir_entries dm ps ls) P (wk_entries st)"
    using inv by (auto simp: conf_inv_def)
  let ?Q = "{d. inside root d}"
  have Q: "set (dirs dm ps ls n (root, '''')) \<subseteq> ?Q" using dirs_inside [OF ls(2) inside_root] by blast
  have m: "merged (dir_entries dm ps ls) (insert d P) (wk_entries st')"
    unfolding st' using merged_insert [OF P(2) apart_inside [OF ls(2)]] P(1) Q d by simp blast
  have subs: "set (dir_subs dm ps ls d) \<subseteq> set (dirs dm ps ls n (root, ''''))"
    using dirs_closed [OF n d] by blast
  have "conf_inv dm ps ls n root (insert d P) st'"
    unfolding conf_inv_def
  proof (intro conjI)
    have "set (wk_listed st') \<subseteq> set (wk_listed st)" using set_drop_nth by (simp add: st')
    then show "\<forall>x \<in> set (wk_listed st'). snd x = ls (fst (fst x))"
      using inv unfolding conf_inv_def by blast
    show "insert d P \<union> pending st' \<subseteq> set (dirs dm ps ls n (root, ''''))"
      using inv pend subs d unfolding conf_inv_def by blast
    show "(root, '''') \<in> insert d P \<union> pending st'"
      using inv pend unfolding conf_inv_def by blast
    show "\<forall>x \<in> insert d P. set (dir_subs dm ps ls x) \<subseteq> insert d P \<union> pending st'"
      using inv pend unfolding conf_inv_def by blast
    show "merged (dir_entries dm ps ls) (insert d P) (wk_entries st')" by (rule m)
  qed
  then show ?thesis by blast
qed

lemma conf_run:
  assumes "listing_of ls client" "safe_listings ls" "shallow dm ps ls n (root, '''')"
  shows "conf_inv dm ps ls n root P st \<Longrightarrow> walk_run client dm ps cs st = Some st' \<Longrightarrow>
    \<exists>P'. conf_inv dm ps ls n root P' st'"
proof (induction cs arbitrary: P st)
  case (Cons c cs)
  then obtain st1 where one: "walk_next client dm ps c st = Some st1"
    and rest: "walk_run client dm ps cs st1 = Some st'"
    by (auto split: option.splits)
  obtain P1 where "conf_inv dm ps ls n root P1 st1" using conf_next [OF assms Cons.prems(1) one] by blast
  then show ?case using Cons.IH rest by blast
qed auto

lemma remote_tree_of_merged:
  assumes "safe_listings ls"
  shows "merged (dir_entries dm ps ls) (set (dirs dm ps ls n (root, ''''))) (remote_tree_of dm ps ls n root)"
proof -
  have "{} \<union> set (dirs dm ps ls n (root, '''')) \<subseteq> {d. inside root d}"
    using dirs_inside [OF assms inside_root] by blast
  then show ?thesis
    using merged_list [OF merged_empty apart_inside [OF assms]] by (simp add: remote_tree_of_def)
qed

lemma walk_run_listing:
  assumes "listing_of ls client" "safe_listings ls" "shallow dm ps ls n (root, '''')"
    and "walk_run client dm ps cs (walk_init root w) = Some st" "walk_done st"
  shows "map_of (wk_entries st) = map_of (remote_tree_of dm ps ls n root)"
proof -
  let ?all = "set (dirs dm ps ls n (root, ''''))"
  have "conf_inv dm ps ls n root {} (walk_init root w)"
    using dirs_self [OF assms(3)] merged_empty by (simp add: conf_inv_def walk_init_def pending_def)
  then obtain P where P: "conf_inv dm ps ls n root P st" using conf_run [OF assms(1-3) _ assms(4)] by blast
  have "pending st = {}" using assms(5) by (simp add: walk_done_def pending_def)
  then have "P \<subseteq> ?all" "(root, '''') \<in> P" "\<forall>d \<in> P. set (dir_subs dm ps ls d) \<subseteq> P"
    and m: "merged (dir_entries dm ps ls) P (wk_entries st)"
    using P by (auto simp: conf_inv_def)
  moreover from this have "?all \<subseteq> P" using dirs_least [of P dm ps ls] by blast
  ultimately have "P = ?all" by blast
  then show ?thesis using m merged_unique remote_tree_of_merged [OF assms(2)] by blast
qed

text \<open>Both walks in one statement, over \<open>walkRemote\<close>.\<close>

lemma walkRemote_tree:
  assumes "listing_of ls client" "safe_listings ls" "shallow dm ps ls n (root, '''')"
    and "walkRemote client dm sched root ps w = Some ((tree, err), w')"
  shows "err = None \<and> map_of tree = map_of (remote_tree_of dm ps ls n root)"
proof (cases "supportsConcurrentRequests client")
  case True
  then show ?thesis
    using assms(4) walk_run_listing [OF assms(1-3)]
    by (auto simp: walkRemote_def split: option.splits if_splits)
next
  case False
  obtain w1 where "walk_serial client dm ps [(root, '''')] [] w =
      Some (put_all (concat (map (dir_entries dm ps ls) (concat (map (dirs dm ps ls n) [(root, '''')])))) [], w1)"
    using walk_serial_listing [OF assms(1), of "[(root, '''')]" dm ps n "[]" w] assms(3) by auto
  then show ?thesis using assms(4) False by (auto simp: walkRemote_def remote_tree_of_def)
qed

lemma walkRemote_returns:
  assumes "listing_of ls client" "shallow dm ps ls n (root, '''')"
  shows "\<exists>sched r. walkRemote client dm sched root ps w = Some r"
proof (cases "supportsConcurrentRequests client")
  case True
  obtain cs st where "walk_run client dm ps cs (walk_init root w) = Some st" "walk_done st"
    using walk_run_to_done [OF assms(1) walk_init_inv [OF assms(2)]] by blast
  then have "walkRemote client dm cs root ps w = Some ((wk_entries st, None), wk_world st)"
    using True by (simp add: walkRemote_def)
  then show ?thesis by blast
next
  case False
  then show ?thesis
    using walk_serial_listing [OF assms(1), of "[(root, '''')]" dm ps n "[]" w] assms(2)
    by (force simp: walkRemote_def)
qed

lemma walkRemote_sched_length:
  assumes "listing_of ls client" "shallow dm ps ls n (root, '''')"
    and "walk_run client dm ps cs (walk_init root w) = Some st"
  shows "length cs \<le> 2 * length (dirs dm ps ls n (root, ''''))"
proof -
  have "walk_work dm ps ls n (walk_init root w) = 2 * length (dirs dm ps ls n (root, ''''))"
    by (simp add: walk_work_def walk_init_def)
  then show ?thesis
    using walk_run_work [OF assms(1) walk_init_inv [OF assms(2)] assms(3)] by simp
qed

context safe_listing
begin

lemma walkRemote_good:
  assumes "walkRemote client dm sched root ps w = Some ((tree, err), w')"
  shows "good_entries tree"
proof (cases "supportsConcurrentRequests client")
  case True
  have "walk_ok root (walk_init root w)"
    by (simp add: walk_ok_def walk_init_def good_entries_def)
  moreover obtain st where "walk_run client dm ps sched (walk_init root w) = Some st"
    "tree = wk_entries st"
    using assms True by (auto simp: walkRemote_def split: option.splits if_splits)
  ultimately show ?thesis using walk_run_ok by (metis walk_ok_def)
next
  case False
  then have "walk_serial client dm ps [(root, '''')] [] w = Some (tree, w')"
    using assms by (auto simp: walkRemote_def split: option.splits)
  from walk_serial_ok [OF this, of root] show ?thesis by (simp add: good_entries_def)
qed

end

text \<open>Where a safe key leads below a directory of this machine or of the server.\<close>

lemma plain_key_inside:
  assumes "plain_key k" "d \<noteq> ''''"
  shows "\<exists>ns. ns \<noteq> [] \<and> comps (path_Join [d, k]) = comps d @ ns \<and> IsAbs (path_Join [d, k]) = IsAbs d"
proof -
  obtain ns where ns: "k = StrJoin ''/'' ns" "ns \<noteq> []" "\<forall>n \<in> set ns. plain n"
    using assms(1) by (auto simp: plain_key_def)
  have "path_Join [d, k] = Clean (d @ ''/'' @ k)"
    using assms(2) ns StrJoin_ne [of ns "''/''"] by (auto simp: path_Join_def plain_def)
  then show ?thesis
    using comps_join_plain [OF assms(2) ns(2,3)] ns assms(2) by (auto simp: IsAbs_append)
qed

section \<open>The walk of the remote tree ends\<close>

text \<open>C14: with several goroutines listing directories, the walk ends under every schedule. A
  schedule is the sequence of choices which goroutine takes the next step; when the server's
  directories are finitely deep (\<open>shallow\<close>), a schedule has at most two steps per directory,
  one to start it and one to merge its listing; however it began, it can be carried on until no
  directory is pending, no state on the way being stuck; and the tree it then returns is the
  recursive listing, whatever the order was.\<close>

theorem scan_terminates:
  assumes "listing_of ls client" "safe_listings ls" "shallow dm ps ls n (root, '''')"
    and "walk_run client dm ps cs (walk_init root w) = Some st"
  shows "length cs \<le> 2 * length (dirs dm ps ls n (root, '''')) \<and>
    (\<exists>cs' st'. walk_run client dm ps (cs @ cs') (walk_init root w) = Some st' \<and> walk_done st' \<and>
       map_of (wk_entries st') = map_of (remote_tree_of dm ps ls n root))"
proof -
  have "walk_inv dm ps ls n st"
    using walk_run_work [OF assms(1) walk_init_inv [OF assms(3)] assms(4)] by blast
  then obtain cs' st' where more: "walk_run client dm ps cs' st = Some st'" "walk_done st'"
    using walk_run_to_done [OF assms(1)] by blast
  then have "walk_run client dm ps (cs @ cs') (walk_init root w) = Some st'"
    using assms(4) by (simp add: walk_run_append)
  then show ?thesis
    using walkRemote_sched_length [OF assms(1,3,4)] more(2)
      walk_run_listing [OF assms(1-3) _ more(2)] by blast
qed

end
