(* ===== verification/Mirror.thy ===== *)
theory Mirror
  imports Mirror_Execute Mirror_WalkRemote
begin

text \<open>
  \<open>MirrorUp\<close> and \<open>MirrorDown\<close> of internal/transfer/mirror.go, composed of the scans, the
  plan and its execution.

  Arguments besides those of the code: the client, the local file system \<open>fs\<close>, the glob
  matcher \<open>dm\<close>, \<open>sort.Slice\<close> (\<open>ss\<close>), the workers (\<open>rt\<close>) and the order in which the
  goroutines of the remote scan took their steps (\<open>sched\<close>). The result is \<open>None\<close> when the
  remote scan does not return.
\<close>

section \<open>The two mirror operations\<close>

text \<open>
  The part both functions have: load the patterns, scan both sides, make the plan, count
  the skips and sort. \<open>walkLocal\<close> and \<open>walkRemote\<close> can return errors as far as their
  types go.
\<close>

definition count_skips :: "MirrorEntry list \<Rightarrow> MirrorResult \<Rightarrow> MirrorResult" where
  "count_skips actions r =
     foldl (\<lambda>r a. if Action a = ActionSkip then r\<lparr>Skipped := Skipped r + 1\<rparr> else r) r actions"

definition mirror_plan :: "'w RemoteClient \<Rightarrow> 'w LocalFS \<Rightarrow> matcher \<Rightarrow> sorter \<Rightarrow>
    walk_choice list \<Rightarrow> Profile \<Rightarrow> bool \<Rightarrow> 'w \<Rightarrow>
    ((MirrorResult \<times> MirrorEntry list) res \<times> 'w) option" where
  "mirror_plan client fs dm ss sched profile upload w =
    (let ignoreFile = path_Join [p_Context profile, ''.syncignore''] in
     case Syncignore.Load (fs_Stat fs ignoreFile w) (fs_ReadFile fs ignoreFile w) of
       Inl e \<Rightarrow>
         Some (Inl (Wrapped (''failed to load .syncignore: '' @ error_msg e) [e]), w)
     | Inr patterns \<Rightarrow>
         (case walkLocal dm (fs_Tree fs (p_Context profile) w) (p_Context profile) patterns of
            (Some e, _) \<Rightarrow> Some (Inl (wrap_err ''scan local'' e), w)
          | (None, loc) \<Rightarrow>
              (case walkRemote client dm sched (p_RemotePath profile) patterns w of
                 None \<Rightarrow> None
               | Some ((_, Some e), w) \<Rightarrow> Some (Inl (wrap_err ''scan remote'' e), w)
               | Some ((remote, None), w) \<Rightarrow>
                   let actions = diffTrees loc remote upload
                   in Some (Inr (count_skips actions empty_result, sortActions ss actions), w))))"

definition finish_mirror :: "MirrorResult \<times> 'w \<Rightarrow> MirrorResult res \<times> 'w" where
  "finish_mirror s = (Inr ((fst s)\<lparr>Success := (Errors (fst s) = [])\<rparr>), snd s)"

definition MirrorUp :: "'w RemoteClient \<Rightarrow> 'w LocalFS \<Rightarrow> matcher \<Rightarrow> sorter \<Rightarrow> 'w runner \<Rightarrow>
    walk_choice list \<Rightarrow> Profile \<Rightarrow> bool \<Rightarrow> 'w \<Rightarrow> (MirrorResult res \<times> 'w) option" where
  "MirrorUp client fs dm ss rt sched profile dryRun w =
    (let remotePath = p_RemotePath profile;
         (mkErr, w) =
           (case rc_Stat client remotePath w of
              (Inr _, w) \<Rightarrow> (None, w)
            | (Inl _, w) \<Rightarrow> rc_MkdirAll client remotePath w)
     in case mkErr of
          Some e \<Rightarrow>
            Some (Inl (wrap_err ''mirror''
              (Wrapped (''remote path '' @ remotePath @
                 '' does not exist and cannot be created: '' @ error_msg e) [e])), w)
        | None \<Rightarrow>
            (case mirror_plan client fs dm ss sched profile True w of
               None \<Rightarrow> None
             | Some (Inl e, w) \<Rightarrow> Some (Inl e, w)
             | Some (Inr (result, actions), w) \<Rightarrow>
                 if dryRun then Some (Inr (result\<lparr>Actions := actions, Success := True\<rparr>), w)
                 else Some (finish_mirror (executeUp client rt profile actions result w))))"

definition MirrorDown :: "'w RemoteClient \<Rightarrow> 'w LocalFS \<Rightarrow> matcher \<Rightarrow> sorter \<Rightarrow> 'w runner \<Rightarrow>
    walk_choice list \<Rightarrow> Profile \<Rightarrow> bool \<Rightarrow> 'w \<Rightarrow> (MirrorResult res \<times> 'w) option" where
  "MirrorDown client fs dm ss rt sched profile dryRun w =
    (let remotePath = p_RemotePath profile in
     case rc_Stat client remotePath w of
       (Inl _, w) \<Rightarrow>
         Some (Inl (wrap_err ''mirror''
           (ErrorString (''remote path does not exist: '' @ remotePath))), w)
     | (Inr _, w) \<Rightarrow>
         (case mirror_plan client fs dm ss sched profile False w of
            None \<Rightarrow> None
          | Some (Inl e, w) \<Rightarrow> Some (Inl e, w)
          | Some (Inr (result, actions), w) \<Rightarrow>
              if dryRun then Some (Inr (result\<lparr>Actions := actions, Success := True\<rparr>), w)
              else Some (finish_mirror (executeDown client fs rt profile actions result w))))"

section \<open>The plan\<close>

lemma count_skips_eq:
  "count_skips es r = r\<lparr>Skipped := Skipped r + int (length (of_kind {ActionSkip} es))\<rparr>"
  by (induction es arbitrary: r) (auto simp: count_skips_def of_kind_def)

lemma mirror_plan_Inr:
  assumes "mirror_plan client fs dm ss sched profile upload w = Some (Inr (r, actions), w')"
  obtains patterns loc remote where
    "walkLocal dm (fs_Tree fs (p_Context profile) w) (p_Context profile) patterns = (None, loc)"
    "walkRemote client dm sched (p_RemotePath profile) patterns w = Some ((remote, None), w')"
    "actions = sortActions ss (diffTrees loc remote upload)"
    "r = count_skips (diffTrees loc remote upload) empty_result"
  using assms
  by (auto simp: mirror_plan_def Let_def split: sum.splits prod.splits option.splits)

text \<open>The scan changes the world by its \<open>ReadDir\<close> calls only.\<close>

lemma walk_run_keeps:
  assumes "\<And>p. keeps I (rc_ReadDir client p)"
  shows "I (wk_world st) \<Longrightarrow> walk_run client dm ps cs st = Some st' \<Longrightarrow> I (wk_world st')"
proof (induction cs arbitrary: st)
  case (Cons c cs)
  then obtain st1 where one: "walk_next client dm ps c st = Some st1"
    and rest: "walk_run client dm ps cs st1 = Some st'"
    by (auto split: option.splits)
  have "I (wk_world st1)"
    using one Cons.prems(1) keepsD [OF assms]
    by (cases c) (auto simp: Let_def case_prod_beta split: if_splits)
  then show ?case using Cons.IH rest by blast
qed simp

lemma walk_serial_keeps:
  assumes "walk_serial client dm ps stack m w = Some r"
  shows "(\<forall>p. keeps I (rc_ReadDir client p)) \<longrightarrow> I w \<longrightarrow> I (snd r)"
proof (rule walk_serial.raw_induct [of "\<lambda>client dm ps stack m w r.
    (\<forall>p. keeps I (rc_ReadDir client p)) \<longrightarrow> I w \<longrightarrow> I (snd r)", OF _ assms], goal_cases)
  case (1 walk client dm ps stack m w r)
  show ?case
  proof (cases stack)
    case Nil
    then show ?thesis using 1(2) by auto
  next
    case (Cons d rest)
    obtain x w1 where x: "rc_ReadDir client (fst d) w = (x, w1)" by fastforce
    obtain m1 ss where m: "merge_dir dm ps (d, x) m = (m1, ss)" by fastforce
    have next_step: "walk client dm ps (ss @ rest) m1 w1 = Some r" using 1(2) Cons x m by simp
    show ?thesis using 1(1) [OF next_step] x by (metis keeps_case)
  qed
qed

lemma walkRemote_keeps:
  assumes "\<And>p. keeps I (rc_ReadDir client p)" "I w"
    and "walkRemote client dm sched root ps w = Some (r, w')"
  shows "I w'"
proof (cases "supportsConcurrentRequests client")
  case True
  then obtain st where "walk_run client dm ps sched (walk_init root w) = Some st" "w' = wk_world st"
    using assms(3) by (auto simp: walkRemote_def split: option.splits if_splits)
  then show ?thesis
    using walk_run_keeps [OF assms(1), of "walk_init root w"] assms(2) by (simp add: walk_init_def)
next
  case False
  then obtain m where "walk_serial client dm ps [(root, '''')] [] w = Some (m, w')"
    using assms(3) by (auto simp: walkRemote_def split: option.splits)
  then show ?thesis using walk_serial_keeps [of client dm ps _ _ w "(m, w')" I] assms(1,2) by auto
qed

lemma mirror_plan_keeps:
  assumes "\<And>p. keeps I (rc_ReadDir client p)" "I w"
    and "mirror_plan client fs dm ss sched profile upload w = Some (r, w')"
  shows "I w'"
proof -
  consider "w' = w"
    | patterns x where "walkRemote client dm sched (p_RemotePath profile) patterns w = Some (x, w')"
    using assms(3) by (simp add: mirror_plan_def Let_def split: sum.splits prod.splits option.splits)
  then show ?thesis using assms(2) walkRemote_keeps [OF assms(1,2)] by cases auto
qed

text \<open>Every path of a plan comes from one of the two scans.\<close>

lemma diffTrees_RelPath:
  "e \<in> set (diffTrees loc remote upload) \<Longrightarrow> RelPath e \<in> fst ` set loc \<union> fst ` set remote"
  using RelPath_diff_loops(1) [of e remote] RelPath_diff_loops(2) [of e loc]
    RelPath_diff_loops(3) [of e loc] RelPath_diff_loops(4) [of e remote]
  by (auto simp: diffTrees_def image_iff split: if_splits) (metis fst_conv)+

lemma walkLocal_plain:
  assumes "root \<noteq> ''''" "case lstat of Inl _ \<Rightarrow> True | Inr d \<Rightarrow> wf_dnode d"
    and "walkLocal dm lstat root ps = (err, loc)" "k \<in> fst ` set loc"
  shows "plain_key k"
proof (cases lstat)
  case (Inl e)
  then show ?thesis using assms(3,4) walkLocal_unreadable [of dm e root ps] by simp
next
  case (Inr d)
  then have d: "wf_dnode d" using assms(2) by simp
  then have "loc = infos (below dm ps [] d)" using walkLocal_below [OF assms(1) d] assms(3) Inr by simp
  then obtain x where "x \<in> set (below dm ps [] d)" "k = StrJoin ''/'' (fst x)"
    using assms(4) by (force simp: infos_def infos1_def split: sum.splits)
  then show ?thesis using below_paths(1) [OF d, of x dm ps "[]"] by (auto simp: plain_key_def)
qed

definition wf_fs :: "'w LocalFS \<Rightarrow> bool" where
  "wf_fs fs \<longleftrightarrow> (\<forall>p w. case fs_Tree fs p w of Inl _ \<Rightarrow> True | Inr d \<Rightarrow> wf_dnode d)"

lemma mirror_plan_plain:
  assumes "safe_listing client" "wf_fs fs" "sort_slice_ok ss" "p_Context profile \<noteq> ''''"
    and "mirror_plan client fs dm ss sched profile upload w = Some (Inr (r, actions), w')"
    and "a \<in> set actions"
  shows "plain_key (RelPath a)"
proof -
  obtain patterns loc remote where
    l: "walkLocal dm (fs_Tree fs (p_Context profile) w) (p_Context profile) patterns = (None, loc)" and
    r: "walkRemote client dm sched (p_RemotePath profile) patterns w = Some ((remote, None), w')" and
    a: "actions = sortActions ss (diffTrees loc remote upload)"
    by (rule mirror_plan_Inr [OF assms(5)])
  have "set actions \<subseteq> set (diffTrees loc remote upload)"
    using slice_sort.mset_sortActions [of ss "diffTrees loc remote upload"] assms(3) a slice_sort_iff
    by (metis filter_mset_eq_conv mset_subset_eqD set_mset_mset subsetI multiset_filter_subset)
  then have "RelPath a \<in> fst ` set loc \<union> fst ` set remote" using assms(6) diffTrees_RelPath by blast
  moreover have "good_entries remote" by (rule safe_listing.walkRemote_good [OF assms(1) r])
  moreover have "case fs_Tree fs (p_Context profile) w of Inl _ \<Rightarrow> True | Inr d \<Rightarrow> wf_dnode d"
    using assms(2) by (simp add: wf_fs_def)
  ultimately show ?thesis using walkLocal_plain [OF assms(4) _ l] by (auto simp: good_entries_def)
qed

section \<open>Correctness of the mirror operations\<close>

text \<open>
  C1: whatever a (possibly hostile) server answers at any time, a mirror-down touches
  nothing outside the directory it mirrors into. Any property \<open>I\<close> of the world that local
  operations on paths strictly below the context, and the client's session calls, keep,
  is kept by the whole of \<open>MirrorDown\<close>, whatever its result. It rests on the clients'
  \<open>ReadDir\<close> passing on safe names only.
\<close>

theorem MirrorDown_contained:
  assumes "client_runner rt client" "safe_listing client" "wf_fs fs" "sort_slice_ok ss"
    and "p_Context profile \<noteq> ''''"
    and "\<And>p. strictly_below (p_Context profile) p \<Longrightarrow> down_keeps I client fs p"
    and "session_keeps I client" "keeps I (rc_Stat client (p_RemotePath profile))"
    and "\<And>p. keeps I (rc_ReadDir client p)"
    and "I w" "MirrorDown client fs dm ss rt sched profile dryRun w = Some (res, w')"
  shows "I w'"
proof -
  obtain st w1 where st: "rc_Stat client (p_RemotePath profile) w = (st, w1)" by fastforce
  have w1: "I w1" using keeps_case [OF assms(8,10) st] .
  show ?thesis
  proof (cases "\<exists>i r actions w2. st = Inr i \<and> \<not> dryRun \<and>
      mirror_plan client fs dm ss sched profile False w1 = Some (Inr (r, actions), w2)")
    case True
    then obtain i r actions w2 where *: "st = Inr i" "\<not> dryRun"
      "mirror_plan client fs dm ss sched profile False w1 = Some (Inr (r, actions), w2)" by blast
    have "down_keeps I client fs (local_target profile a)" if "a \<in> set actions" for a
      using assms(6) [OF plain_key_below [OF mirror_plan_plain [OF assms(2-5) *(3) that] assms(5)]]
      by (simp add: local_target_def)
    then have "I (snd (executeDown client fs rt profile actions r w2))"
      using client_runner.executeDown_keeps [OF assms(1) _ assms(7)]
        mirror_plan_keeps [OF assms(9) w1 *(3)] by blast
    then show ?thesis
      using assms(11) * st by (auto simp: MirrorDown_def Let_def finish_mirror_def)
  next
    case False
    then show ?thesis
      using assms(11) st w1 mirror_plan_keeps [OF assms(9) w1]
      by (auto simp: MirrorDown_def Let_def split: sum.splits option.splits prod.splits if_splits)
  qed
qed

lemma mirror_plan_spec:
  assumes "safe_listing client" "sort_slice_ok ss"
    and "mirror_plan client fs dm ss sched profile upload w = Some (Inr (r, actions), w')"
  shows "\<exists>patterns loc remote.
    walkLocal dm (fs_Tree fs (p_Context profile) w) (p_Context profile) patterns = (None, loc) \<and>
    walkRemote client dm sched (p_RemotePath profile) patterns w = Some ((remote, None), w') \<and>
    (\<forall>p a. (\<exists>e \<in> set actions. RelPath e = p \<and> Action e = a) =
       (a \<noteq> ActionSkip \<and> plan upload (map_of loc p) (map_of remote p) = Some a)) \<and>
    distinct (map RelPath actions) \<and> sorted_wrt may_precede actions \<and>
    Skipped r = int (length (of_kind {ActionSkip} (diffTrees loc remote upload)))"
proof -
  obtain patterns loc remote where
    l: "walkLocal dm (fs_Tree fs (p_Context profile) w) (p_Context profile) patterns = (None, loc)" and
    rem: "walkRemote client dm sched (p_RemotePath profile) patterns w = Some ((remote, None), w')" and
    a: "actions = sortActions ss (diffTrees loc remote upload)" and
    r: "r = count_skips (diffTrees loc remote upload) empty_result"
    by (rule mirror_plan_Inr [OF assms(3)])
  let ?d = "diffTrees loc remote upload"
  have ss: "slice_sort ss" using assms(2) by (simp add: slice_sort_iff)
  have m: "mset actions = filter_mset (\<lambda>e. Action e \<noteq> ActionSkip) (mset ?d)"
    using slice_sort.mset_sortActions [OF ss] a by simp
  have dist: "distinct_keys loc" "distinct_keys remote"
    using walkLocal_good [of dm "fs_Tree fs (p_Context profile) w" "p_Context profile" patterns] l
      safe_listing.walkRemote_good [OF assms(1) rem] by (simp_all add: good_entries_def)
  have set: "set actions = {e \<in> set ?d. Action e \<noteq> ActionSkip}"
    using arg_cong [OF m, of set_mset] by simp
  have "mset (map RelPath actions) = image_mset RelPath (filter_mset (\<lambda>e. Action e \<noteq> ActionSkip) (mset ?d))"
    using m by simp
  also have "\<dots> = mset (map RelPath (filter (\<lambda>e. Action e \<noteq> ActionSkip) ?d))" by simp
  finally have "distinct (map RelPath actions)"
    using distinct_diffTrees [OF dist, of upload] distinct_map_filter mset_eq_imp_distinct_iff by metis
  moreover have "(\<exists>e \<in> set actions. RelPath e = p \<and> Action e = a) =
       (a \<noteq> ActionSkip \<and> plan upload (map_of loc p) (map_of remote p) = Some a)" for p a
    unfolding set diffTrees_plan [OF dist, of upload p a, symmetric] by blast
  moreover have "Skipped r = int (length (of_kind {ActionSkip} ?d))"
    by (simp add: r count_skips_eq empty_result_def)
  ultimately show ?thesis
    using l rem slice_sort.sorted_sortActions [OF ss, of ?d] a by blast
qed

text \<open>
  C2: the plan of a mirror run is complete and sound. For every path it holds exactly the
  action that the file on either side calls for (create, transfer, delete, conflict;
  nothing for what is equal), each path once, sorted so that parents are created before
  and removed after their children; the equal files are counted as skipped.
\<close>

theorem mirror_plan_complete:
  assumes "safe_listing client" "sort_slice_ok ss"
    and "mirror_plan client fs dm ss sched profile upload w = Some (Inr (r, actions), w')"
  shows "\<exists>patterns loc remote.
    walkLocal dm (fs_Tree fs (p_Context profile) w) (p_Context profile) patterns = (None, loc) \<and>
    walkRemote client dm sched (p_RemotePath profile) patterns w = Some ((remote, None), w') \<and>
    (\<forall>p a. (\<exists>e \<in> set actions. RelPath e = p \<and> Action e = a) =
       (a \<noteq> ActionSkip \<and> plan upload (map_of loc p) (map_of remote p) = Some a)) \<and>
    distinct (map RelPath actions) \<and> sorted_wrt may_precede actions \<and>
    Skipped r = int (length (of_kind {ActionSkip} (diffTrees loc remote upload)))"
  by (rule mirror_plan_spec [OF assms])

text \<open>
  C3: a mirror-up accounts for every action of its plan, whatever fails and in whatever
  order the workers finish. Each upload is counted or is one error, each other action is
  counted or is one warning, and the run is a success exactly when no upload failed.
\<close>

theorem MirrorUp_accounts:
  assumes "transfer_runner rt"
    and "MirrorUp client fs dm ss rt sched profile False w = Some (Inr r, w')"
  shows "\<exists>w1 w2 r0 actions.
    mirror_plan client fs dm ss sched profile True w1 = Some (Inr (r0, actions), w2) \<and>
    Uploaded r + int (length (Errors r)) = int (length (of_kind {ActionUpload} actions)) \<and>
    Created r + Deleted r + int (length (Warnings r)) =
      int (length (of_kind {ActionMkdir, ActionDelete, ActionDeleteDir, ActionConflict} actions)) \<and>
    Downloaded r = 0 \<and> Skipped r = Skipped r0 \<and> (Success r \<longleftrightarrow> Errors r = [])"
proof -
  obtain w1 w2 r0 actions where
    p: "mirror_plan client fs dm ss sched profile True w1 = Some (Inr (r0, actions), w2)" and
    r: "Inr r = fst (finish_mirror (executeUp client rt profile actions r0 w2))"
    using assms(2)
    by (auto simp: MirrorUp_def Let_def split: prod.splits option.splits sum.splits)
  obtain es where r0: "r0 = count_skips es empty_result" using mirror_plan_Inr [OF p] by metis
  note tally = transfer_runner.tally_executeUp [OF assms(1), of client profile actions r0 w2]
  have "transfers_of r0 = 0" "others_of r0 = 0" "Downloaded r0 = 0"
    by (simp_all add: r0 count_skips_eq empty_result_def transfers_of_def others_of_def)
  then show ?thesis
    using p r tally executeUp_frame [of client rt profile actions r0 w2]
    by (intro exI [of _ w1] exI [of _ w2] exI [of _ r0] exI [of _ actions])
       (simp add: finish_mirror_def tally_def transfers_of_def others_of_def)
qed

text \<open>The same for a mirror-down, its downloads and its local operations.\<close>

theorem MirrorDown_accounts:
  assumes "transfer_runner rt"
    and "MirrorDown client fs dm ss rt sched profile False w = Some (Inr r, w')"
  shows "\<exists>w1 w2 r0 actions.
    mirror_plan client fs dm ss sched profile False w1 = Some (Inr (r0, actions), w2) \<and>
    Downloaded r + int (length (Errors r)) = int (length (of_kind {ActionDownload} actions)) \<and>
    Created r + Deleted r + int (length (Warnings r)) =
      int (length (of_kind {ActionMkdir, ActionDelete, ActionDeleteDir, ActionConflict} actions)) \<and>
    Uploaded r = 0 \<and> Skipped r = Skipped r0 \<and> (Success r \<longleftrightarrow> Errors r = [])"
proof -
  obtain w1 w2 r0 actions where
    p: "mirror_plan client fs dm ss sched profile False w1 = Some (Inr (r0, actions), w2)" and
    r: "Inr r = fst (finish_mirror (executeDown client fs rt profile actions r0 w2))"
    using assms(2)
    by (auto simp: MirrorDown_def Let_def split: prod.splits option.splits sum.splits)
  obtain es where r0: "r0 = count_skips es empty_result" using mirror_plan_Inr [OF p] by metis
  note tally = transfer_runner.tally_executeDown [OF assms(1), of client fs profile actions r0 w2]
  have "transfers_of r0 = 0" "others_of r0 = 0" "Uploaded r0 = 0"
    by (simp_all add: r0 count_skips_eq empty_result_def transfers_of_def others_of_def)
  then show ?thesis
    using p r tally executeDown_frame [of client fs rt profile actions r0 w2]
    by (intro exI [of _ w1] exI [of _ w2] exI [of _ r0] exI [of _ actions])
       (simp add: finish_mirror_def tally_def transfers_of_def others_of_def)
qed

text \<open>
  A dry run only looks: a dry mirror-down calls nothing of the client but \<open>Stat\<close> and
  \<open>ReadDir\<close>, a dry mirror-up also \<open>MkdirAll\<close> of the remote path, and neither anything of the
  local file system that changes it; nothing is counted as done, and every action is listed.
\<close>

definition undone :: "MirrorResult res \<Rightarrow> bool" where
  "undone res \<longleftrightarrow> (case res of Inl _ \<Rightarrow> True
     | Inr r \<Rightarrow> Downloaded r = 0 \<and> Uploaded r = 0 \<and> Deleted r = 0 \<and> Created r = 0 \<and> Errors r = [] \<and> Success r)"

lemma dry_plan:
  assumes "\<And>p. keeps I (rc_ReadDir client p)" "I w"
    and p: "mirror_plan client fs dm ss sched profile up w = Some (x, w')"
    and x: "res = (case x of Inl e \<Rightarrow> Inl e | Inr (r, acts) \<Rightarrow> Inr (r\<lparr>Actions := acts, Success := True\<rparr>))"
  shows "I w' \<and> undone res"
proof -
  have "r = count_skips es empty_result \<Longrightarrow> Downloaded r = 0 \<and> Uploaded r = 0 \<and> Deleted r = 0 \<and> Created r = 0 \<and> Errors r = []" for r es
    by (simp add: count_skips_eq empty_result_def)
  then show ?thesis
    using mirror_plan_keeps [OF assms(1,2) p] p x
    by (auto simp: undone_def split: sum.splits elim!: mirror_plan_Inr)
qed

lemma MirrorDown_dry_run:
  assumes "keeps I (rc_Stat client (p_RemotePath profile))" "\<And>p. keeps I (rc_ReadDir client p)"
    and "I w" "MirrorDown client fs dm ss rt sched profile True w = Some (res, w')"
  shows "I w' \<and> undone res"
proof -
  obtain st w1 where st: "rc_Stat client (p_RemotePath profile) w = (st, w1)" by fastforce
  have w1: "I w1" using keeps_case [OF assms(1,3) st] .
  show ?thesis
  proof (cases st)
    case (Inl e)
    then show ?thesis using assms(4) st w1 by (auto simp: MirrorDown_def Let_def undone_def)
  next
    case (Inr i)
    then obtain x where "mirror_plan client fs dm ss sched profile False w1 = Some (x, w')"
      and "res = (case x of Inl e \<Rightarrow> Inl e | Inr (r, acts) \<Rightarrow> Inr (r\<lparr>Actions := acts, Success := True\<rparr>))"
      using assms(4) st by (auto simp: MirrorDown_def Let_def split: option.splits sum.splits prod.splits)
    then show ?thesis using dry_plan [OF assms(2) w1] by blast
  qed
qed

lemma MirrorUp_dry_run:
  assumes "keeps I (rc_Stat client (p_RemotePath profile))" "\<And>p. keeps I (rc_ReadDir client p)"
    and "keeps I (rc_MkdirAll client (p_RemotePath profile))"
    and "I w" "MirrorUp client fs dm ss rt sched profile True w = Some (res, w')"
  shows "I w' \<and> undone res"
proof -
  obtain e w1 where e: "(case rc_Stat client (p_RemotePath profile) w of (Inr _, w) \<Rightarrow> (None, w)
      | (Inl _, w) \<Rightarrow> rc_MkdirAll client (p_RemotePath profile) w) = (e, w1)" by fastforce
  obtain st w0 where st: "rc_Stat client (p_RemotePath profile) w = (st, w0)" by fastforce
  have w0: "I w0" using keeps_case [OF assms(1,4) st] .
  have w1: "I w1" using e st w0 keepsD [OF assms(3) w0] by (cases st) auto
  show ?thesis
  proof (cases e)
    case (Some er)
    then show ?thesis using assms(5) e w1 by (auto simp: MirrorUp_def Let_def undone_def)
  next
    case None
    then obtain x where "mirror_plan client fs dm ss sched profile True w1 = Some (x, w')"
      and "res = (case x of Inl e \<Rightarrow> Inl e | Inr (r, acts) \<Rightarrow> Inr (r\<lparr>Actions := acts, Success := True\<rparr>))"
      using assms(5) e by (auto simp: MirrorUp_def Let_def split: option.splits sum.splits prod.splits)
    then show ?thesis using dry_plan [OF assms(2) w1] by blast
  qed
qed


text \<open>
  A conflict does not protect what is inside. Where one side has a directory and the
  other a file, the run warns that the path is skipped, and still deletes every file in that
  directory on the side it writes to (shown for a mirror-down).
\<close>

theorem conflict_deletes_contents:
  assumes "safe_listing client" "sort_slice_ok ss"
    and "mirror_plan client fs dm ss sched profile False w = Some (Inr (r, actions), w')"
  shows "\<exists>patterns loc remote.
    walkLocal dm (fs_Tree fs (p_Context profile) w) (p_Context profile) patterns = (None, loc) \<and>
    walkRemote client dm sched (p_RemotePath profile) patterns w = Some ((remote, None), w') \<and>
    (\<forall>p q l f ri. map_of loc p = Some l \<and> fi_IsDir l \<and> map_of remote p = Some ri \<and> \<not> ri_IsDir ri \<and>
       is_ancestor p q \<and> map_of loc q = Some f \<and> \<not> fi_IsDir f \<and> map_of remote q = None \<longrightarrow>
       (\<exists>e \<in> set actions. RelPath e = p \<and> Action e = ActionConflict) \<and>
       (\<exists>e \<in> set actions. RelPath e = q \<and> Action e = ActionDelete))"
proof -
  obtain patterns loc remote where
    "walkLocal dm (fs_Tree fs (p_Context profile) w) (p_Context profile) patterns = (None, loc)"
    "walkRemote client dm sched (p_RemotePath profile) patterns w = Some ((remote, None), w')" and
    plan: "\<And>p a. (\<exists>e \<in> set actions. RelPath e = p \<and> Action e = a) =
       (a \<noteq> ActionSkip \<and> plan False (map_of loc p) (map_of remote p) = Some a)"
    using mirror_plan_spec [OF assms] by blast
  then show ?thesis
    by (intro exI [of _ patterns] exI [of _ loc] exI [of _ remote]) auto
qed

lemma safe_listings_of: "safe_listing client \<Longrightarrow> listing_of ls client \<Longrightarrow> safe_listings ls"
  unfolding safe_listings_def listing_of_def safe_listing_def by metis

text \<open>A directory that cannot be listed has no entries in the remote tree.\<close>

lemma unlisted_dir_absent:
  assumes "safe_listings ls" "ls (fst (sub_at root ns)) = Inl e" "\<forall>n \<in> set ns. plain n" "plain m"
  shows "map_of (remote_tree_of dm ps ls n root) (StrJoin ''/'' (ns @ [m])) = None"
proof (rule ccontr)
  let ?k = "StrJoin ''/'' (ns @ [m])"
  assume "map_of (remote_tree_of dm ps ls n root) ?k \<noteq> None"
  then obtain d v where d: "d \<in> set (dirs dm ps ls n (root, ''''))"
    and "map_of (rev (dir_entries dm ps ls d)) ?k = Some v"
    using remote_tree_of_merged [OF assms(1), of dm ps n root] unfolding merged_def by blast
  then have kv: "(?k, v) \<in> set (dir_entries dm ps ls d)" by (metis map_of_SomeD set_rev)
  have "inside root d" using dirs_inside [OF assms(1) inside_root d] .
  then obtain ms where ms: "d = sub_at root ms" "\<forall>n \<in> set ms. plain n" by (auto simp: inside_def)
  obtain items where i: "ls (fst d) = Inr items" "(?k, v) \<in> set (items_entries dm ps d items)"
    using kv by (cases "ls (fst d)") (simp_all add: dir_entries_def)
  obtain n' where n': "plain n'" "?k = StrJoin ''/'' (ms @ [n'])"
    using items_entries_keys [OF ms(2) safe_listingsD [OF assms(1) i(1)]] i(2) ms(1) by blast
  have "ns @ [m] = ms @ [n']"
    using StrJoin_plain_inj [of "ns @ [m]" "ms @ [n']"] assms(3,4) ms(2) n' by auto
  then show False using assms(2) i(1) ms(1) by simp
qed

text \<open>
  A remote directory that cannot be listed counts as empty. While the server answers
  with an error for one directory, a mirror-down plans the deletion of every local file
  in it; nothing but a warning tells of the failed listing.
\<close>

theorem unlisted_dir_deletes_local:
  assumes "safe_listing client" "sort_slice_ok ss" "listing_of ls client"
    and "\<And>ps. shallow dm ps ls n (p_RemotePath profile, '''')"
    and "\<forall>n \<in> set ns. plain n" "ls (fst (sub_at (p_RemotePath profile) ns)) = Inl e"
    and "mirror_plan client fs dm ss sched profile False w = Some (Inr (r, actions), w')"
  shows "\<exists>patterns loc.
    walkLocal dm (fs_Tree fs (p_Context profile) w) (p_Context profile) patterns = (None, loc) \<and>
    (\<forall>m f. plain m \<and> map_of loc (StrJoin ''/'' (ns @ [m])) = Some f \<and> \<not> fi_IsDir f \<longrightarrow>
      (\<exists>a \<in> set actions. RelPath a = StrJoin ''/'' (ns @ [m]) \<and> Action a = ActionDelete))"
proof -
  have ls: "safe_listings ls" by (rule safe_listings_of [OF assms(1,3)])
  obtain patterns loc remote where
    l: "walkLocal dm (fs_Tree fs (p_Context profile) w) (p_Context profile) patterns = (None, loc)" and
    rem: "walkRemote client dm sched (p_RemotePath profile) patterns w = Some ((remote, None), w')" and
    plan: "\<And>p a. (\<exists>e \<in> set actions. RelPath e = p \<and> Action e = a) =
       (a \<noteq> ActionSkip \<and> plan False (map_of loc p) (map_of remote p) = Some a)"
    using mirror_plan_spec [OF assms(1,2,7)] by blast
  have "map_of remote = map_of (remote_tree_of dm patterns ls n (p_RemotePath profile))"
    using walkRemote_tree [OF assms(3) ls assms(4) rem] by simp
  then have "map_of remote (StrJoin ''/'' (ns @ [m])) = None" if "plain m" for m
    using unlisted_dir_absent [OF ls assms(6,5) that] by simp
  then show ?thesis using l plan by (intro exI [of _ patterns] exI [of _ loc]) auto
qed

end
