(* ===== verification/Mirror_Example.thy ===== *)
theory Mirror_Example
  imports Mirror
begin

text \<open>
  A small site and a server for it, on which the theorems of \<open>Mirror\<close> are applied, and
  runs that show what the mirror operations do in corner cases.

  The world is a log of the local paths that were changed.
\<close>

definition demo_info :: "string \<Rightarrow> fkind \<Rightarrow> FileInfo" where
  "demo_info n k = \<lparr>fi_Name = n, fi_Size = 7, fi_ModTime = 5, fi_Kind = k, fi_Perm = 420\<rparr>"

definition demo_item :: "string \<Rightarrow> bool \<Rightarrow> RemoteFileInfo" where
  "demo_item n d = \<lparr>ri_Name = n, ri_Path = n, ri_Size = 9, ri_ModTime = 5, ri_IsDir = d,
     ri_Mode = (if d then KDir else KRegular, 493), ri_ModTimePrecision = 0\<rparr>"

definition demo_node :: "string \<Rightarrow> fkind \<Rightarrow> dnode list \<Rightarrow> dnode" where
  "demo_node n k cs = DNode n k (Inr (demo_info n k)) None cs"

definition demo_log :: "string \<Rightarrow> string list \<Rightarrow> goerr option \<times> string list" where
  "demo_log p w = (None, w @ [p])"

definition demo_quiet :: "string list \<Rightarrow> goerr option \<times> string list" where
  "demo_quiet w = (None, w)"

text \<open>
  On the server: \<open>index\<close> and a directory \<open>img\<close> that cannot be listed. On the disk: an
  old \<open>index\<close>, \<open>img\<close> with one file, and \<open>draft\<close>.
\<close>

definition demo_ls :: listing where
  "demo_ls p =
    (if p = ''/srv'' then Inr [demo_item ''index'' False, demo_item ''img'' True]
     else if p = ''/srv/img'' then Inl (ErrorString ''i/o timeout'')
     else Inr [])"

definition demo_client :: "string list RemoteClient" where
  "demo_client = \<lparr>
     rc_Connect = demo_quiet, rc_Close = demo_quiet, rc_IsAlive = (\<lambda>w. (True, w)),
     rc_Stat = (\<lambda>p w. (Inr (demo_item p True), w)),
     rc_ReadDir = (\<lambda>p w. (demo_ls p, w)),
     rc_Upload = (\<lambda>l r. demo_quiet), rc_UploadResume = (\<lambda>l r. demo_quiet),
     rc_Download = (\<lambda>r l. demo_log l),
     rc_Mkdir = (\<lambda>p. demo_quiet), rc_MkdirAll = (\<lambda>p. demo_quiet),
     rc_Remove = (\<lambda>p. demo_quiet), rc_RemoveDir = (\<lambda>p. demo_quiet),
     rc_Chmod = (\<lambda>p m. demo_quiet), rc_Concurrent = None, rc_DownloadKnown = None\<rparr>"

definition demo_fs :: "string list LocalFS" where
  "demo_fs = \<lparr>
     fs_Tree = (\<lambda>p w. if p = ''/site'' then
        Inr (demo_node ''site'' KDir [demo_node ''draft'' KRegular [],
          demo_node ''img'' KDir [demo_node ''logo'' KRegular []], demo_node ''index'' KRegular []])
        else Inl (Sentinel ErrNotExist)),
     fs_Stat = (\<lambda>p w. Inl (Sentinel ErrNotExist)),
     fs_ReadFile = (\<lambda>p w. Inl (Sentinel ErrNotExist)),
     fs_MkdirAll = demo_log, fs_Remove = demo_log\<rparr>"

definition demo_profile :: Profile where
  "demo_profile = \<lparr>p_Host = ''h'', p_Username = ''u'', p_Password = ''p'', p_SSHKey = '''', p_Port = 22,
     p_Protocol = ''sftp'', p_RemotePath = ''/srv'', p_Context = ''/site'', p_AutoSync = False,
     p_AutoSyncDebounce = 0, p_AutoSyncDeletes = False, p_VerifyHostKey = None,
     p_FTPConnections = 0, p_TLSCACert = ''''\<rparr>"

definition demo_dm :: matcher where
  "demo_dm p r \<longleftrightarrow> p = r"

definition demo_down :: "bool \<Rightarrow> (MirrorResult res \<times> string list) option" where
  "demo_down dryRun = MirrorDown demo_client demo_fs demo_dm insertion_slice
     (runTransfers demo_client) [] demo_profile dryRun []"

lemma demo_down_run: "map_option snd (demo_down False) = Some [''/site/draft'', ''/site/img/logo'', ''/site/index'']"
  by code_simp

text \<open>The hypotheses of the theorems hold here.\<close>

lemma demo_safe: "safe_listing demo_client"
  by unfold_locales
    (simp add: demo_client_def demo_ls_def safe_result_def safe_items_def demo_item_def
      isSafeEntryName_def ContainsAny_def)

lemma demo_wf: "wf_fs demo_fs"
  by (simp add: wf_fs_def demo_fs_def demo_node_def plain_def)

lemma demo_sort: "sort_slice_ok insertion_slice"
  using ins.slice_sort_axioms by (simp add: slice_sort_iff)

definition demo_inside :: "string list \<Rightarrow> bool" where
  "demo_inside ps \<longleftrightarrow> (\<forall>p \<in> set ps. strictly_below ''/site'' p)"

lemma demo_keeps:
  "strictly_below ''/site'' p \<Longrightarrow> down_keeps demo_inside demo_client demo_fs p"
  "session_keeps I demo_client" "keeps I (rc_Stat demo_client q)" "keeps I (rc_ReadDir demo_client q)"
  by (simp_all add: down_keeps_def session_keeps_def keeps_def demo_client_def demo_fs_def
      demo_log_def demo_quiet_def demo_inside_def)

lemma demo_down_Some: "\<exists>res. demo_down False = Some (res, [''/site/draft'', ''/site/img/logo'', ''/site/index''])"
  using demo_down_run by (cases "demo_down False") auto

lemma MirrorDown_contained_witness:
  "demo_inside [''/site/draft'', ''/site/img/logo'', ''/site/index'']"
proof -
  obtain res where res: "demo_down False = Some (res, [''/site/draft'', ''/site/img/logo'', ''/site/index''])"
    using demo_down_Some by blast
  have ctx: "p_Context demo_profile = ''/site''" by (simp add: demo_profile_def)
  show ?thesis
    by (rule MirrorDown_contained [OF seq_client.client_runner_axioms demo_safe demo_wf demo_sort,
          of demo_profile demo_inside])
       (use res in \<open>simp_all add: ctx demo_keeps demo_inside_def demo_down_def\<close>)
qed


definition demo_plan :: "bool \<Rightarrow> ((MirrorResult \<times> MirrorEntry list) res \<times> string list) option" where
  "demo_plan upload = mirror_plan demo_client demo_fs demo_dm insertion_slice [] demo_profile upload []"

lemma demo_plan_run:
  "case demo_plan False of Some (Inr (r, actions), w) \<Rightarrow>
     map RelPath actions = [''index'', ''draft'', ''img/logo''] | _ \<Rightarrow> False"
  by code_simp

lemma demo_plan_Some:
  "\<exists>r actions w. demo_plan False = Some (Inr (r, actions), w) \<and>
     map RelPath actions = [''index'', ''draft'', ''img/logo'']"
  using demo_plan_run by (auto split: option.splits prod.splits sum.splits)

lemma mirror_plan_complete_witness:
  "\<exists>r actions w. demo_plan False = Some (Inr (r, actions), w) \<and>
     map RelPath actions = [''index'', ''draft'', ''img/logo''] \<and> sorted_wrt may_precede actions"
proof -
  obtain r actions w where p: "demo_plan False = Some (Inr (r, actions), w)"
    "map RelPath actions = [''index'', ''draft'', ''img/logo'']"
    using demo_plan_Some by (elim exE conjE) (rule that)
  have "sorted_wrt may_precede actions"
    using mirror_plan_complete [OF demo_safe demo_sort p(1) [unfolded demo_plan_def]]
    by (elim exE conjE)
  then show ?thesis using p by (intro exI conjI)
qed

definition demo_up :: "(MirrorResult res \<times> string list) option" where
  "demo_up = MirrorUp demo_client demo_fs demo_dm insertion_slice
     (runTransfers demo_client) [] demo_profile False []"

lemma demo_up_run:
  "case demo_up of Some (Inr r, w) \<Rightarrow> Uploaded r = 3 \<and> Errors r = [] | _ \<Rightarrow> False"
  by code_simp

lemma MirrorUp_accounts_witness:
  "\<exists>r w. demo_up = Some (Inr r, w) \<and> Uploaded r = 3 \<and> Success r \<and> Downloaded r = 0"
proof -
  obtain r w where r: "demo_up = Some (Inr r, w)" "Uploaded r = 3" "Errors r = []"
    using demo_up_run by (auto split: option.splits prod.splits sum.splits)
  have "Success r" "Downloaded r = 0"
    using MirrorUp_accounts [OF seq_runner.transfer_runner_axioms r(1) [unfolded demo_up_def]] r(3)
    by (elim exE conjE, simp)+
  then show ?thesis using r by (intro exI conjI)
qed

lemma demo_down_counts:
  "case demo_down False of Some (Inr r, w) \<Rightarrow> Downloaded r = 1 \<and> Deleted r = 2 \<and> Errors r = [] | _ \<Rightarrow> False"
  by code_simp

lemma MirrorDown_accounts_witness:
  "\<exists>r w. demo_down False = Some (Inr r, w) \<and> Downloaded r = 1 \<and> Success r \<and> Uploaded r = 0"
proof -
  obtain r w where r: "demo_down False = Some (Inr r, w)" "Downloaded r = 1" "Errors r = []"
    using demo_down_counts by (auto split: option.splits prod.splits sum.splits)
  have "Success r" "Uploaded r = 0"
    using MirrorDown_accounts [OF seq_runner.transfer_runner_axioms r(1) [unfolded demo_down_def]] r(3)
    by (elim exE conjE, simp)+
  then show ?thesis using r by (intro exI conjI)
qed

lemma demo_dry_run: "case demo_down True of Some (Inr r, w) \<Rightarrow> length (Actions r) = 3 | _ \<Rightarrow> False"
  by code_simp

lemma MirrorDown_dry_run_witness:
  "case demo_down True of Some (Inr r, w) \<Rightarrow> w = [] \<and> Deleted r = 0 | _ \<Rightarrow> False"
proof -
  obtain r w where r: "demo_down True = Some (Inr r, w)"
    using demo_dry_run by (auto split: option.splits prod.splits sum.splits)
  show ?thesis
    using MirrorDown_dry_run [of "\<lambda>w. w = []", OF demo_keeps(3,4) refl r [unfolded demo_down_def]] r
    by (simp add: undone_def)
qed

text \<open>A context that is a symlink, and one that has a directory where the server has a file.\<close>

definition demo_link :: "string list LocalFS" where
  "demo_link = demo_fs\<lparr>fs_Tree := (\<lambda>p w. Inr (demo_node ''site'' KSymlink []))\<rparr>"

definition demo_link_plan :: "((MirrorResult \<times> MirrorEntry list) res \<times> string list) option" where
  "demo_link_plan = mirror_plan demo_client demo_link demo_dm insertion_slice [] demo_profile True []"

lemma demo_link_run:
  "case demo_link_plan of Some (Inr (r, actions), w) \<Rightarrow> length actions = 2 | _ \<Rightarrow> False"
  by code_simp


definition demo_clash :: "string list LocalFS" where
  "demo_clash = demo_fs\<lparr>fs_Tree := (\<lambda>p w. Inr (demo_node ''site'' KDir
     [demo_node ''index'' KDir [demo_node ''notes'' KRegular []]]))\<rparr>"

definition demo_clash_plan :: "((MirrorResult \<times> MirrorEntry list) res \<times> string list) option" where
  "demo_clash_plan = mirror_plan demo_client demo_clash demo_dm insertion_slice [] demo_profile False []"

lemma demo_clash_run:
  "case demo_clash_plan of Some (Inr (r, actions), w) \<Rightarrow>
     map (\<lambda>e. (RelPath e, Action e)) actions =
       [(''img'', ActionMkdir), (''index/notes'', ActionDelete), (''index'', ActionConflict)] | _ \<Rightarrow> False"
  by code_simp

lemma conflict_deletes_contents_witness:
  "\<exists>r actions w patterns remote. demo_clash_plan = Some (Inr (r, actions), w) \<and>
     map (\<lambda>e. (RelPath e, Action e)) actions =
       [(''img'', ActionMkdir), (''index/notes'', ActionDelete), (''index'', ActionConflict)] \<and>
     walkRemote demo_client demo_dm [] ''/srv'' patterns [] = Some ((remote, None), w)"
proof -
  obtain r actions w where p: "demo_clash_plan = Some (Inr (r, actions), w)"
    "map (\<lambda>e. (RelPath e, Action e)) actions =
       [(''img'', ActionMkdir), (''index/notes'', ActionDelete), (''index'', ActionConflict)]"
    using demo_clash_run by (auto split: option.splits prod.splits sum.splits)
  have "p_RemotePath demo_profile = ''/srv''" by (simp add: demo_profile_def)
  then obtain patterns remote where
    "walkRemote demo_client demo_dm [] ''/srv'' patterns [] = Some ((remote, None), w)"
    using conflict_deletes_contents [OF demo_safe demo_sort p(1) [unfolded demo_clash_plan_def]]
    by (elim exE conjE) simp
  then show ?thesis using p by (intro exI conjI)
qed

lemma demo_listing: "listing_of demo_ls demo_client"
  by (simp add: listing_of_def demo_client_def)

lemma demo_shallow: "shallow demo_dm ps demo_ls 3 (''/srv'', '''')"
  by (auto simp: numeral_3_eq_3 dir_subs_def demo_ls_def items_subs_def demo_item_def item_rel_def
      list_all_iff)

lemma unlisted_dir_deletes_local_witness:
  "\<exists>r actions w patterns loc. demo_plan False = Some (Inr (r, actions), w) \<and>
     walkLocal demo_dm (fs_Tree demo_fs (p_Context demo_profile) []) (p_Context demo_profile) patterns =
       (None, loc) \<and>
     (\<forall>m f. plain m \<and> map_of loc (StrJoin ''/'' ([''img''] @ [m])) = Some f \<and> \<not> fi_IsDir f \<longrightarrow>
       (\<exists>a \<in> set actions. RelPath a = StrJoin ''/'' ([''img''] @ [m]) \<and> Action a = ActionDelete))"
proof -
  obtain r actions w where p: "demo_plan False = Some (Inr (r, actions), w)"
    "map RelPath actions = [''index'', ''draft'', ''img/logo'']"
    using demo_plan_Some by (elim exE conjE) (rule that)
  have path: "p_RemotePath demo_profile = ''/srv''" by (simp add: demo_profile_def)
  have img: "\<forall>n \<in> set [''img'']. plain n"
    "demo_ls (fst (sub_at (p_RemotePath demo_profile) [''img''])) = Inl (ErrorString ''i/o timeout'')"
    by (simp_all add: path plain_def sub_at_def demo_ls_def)
  show ?thesis
    using unlisted_dir_deletes_local [OF demo_safe demo_sort demo_listing
        demo_shallow [folded path] img p(1) [unfolded demo_plan_def]] p(1)
    by (elim exE conjE) (intro exI conjI)
qed

lemma demo_scan_starts: "walk_run demo_client demo_dm [] [] (walk_init ''/srv'' []) = Some (walk_init ''/srv'' [])"
  by simp

lemma scan_terminates_witness:
  "\<exists>cs st. walk_run demo_client demo_dm [] cs (walk_init ''/srv'' []) = Some st \<and> walk_done st \<and>
     map_of (wk_entries st) = map_of (remote_tree_of demo_dm [] demo_ls 3 ''/srv'')"
  using scan_terminates [OF demo_listing safe_listings_of [OF demo_safe demo_listing] demo_shallow
      demo_scan_starts]
  by (elim conjE exE) (intro exI conjI)

end
