(* ===== verification/Atomic.thy ===== *)
theory Atomic
  imports Transfer_Client
begin

text \<open>
  \<open>writeLocalAtomic\<close> of internal/transfer/atomic.go, over the calls of package \<open>os\<close> and
  \<open>io\<close> it makes, and what it promises: the destination changes in one rename or not at
  all. \<open>'t\<close> is an open temporary file, \<open>'r\<close> a reader.
\<close>

record ('t, 'r, 'w) local_os =
  lo_CreateTemp :: "string \<Rightarrow> string \<Rightarrow> 'w \<Rightarrow> 't res \<times> 'w"
  lo_Name :: "'t \<Rightarrow> string"
  lo_Copy :: "'t \<Rightarrow> 'r \<Rightarrow> 'w \<Rightarrow> (int \<times> goerr option) \<times> 'w"
  lo_Close :: "'t \<Rightarrow> 'w \<Rightarrow> goerr option \<times> 'w"
  lo_Lstat :: "string \<Rightarrow> 'w \<Rightarrow> FileInfo res"
  lo_Chmod :: "string \<Rightarrow> nat \<Rightarrow> 'w \<Rightarrow> goerr option \<times> 'w"
  lo_Chtimes :: "string \<Rightarrow> gotime \<Rightarrow> gotime \<Rightarrow> 'w \<Rightarrow> goerr option \<times> 'w"
  lo_Rename :: "string \<Rightarrow> string \<Rightarrow> 'w \<Rightarrow> goerr option \<times> 'w"
  lo_Remove :: "string \<Rightarrow> 'w \<Rightarrow> goerr option \<times> 'w"

text \<open>0644\<close>

definition newFileMode :: nat where "newFileMode = 420"

definition temp_pattern :: "string \<Rightarrow> string" where
  "temp_pattern dst = ''.'' @ path_Base dst @ ''.*'' @ partialSuffix"

text \<open>\<open>finish\<close>, if there is one, and the first of two errors.\<close>

definition run_finish :: "('w \<Rightarrow> goerr option \<times> 'w) option \<Rightarrow> 'w \<Rightarrow> goerr option \<times> 'w" where
  "run_finish finish w = (case finish of None \<Rightarrow> (None, w) | Some f \<Rightarrow> f w)"

definition first_err :: "goerr option \<Rightarrow> goerr option \<Rightarrow> goerr option" where
  "first_err err err2 = (if err = None then err2 else err)"

text \<open>
  From the moment the temporary file is complete: the mode, the time, the rename. An error
  here, as before, runs the deferred removal of the temporary file.
\<close>

definition commit_temp ::
  "('t, 'r, 'w) local_os \<Rightarrow> string \<Rightarrow> string \<Rightarrow> gotime \<Rightarrow> 'w \<Rightarrow> goerr option \<times> 'w" where
  "commit_temp os tmpName dst mtime w =
    (let mode = (case lo_Lstat os dst w of
                   Inr fi \<Rightarrow> if fi_IsRegular fi then fi_Perm fi else newFileMode
                 | Inl _ \<Rightarrow> newFileMode)
     in case lo_Chmod os tmpName mode w of
          (Some err, w) \<Rightarrow> (Some err, w)
        | (None, w) \<Rightarrow>
            (let w = (if time_IsZero mtime then w else snd (lo_Chtimes os tmpName mtime mtime w))
             in lo_Rename os tmpName dst w))"

definition writeLocalAtomic ::
  "('t, 'r, 'w) local_os \<Rightarrow> string \<Rightarrow> 'r \<Rightarrow> ('w \<Rightarrow> goerr option \<times> 'w) option \<Rightarrow> gotime \<Rightarrow>
   'w \<Rightarrow> (int \<times> goerr option) \<times> 'w" where
  "writeLocalAtomic os dst src finish mtime w =
    (case lo_CreateTemp os (path_Dir dst) (temp_pattern dst) w of
       (Inl err, w) \<Rightarrow> (let (_, w) = run_finish finish w in ((0, Some err), w))
     | (Inr tmp, w) \<Rightarrow>
         (let tmpName = lo_Name os tmp;
              ((n, err), w) = lo_Copy os tmp src w;
              (ferr, w) = run_finish finish w;
              err = first_err err ferr;
              (cerr, w) = lo_Close os tmp w;
              err = first_err err cerr;
              (err, w) = (if err \<noteq> None then (err, w) else commit_temp os tmpName dst mtime w)
          in if err \<noteq> None then ((n, err), snd (lo_Remove os tmpName w))
             else ((n, None), w)))"

section \<open>What the calls promise\<close>

text \<open>
  \<open>rd w p\<close> are the contents of the file that the name \<open>p\<close> has in the local tree, and
  \<open>stream src\<close> what the reader delivers up to its end. \<open>os.CreateTemp\<close> makes a new file
  whose base name is the pattern with its last star replaced; a copy without an error has
  written the whole stream; a failed call of \<open>os\<close> has changed no name, and a copy may
  leave anything in the temporary file.
\<close>

definition os_contract ::
  "('w \<Rightarrow> string \<Rightarrow> string option) \<Rightarrow> ('r \<Rightarrow> string) \<Rightarrow> ('t, 'r, 'w) local_os \<Rightarrow> bool" where
  "os_contract rd stream os \<longleftrightarrow>
    (\<forall>d pre suf w. CHR ''*'' \<notin> set suf \<longrightarrow> (case lo_CreateTemp os d (pre @ ''*'' @ suf) w of
        (Inr t, w') \<Rightarrow> rd w (lo_Name os t) = None \<and> rd w' = (rd w)(lo_Name os t \<mapsto> '''') \<and>
                       (\<exists>rnd. path_Base (lo_Name os t) = pre @ rnd @ suf)
      | (Inl _, w') \<Rightarrow> rd w' = rd w)) \<and>
    (\<forall>t r w. case lo_Copy os t r w of
        ((n, err), w') \<Rightarrow> (\<forall>p. p \<noteq> lo_Name os t \<longrightarrow> rd w' p = rd w p) \<and>
          (err = None \<longrightarrow> rd w' (lo_Name os t) = Some (stream r) \<and> n = int (length (stream r)))) \<and>
    (\<forall>t w. rd (snd (lo_Close os t w)) = rd w) \<and>
    (\<forall>p m w. rd (snd (lo_Chmod os p m w)) = rd w) \<and>
    (\<forall>p a m w. rd (snd (lo_Chtimes os p a m w)) = rd w) \<and>
    (\<forall>p q w. case lo_Rename os p q w of
        (None, w') \<Rightarrow> rd w' = (rd w)(p := None, q := rd w p)
      | (Some _, w') \<Rightarrow> rd w' = rd w) \<and>
    (\<forall>p w. case lo_Remove os p w of
        (None, w') \<Rightarrow> rd w' = (rd w)(p := None)
      | (Some _, w') \<Rightarrow> rd w' = rd w)"

lemma os_contractD:
  assumes "os_contract rd stream os"
  shows
    "CHR ''*'' \<notin> set suf \<Longrightarrow> lo_CreateTemp os d (pre @ ''*'' @ suf) w = (Inr t, w') \<Longrightarrow>
       rd w (lo_Name os t) = None \<and> rd w' = (rd w)(lo_Name os t \<mapsto> '''') \<and>
       (\<exists>rnd. path_Base (lo_Name os t) = pre @ rnd @ suf)"
    "CHR ''*'' \<notin> set suf \<Longrightarrow> lo_CreateTemp os d (pre @ ''*'' @ suf) w = (Inl e, w') \<Longrightarrow>
       rd w' = rd w"
    "lo_Copy os t r w = ((n, err), w') \<Longrightarrow> p \<noteq> lo_Name os t \<Longrightarrow> rd w' p = rd w p"
    "lo_Copy os t r w = ((n, None), w') \<Longrightarrow>
       rd w' (lo_Name os t) = Some (stream r) \<and> n = int (length (stream r))"
    "lo_Close os t w = (err, w') \<Longrightarrow> rd w' = rd w"
    "lo_Chmod os p m w = (err, w') \<Longrightarrow> rd w' = rd w"
    "rd (snd (lo_Chtimes os p a b w)) = rd w"
    "lo_Rename os p q w = (None, w') \<Longrightarrow> rd w' = (rd w)(p := None, q := rd w p)"
    "lo_Rename os p q w = (Some e, w') \<Longrightarrow> rd w' = rd w"
    "lo_Remove os p w = (None, w') \<Longrightarrow> rd w' = (rd w)(p := None)"
    "lo_Remove os p w = (Some e, w') \<Longrightarrow> rd w' = rd w"
proof -
  note c = assms [unfolded os_contract_def]
  show "CHR ''*'' \<notin> set suf \<Longrightarrow> lo_CreateTemp os d (pre @ ''*'' @ suf) w = (Inr t, w') \<Longrightarrow>
       rd w (lo_Name os t) = None \<and> rd w' = (rd w)(lo_Name os t \<mapsto> '''') \<and>
       (\<exists>rnd. path_Base (lo_Name os t) = pre @ rnd @ suf)"
    "CHR ''*'' \<notin> set suf \<Longrightarrow> lo_CreateTemp os d (pre @ ''*'' @ suf) w = (Inl e, w') \<Longrightarrow>
       rd w' = rd w"
    using c [THEN conjunct1, rule_format, where d = d and pre = pre and suf = suf and w = w] by simp_all
  note c = c [THEN conjunct2]
  show "lo_Copy os t r w = ((n, err), w') \<Longrightarrow> p \<noteq> lo_Name os t \<Longrightarrow> rd w' p = rd w p"
    "lo_Copy os t r w = ((n, None), w') \<Longrightarrow>
       rd w' (lo_Name os t) = Some (stream r) \<and> n = int (length (stream r))"
    using c [THEN conjunct1, rule_format, where t = t and r = r and w = w] by simp_all
  note c = c [THEN conjunct2]
  show "lo_Close os t w = (err, w') \<Longrightarrow> rd w' = rd w"
    using c [THEN conjunct1, rule_format, where t = t and w = w] by simp
  note c = c [THEN conjunct2]
  show "lo_Chmod os p m w = (err, w') \<Longrightarrow> rd w' = rd w"
    using c [THEN conjunct1, rule_format, where p = p and m = m and w = w] by simp
  note c = c [THEN conjunct2]
  show "rd (snd (lo_Chtimes os p a b w)) = rd w"
    using c [THEN conjunct1, rule_format, where p = p and a = a and m = b and w = w] .
  note c = c [THEN conjunct2]
  show "lo_Rename os p q w = (None, w') \<Longrightarrow> rd w' = (rd w)(p := None, q := rd w p)"
    "lo_Rename os p q w = (Some e, w') \<Longrightarrow> rd w' = rd w"
    using c [THEN conjunct1, rule_format, where p = p and q = q and w = w] by simp_all
  note c = c [THEN conjunct2]
  show "lo_Remove os p w = (None, w') \<Longrightarrow> rd w' = (rd w)(p := None)"
    "lo_Remove os p w = (Some e, w') \<Longrightarrow> rd w' = rd w"
    using c [rule_format, where p = p and w = w] by simp_all
qed

text \<open>The temporary name is never the destination.\<close>

lemma temp_name_neq:
  assumes "os_contract rd stream os"
    and "lo_CreateTemp os d (temp_pattern dst) w = (Inr t, w')"
  shows "lo_Name os t \<noteq> dst"
proof
  assume eq: "lo_Name os t = dst"
  have "temp_pattern dst = (''.'' @ path_Base dst @ ''.'') @ ''*'' @ partialSuffix"
    by (simp add: temp_pattern_def)
  then obtain rnd where "path_Base dst = (''.'' @ path_Base dst @ ''.'') @ rnd @ partialSuffix"
    using os_contractD(1) [OF assms(1), where d = d and pre = "''.'' @ path_Base dst @ ''.''"
        and suf = partialSuffix and w = w and t = t and w' = w']
      assms(2) eq by (auto simp: partialSuffix_def)
  then have "length (path_Base dst) = length ((''.'' @ path_Base dst @ ''.'') @ rnd @ partialSuffix)"
    by (rule arg_cong)
  then show False by simp
qed

lemma commit_temp_rd:
  assumes os: "os_contract rd stream os" and "commit_temp os t dst mtime w = (err, w')"
  shows "(err = None \<longrightarrow> rd w' = (rd w)(t := None, dst := rd w t)) \<and> (err \<noteq> None \<longrightarrow> rd w' = rd w)"
proof -
  define mode where "mode = (case lo_Lstat os dst w of
      Inr fi \<Rightarrow> if fi_IsRegular fi then fi_Perm fi else newFileMode | Inl _ \<Rightarrow> newFileMode)"
  obtain ce w1 where c: "lo_Chmod os t mode w = (ce, w1)" by fastforce
  note [simp] = os_contractD(7) [OF os]
  have w1: "rd w1 = rd w" using os_contractD(6) [OF os c] .
  define w2 where "w2 = (if time_IsZero mtime then w1 else snd (lo_Chtimes os t mtime mtime w1))"
  have w2: "rd w2 = rd w" by (simp add: w2_def w1)
  show ?thesis
  proof (cases ce)
    case None
    then have "lo_Rename os t dst w2 = (err, w')"
      using assms(2) c by (simp add: commit_temp_def Let_def mode_def w2_def)
    then show ?thesis
      using os_contractD(8,9) [OF os] w2 by (cases err) fastforce+
  next
    case (Some e)
    then show ?thesis using assms(2) c w1 by (auto simp: commit_temp_def Let_def mode_def)
  qed
qed

text \<open>The states a call goes through, for the cases after the temporary file exists.\<close>

lemma writeLocalAtomic_run:
  assumes "lo_CreateTemp os (path_Dir dst) (temp_pattern dst) w = (Inr t, w1)"
    and "lo_Copy os t src w1 = ((n, err), w2)" "run_finish finish w2 = (ferr, w3)"
    and "lo_Close os t w3 = (cerr, w4)"
    and "(if first_err (first_err err ferr) cerr \<noteq> None then (first_err (first_err err ferr) cerr, w4)
          else commit_temp os (lo_Name os t) dst mtime w4) = (err5, w5)"
  shows "writeLocalAtomic os dst src finish mtime w =
    (if err5 \<noteq> None then ((n, err5), snd (lo_Remove os (lo_Name os t) w5)) else ((n, None), w5))"
  unfolding writeLocalAtomic_def assms(1) prod.case sum.case Let_def assms(2-5) ..

lemma first_err_None [simp]: "first_err a b = None \<longleftrightarrow> a = None \<and> b = None"
  by (auto simp: first_err_def)

lemma writeLocalAtomic_rd:
  assumes os: "os_contract rd stream os"
    and fin: "\<And>w. rd (snd (run_finish finish w)) = rd w"
    and run: "writeLocalAtomic os dst src finish mtime w = ((n, err), w')"
  shows "(err = None \<longrightarrow> rd w' = (rd w)(dst \<mapsto> stream src) \<and> n = int (length (stream src))) \<and>
    (err \<noteq> None \<longrightarrow> (\<exists>t. t \<noteq> dst \<and> (\<forall>p. p \<noteq> t \<longrightarrow> rd w' p = rd w p)))"
proof -
  obtain ct w1 where ct: "lo_CreateTemp os (path_Dir dst) (temp_pattern dst) w = (ct, w1)" by fastforce
  have pat: "temp_pattern dst = (''.'' @ path_Base dst @ ''.'') @ ''*'' @ partialSuffix"
    by (simp add: temp_pattern_def)
  have no_star: "CHR ''*'' \<notin> set partialSuffix" by (simp add: partialSuffix_def)
  show ?thesis
  proof (cases ct)
    case (Inl e)
    have "rd w1 = rd w" using os_contractD(2) [OF os no_star ct [unfolded pat Inl]] .
    moreover have "err = Some e" "w' = snd (run_finish finish w1)"
      using run ct Inl by (auto simp: writeLocalAtomic_def Let_def split: prod.splits)
    moreover have "\<exists>t. t \<noteq> dst" by (metis not_Cons_self)
    ultimately show ?thesis using fin by simp
  next
    case (Inr t)
    let ?t = "lo_Name os t"
    have neq: "?t \<noteq> dst" using temp_name_neq [OF os] ct Inr by blast
    have w1: "rd w ?t = None" "rd w1 = (rd w)(?t \<mapsto> '''')"
      using os_contractD(1) [OF os no_star ct [unfolded pat Inr]] by auto
    obtain n0 err0 w2 where cp: "lo_Copy os t src w1 = ((n0, err0), w2)" by (metis prod.exhaust)
    obtain ferr w3 where f: "run_finish finish w2 = (ferr, w3)" by fastforce
    obtain cerr w4 where cl: "lo_Close os t w3 = (cerr, w4)" by fastforce
    let ?err = "first_err (first_err err0 ferr) cerr"
    obtain err5 w5 where cm:
      "(if ?err \<noteq> None then (?err, w4) else commit_temp os ?t dst mtime w4) = (err5, w5)" by fastforce
    have w2: "rd w2 p = rd w p" if "p \<noteq> ?t" for p
      using that os_contractD(3) [OF os cp] w1(2) by simp
    have w4: "rd w4 = rd w2"
      using fin [of w2] f os_contractD(5) [OF os cl] by simp
    have w5: "err5 = None \<Longrightarrow> err0 = None \<and> rd w5 = (rd w4)(?t := None, dst := rd w4 ?t)"
      "err5 \<noteq> None \<Longrightarrow> rd w5 = rd w4"
      using commit_temp_rd [OF os, of ?t dst mtime w4 err5 w5] cm by (auto split: if_splits)
    have run': "writeLocalAtomic os dst src finish mtime w =
        (if err5 \<noteq> None then ((n0, err5), snd (lo_Remove os ?t w5)) else ((n0, None), w5))"
      by (rule writeLocalAtomic_run [OF ct [unfolded Inr] cp f cl cm])
    show ?thesis
    proof (cases err5)
      case None
      then have res: "err = None" "n = n0" "w' = w5" using run run' by auto
      have "rd w2 ?t = Some (stream src)" "n0 = int (length (stream src))"
        using os_contractD(4) [OF os] cp w5(1) None by blast+
      moreover have "rd w5 = (rd w2)(?t := None, dst := rd w2 ?t)" using w5(1) None w4 by simp
      ultimately have "rd w' = (rd w)(dst \<mapsto> stream src)"
        using w2 w1(1) res by (auto simp: fun_eq_iff)
      then show ?thesis using res \<open>n0 = _\<close> by simp
    next
      case (Some e)
      obtain re w6 where rm: "lo_Remove os ?t w5 = (re, w6)" by fastforce
      have res: "err = Some e" "w' = w6" using run run' Some rm by auto
      have "rd w6 p = rd w5 p" if "p \<noteq> ?t" for p
        using that os_contractD(10,11) [OF os] rm by (cases re) fastforce+
      then have "rd w' p = rd w p" if "p \<noteq> ?t" for p
        using that w5(2) Some w4 w2 res by simp
      then show ?thesis using neq res by blast
    qed
  qed
qed

section \<open>The properties\<close>

text \<open>
  C6: A download replaces the local file whole or not at all. When \<open>writeLocalAtomic\<close>
  succeeds, the destination has exactly the stream's bytes, the count returned is their
  number, and no other name in the tree has changed (the temporary file is gone). When it
  fails, at whatever call, at most one name differs from before, and it is not the
  destination: the old file, or its absence, is untouched.
\<close>

theorem writeLocalAtomic_all_or_nothing:
  assumes "os_contract rd stream os" "\<And>w. rd (snd (run_finish finish w)) = rd w"
    and "writeLocalAtomic os dst src finish mtime w = ((n, err), w')"
  shows "(err = None \<longrightarrow> rd w' = (rd w)(dst \<mapsto> stream src) \<and> n = int (length (stream src))) \<and>
    (err \<noteq> None \<longrightarrow> (\<exists>t. t \<noteq> dst \<and> (\<forall>p. p \<noteq> t \<longrightarrow> rd w' p = rd w p)))"
  using writeLocalAtomic_rd [OF assms] .

text \<open>
  \<open>log\<close> is what the calls of \<open>finish\<close> have returned so far.
\<close>

definition logs_finish ::
  "('w \<Rightarrow> goerr option list) \<Rightarrow> ('t, 'r, 'w) local_os \<Rightarrow> ('w \<Rightarrow> goerr option \<times> 'w) \<Rightarrow> bool" where
  "logs_finish log os f \<longleftrightarrow>
    (\<forall>w. log (snd (f w)) = log w @ [fst (f w)]) \<and>
    (\<forall>d p w. log (snd (lo_CreateTemp os d p w)) = log w) \<and>
    (\<forall>t r w. log (snd (lo_Copy os t r w)) = log w) \<and>
    (\<forall>t w. log (snd (lo_Close os t w)) = log w) \<and>
    (\<forall>p m w. log (snd (lo_Chmod os p m w)) = log w) \<and>
    (\<forall>p a m w. log (snd (lo_Chtimes os p a m w)) = log w) \<and>
    (\<forall>p q w. log (snd (lo_Rename os p q w)) = log w) \<and>
    (\<forall>p w. log (snd (lo_Remove os p w)) = log w)"

text \<open>
  \<open>finish\<close> (for FTP: read the server's end-of-transfer reply) is called exactly once,
  also when the temporary file could not be made or the copy failed, and if it returns an
  error the download fails: a transfer the server aborted is never reported as complete.
\<close>

theorem writeLocalAtomic_finish_once:
  assumes log: "logs_finish log os f"
    and run: "writeLocalAtomic os dst src (Some f) mtime w = ((n, err), w')"
  shows "\<exists>e. log w' = log w @ [e] \<and> (err = None \<longrightarrow> e = None)"
proof -
  obtain ct w1 where ct: "lo_CreateTemp os (path_Dir dst) (temp_pattern dst) w = (ct, w1)" by fastforce
  note same = log [unfolded logs_finish_def]
  have w1: "log w1 = log w" using same ct by (metis snd_conv)
  show ?thesis
  proof (cases ct)
    case (Inl e)
    have "err = Some e" "w' = snd (f w1)"
      using run ct Inl by (auto simp: writeLocalAtomic_def run_finish_def split: prod.splits)
    then show ?thesis using same w1 by simp
  next
    case (Inr t)
    obtain n0 err0 w2 where cp: "lo_Copy os t src w1 = ((n0, err0), w2)" by (metis prod.exhaust)
    obtain ferr w3 where f: "f w2 = (ferr, w3)" by fastforce
    obtain cerr w4 where cl: "lo_Close os t w3 = (cerr, w4)" by fastforce
    have "log w2 = log w" using same cp w1 by (metis snd_conv)
    then have w4: "log w4 = log w @ [ferr]" using same f cl by (metis fst_conv snd_conv)
    have commit: "log (snd (commit_temp os p q m v)) = log v" for p q m v
      using same unfolding commit_temp_def Let_def case_prod_beta by (auto split: option.splits)
    let ?err = "first_err (first_err err0 ferr) cerr"
    obtain err5 w5 where cm:
      "(if ?err \<noteq> None then (?err, w4) else commit_temp os (lo_Name os t) dst mtime w4) = (err5, w5)"
      by fastforce
    have w5: "log w5 = log w @ [ferr]"
      using cm w4 commit [of "lo_Name os t" dst mtime w4] by (auto split: if_splits)
    have "((n, err), w') = (if err5 \<noteq> None then ((n0, err5), snd (lo_Remove os (lo_Name os t) w5))
        else ((n0, None), w5))"
      using writeLocalAtomic_run [OF ct [unfolded Inr] cp _ cl cm, of "Some f"] f run
      by (simp add: run_finish_def)
    moreover have "err5 = None \<Longrightarrow> ferr = None" using cm by (auto split: if_splits)
    ultimately show ?thesis using w5 same by (cases err5) auto
  qed
qed

end
