(* ===== verification/Atomic_Example.thy ===== *)
theory Atomic_Example
  imports Atomic
begin

text \<open>
  A local directory in which the calls of \<open>writeLocalAtomic\<close> do what package \<open>os\<close>
  documents, and runs of \<open>writeLocalAtomic\<close> in it. The state is the files and what
  \<open>finish\<close> has returned; a reader is the bytes it delivers and the error it may end with.
\<close>

type_synonym tdir = "(string \<times> string) list \<times> goerr option list"

definition tdir_files :: "tdir \<Rightarrow> string \<Rightarrow> string option" where
  "tdir_files w = map_of (fst w)"

text \<open>The pattern's last star is replaced by \<open>1\<close>; an existing file of that name is an error.\<close>

definition star_split :: "string \<Rightarrow> string \<times> string" where
  "star_split p = (rev (tl (dropWhile (\<lambda>c. c \<noteq> CHR ''*'') (rev p))),
                   rev (takeWhile (\<lambda>c. c \<noteq> CHR ''*'') (rev p)))"

definition td_CreateTemp :: "string \<Rightarrow> string \<Rightarrow> tdir \<Rightarrow> string res \<times> tdir" where
  "td_CreateTemp d pat w =
    (let (pre, suf) = star_split pat; t = d @ ''/'' @ pre @ ''1'' @ suf
     in if ContainsAny pat ''/'' \<or> map_of (fst w) t \<noteq> None
        then (Inl (PathError ''createtemp'' t (Sentinel ErrExist)), w)
        else (Inr t, ((t, '''') # fst w, snd w)))"

definition td_Copy :: "string \<Rightarrow> string \<times> goerr option \<Rightarrow> tdir \<Rightarrow> (int \<times> goerr option) \<times> tdir" where
  "td_Copy t r w = ((int (length (fst r)), snd r), (AList.update t (fst r) (fst w), snd w))"

definition td_Rename :: "string \<Rightarrow> string \<Rightarrow> tdir \<Rightarrow> goerr option \<times> tdir" where
  "td_Rename p q w =
    (case map_of (fst w) p of
       None \<Rightarrow> (Some (PathError ''rename'' p (Errno ENOENT)), w)
     | Some c \<Rightarrow> (None, (AList.update q c (AList.delete p (fst w)), snd w)))"

definition td_Remove :: "string \<Rightarrow> tdir \<Rightarrow> goerr option \<times> tdir" where
  "td_Remove p w =
    (if map_of (fst w) p = None then (Some (PathError ''remove'' p (Errno ENOENT)), w)
     else (None, (AList.delete p (fst w), snd w)))"

definition tdir_os :: "(string, string \<times> goerr option, tdir) local_os" where
  "tdir_os = \<lparr>lo_CreateTemp = td_CreateTemp, lo_Name = (\<lambda>t. t), lo_Copy = td_Copy,
     lo_Close = (\<lambda>t w. (None, w)),
     lo_Lstat = (\<lambda>p w. Inl (PathError ''lstat'' p (Errno ENOENT))),
     lo_Chmod = (\<lambda>p m w. (None, w)), lo_Chtimes = (\<lambda>p a m w. (None, w)),
     lo_Rename = td_Rename, lo_Remove = td_Remove\<rparr>"

definition td_finish :: "goerr option \<Rightarrow> tdir \<Rightarrow> goerr option \<times> tdir" where
  "td_finish e w = (e, (fst w, snd w @ [e]))"

lemma star_split_pattern: "CHR ''*'' \<notin> set suf \<Longrightarrow> star_split (pre @ ''*'' @ suf) = (pre, suf)"
proof -
  assume no: "CHR ''*'' \<notin> set suf"
  then have "dropWhile (\<lambda>c. c \<noteq> CHR ''*'') (rev suf @ CHR ''*'' # rev pre) = CHR ''*'' # rev pre"
    by (subst dropWhile_append2) auto
  moreover have "takeWhile (\<lambda>c. c \<noteq> CHR ''*'') (rev suf @ CHR ''*'' # rev pre) = rev suf"
    using no by (simp add: takeWhile_append takeWhile_all)
  ultimately show ?thesis by (simp add: star_split_def)
qed

lemma path_Base_slash:
  assumes "CHR ''/'' \<notin> set b" "b \<noteq> ''''"
  shows "path_Base (d @ ''/'' @ b) = b"
proof -
  have rb: "dropWhile (\<lambda>c. c = CHR ''/'') (rev b @ x) = rev b @ x" for x
    using assms by (cases b rule: rev_cases) auto
  have "takeWhile (\<lambda>c. c \<noteq> CHR ''/'') (rev b @ CHR ''/'' # rev d) = rev b"
    using assms(1) by (simp add: takeWhile_append takeWhile_all)
  then show ?thesis
    using assms rb [of "CHR ''/'' # rev d"] by (simp add: path_Base_def Let_def path_Split_def)
qed

lemma tdir_contract: "os_contract tdir_files fst tdir_os"
  unfolding os_contract_def tdir_os_def local_os.simps
proof (intro conjI allI impI, goal_cases)
  case (1 d pre suf w)
  let ?t = "d @ ''/'' @ pre @ ''1'' @ suf"
  have "path_Base ?t = pre @ ''1'' @ suf"
    if "\<not> ContainsAny (pre @ ''*'' @ suf) ''/''"
    by (rule path_Base_slash) (use that in \<open>auto simp: ContainsAny_def list_ex_iff\<close>)
  then show ?case
    unfolding td_CreateTemp_def star_split_pattern [OF 1] Let_def prod.case
    by (auto simp: tdir_files_def fun_eq_iff)
next
  case (2 t r w)
  then show ?case by (auto simp: td_Copy_def tdir_files_def update_conv')
next
  case (6 p q w)
  then show ?case
    by (auto simp: td_Rename_def tdir_files_def update_conv' AList.delete_conv' split: option.splits)
next
  case (7 p w)
  then show ?case by (auto simp: td_Remove_def tdir_files_def AList.delete_conv')
qed simp_all

lemma td_finish_files: "tdir_files (snd (run_finish (Some (td_finish e)) w)) = tdir_files w"
  by (simp add: run_finish_def td_finish_def tdir_files_def)

lemma tdir_logs: "logs_finish snd tdir_os (td_finish e)"
  unfolding logs_finish_def tdir_os_def local_os.simps
  by (auto simp: td_finish_def td_CreateTemp_def td_Copy_def td_Rename_def td_Remove_def Let_def
      split: option.splits prod.splits)

section \<open>Runs\<close>

definition td_start :: tdir where
  "td_start = ([(''/site/a.txt'', ''old'')], [])"

text \<open>A download that succeeds, and one whose server reports an aborted transfer.\<close>

definition td_good :: "(int \<times> goerr option) \<times> tdir" where
  "td_good = writeLocalAtomic tdir_os ''/site/a.txt'' (''fresh'', None) (Some (td_finish None)) 7 td_start"

definition td_aborted :: "(int \<times> goerr option) \<times> tdir" where
  "td_aborted = writeLocalAtomic tdir_os ''/site/a.txt'' (''fre'', None)
     (Some (td_finish (Some (TextprotoError 426 ''aborted'')))) 7 td_start"

lemma td_good_run: "fst td_good = (5, None)"
  by code_simp

lemma td_aborted_run: "fst td_aborted = (3, Some (TextprotoError 426 ''aborted''))"
  by code_simp

lemma td_start_files: "tdir_files td_start ''/site/a.txt'' = Some ''old''"
  by code_simp

theorem writeLocalAtomic_all_or_nothing_witness:
  "(\<exists>w. td_good = ((5, None), w) \<and> tdir_files w = (tdir_files td_start)(''/site/a.txt'' \<mapsto> ''fresh'')) \<and>
   (\<exists>e w. td_aborted = ((3, Some e), w) \<and> tdir_files w ''/site/a.txt'' = Some ''old'')"
proof
  note all = writeLocalAtomic_all_or_nothing [OF tdir_contract td_finish_files]
  obtain w where w: "td_good = ((5, None), w)" using td_good_run by (metis prod.collapse)
  show "\<exists>w. td_good = ((5, None), w) \<and> tdir_files w = (tdir_files td_start)(''/site/a.txt'' \<mapsto> ''fresh'')"
    using all [OF w [unfolded td_good_def], THEN conjunct1, THEN mp, OF refl, THEN conjunct1]
    by (intro exI [of _ w] conjI w) simp
  obtain e v where v: "td_aborted = ((3, Some e), v)" using td_aborted_run by (metis prod.collapse)
  obtain t where "t \<noteq> ''/site/a.txt''" "\<forall>p. p \<noteq> t \<longrightarrow> tdir_files v p = tdir_files td_start p"
    using all [OF v [unfolded td_aborted_def], THEN conjunct2, THEN mp, OF option.distinct(2)]
    by (elim exE conjE)
  then have "tdir_files v ''/site/a.txt'' = Some ''old''" using td_start_files by metis
  then show "\<exists>e w. td_aborted = ((3, Some e), w) \<and> tdir_files w ''/site/a.txt'' = Some ''old''"
    by (intro exI [of _ e] exI [of _ v] conjI v)
qed

theorem writeLocalAtomic_finish_once_witness:
  "\<exists>n e w. td_aborted = ((n, Some e), w) \<and> length (snd w) = 1"
proof -
  obtain e v where v: "td_aborted = ((3, Some e), v)" using td_aborted_run by (metis prod.collapse)
  obtain x where "snd v = snd td_start @ [x]"
    using writeLocalAtomic_finish_once [OF tdir_logs v [unfolded td_aborted_def]] by auto
  then have "length (snd v) = 1" by (simp add: td_start_def)
  then show ?thesis by (intro exI [of _ 3] exI [of _ e] exI [of _ v] conjI v)
qed

end
