(* ===== verification/Deadline.thy ===== *)
theory Deadline
  imports Sfync_Prelude "HOL-Library.AList" "HOL-Library.Word"
begin

text \<open>
  internal/transfer/deadline.go: one deadline of a connection for all the operations that
  share it. The tracker's map is an association list (its order, which Go leaves open, is
  shown not to matter), its counter a 64-bit word, and \<open>dt_conn\<close> what the last
  \<open>SetDeadline\<close> on the connection said (0: none).
\<close>

record deadlineTracker =
  dt_conn :: gotime
  dt_active :: "(64 word \<times> gotime) list"
  dt_nextID :: "64 word"

definition newDeadlineTracker :: deadlineTracker where
  "newDeadlineTracker = \<lparr>dt_conn = 0, dt_active = [], dt_nextID = 0\<rparr>"

definition dt_apply :: "deadlineTracker \<Rightarrow> deadlineTracker" where
  "dt_apply t = t\<lparr>dt_conn :=
     fold (\<lambda>(_, dl) latest. if time_After dl latest then dl else latest) (dt_active t) 0\<rparr>"

text \<open>\<open>begin\<close>, and the body its closure runs (once; see \<open>dl_next\<close>).\<close>

definition dt_begin :: "gotime \<Rightarrow> duration \<Rightarrow> deadlineTracker \<Rightarrow> 64 word \<times> deadlineTracker" where
  "dt_begin now d t =
    (let k = dt_nextID t in
     (k, dt_apply (t\<lparr>dt_nextID := k + 1, dt_active := AList.update k (now + d) (dt_active t)\<rparr>)))"

definition dt_end :: "64 word \<Rightarrow> deadlineTracker \<Rightarrow> deadlineTracker" where
  "dt_end k t = dt_apply (t\<lparr>dt_active := AList.delete k (dt_active t)\<rparr>)"

section \<open>Operations that share a connection\<close>

text \<open>
  \<open>dl_ends\<close> are the closures \<open>begin\<close> has returned so far, each with its \<open>sync.Once\<close>
  (true: done). \<open>DEnd i\<close> calls the \<open>i\<close>-th, possibly again.
\<close>

record dl_sys =
  dl_tracker :: deadlineTracker
  dl_ends :: "(64 word \<times> bool) list"

datatype dl_event = DBegin gotime duration | DEnd nat

definition dl_init :: dl_sys where
  "dl_init = \<lparr>dl_tracker = newDeadlineTracker, dl_ends = []\<rparr>"

fun dl_next :: "dl_event \<Rightarrow> dl_sys \<Rightarrow> dl_sys" where
  "dl_next (DBegin now d) s =
    (let (k, t) = dt_begin now d (dl_tracker s)
     in \<lparr>dl_tracker = t, dl_ends = dl_ends s @ [(k, False)]\<rparr>)"
| "dl_next (DEnd i) s =
    (if i < length (dl_ends s) \<and> \<not> snd (dl_ends s ! i) then
       (let k = fst (dl_ends s ! i)
        in \<lparr>dl_tracker = dt_end k (dl_tracker s), dl_ends = (dl_ends s)[i := (k, True)]\<rparr>)
     else s)"

text \<open>
  The specification: the deadlines of the operations in the order they began, those that
  have ended marked \<open>None\<close>; the connection's is the latest of those in flight.
\<close>

fun flight_next :: "dl_event \<Rightarrow> gotime option list \<Rightarrow> gotime option list" where
  "flight_next (DBegin now d) fs = fs @ [Some (now + d)]"
| "flight_next (DEnd i) fs = fs[i := None]"

definition latest_of :: "gotime option list \<Rightarrow> gotime" where
  "latest_of fs = Max (insert 0 {t. Some t \<in> set fs})"

section \<open>Lemmas\<close>

lemma fold_latest:
  "fold (\<lambda>(_, dl) latest. if time_After dl latest then dl else latest) xs a
   = Max (insert a (snd ` set xs))"
proof (induction xs arbitrary: a)
  case (Cons x xs)
  obtain j t where x: "x = (j, t)" by fastforce
  have step: "(if time_After t a then t else a) = max a t" by (simp add: time_After_def max_def)
  have "Max (insert (max a t) (snd ` set xs)) = Max (insert a (insert t (snd ` set xs)))"
    by (cases "xs = []") (simp_all add: max.assoc)
  then show ?case unfolding fold_simps x by (simp add: step Cons.IH)
qed simp

lemma dt_apply_sel [simp]:
  "dt_active (dt_apply t) = dt_active t" "dt_nextID (dt_apply t) = dt_nextID t"
  "dt_conn (dt_apply t) = Max (insert 0 (snd ` set (dt_active t)))"
  by (simp_all add: dt_apply_def fold_latest)

lemma dt_begin_sel [simp]:
  "fst (dt_begin now d t) = dt_nextID t"
  "dt_active (snd (dt_begin now d t)) = AList.update (dt_nextID t) (now + d) (dt_active t)"
  "dt_nextID (snd (dt_begin now d t)) = dt_nextID t + 1"
  "dt_conn (snd (dt_begin now d t)) =
     Max (insert 0 (snd ` set (AList.update (dt_nextID t) (now + d) (dt_active t))))"
  by (simp_all add: dt_begin_def Let_def)

lemma update_in: "(k, v) \<in> set (AList.update k v al)"
  by (induction al) auto

lemma dt_begin_ge: "now + d \<le> dt_conn (snd (dt_begin now d t))"
  unfolding dt_begin_sel by (rule Max_ge) (auto intro: rev_image_eqI [OF update_in])

lemma dt_end_sel [simp]:
  "dt_active (dt_end k t) = AList.delete k (dt_active t)"
  "dt_nextID (dt_end k t) = dt_nextID t"
  "dt_conn (dt_end k t) = Max (insert 0 (snd ` set (AList.delete k (dt_active t))))"
  by (simp_all add: dt_end_def)

text \<open>The \<open>i\<close>-th operation has the identifier \<open>i\<close> and, until it ends, an entry in the map.\<close>

definition dl_inv :: "gotime option list \<Rightarrow> dl_sys \<Rightarrow> bool" where
  "dl_inv fs s \<longleftrightarrow>
     dt_nextID (dl_tracker s) = of_nat (length fs) \<and>
     length (dl_ends s) = length fs \<and>
     (\<forall>i < length fs. dl_ends s ! i = (of_nat i, fs ! i = None)) \<and>
     distinct_keys (dt_active (dl_tracker s)) \<and>
     set (dt_active (dl_tracker s)) = {(of_nat i, t) | i t. i < length fs \<and> fs ! i = Some t} \<and>
     dt_conn (dl_tracker s) = Max (insert 0 (snd ` set (dt_active (dl_tracker s))))"

lemma of_nat_64_inj: "i < 2 ^ 64 \<Longrightarrow> j < 2 ^ 64 \<Longrightarrow> (of_nat i :: 64 word) = of_nat j \<longleftrightarrow> i = j"
  by (simp add: word_of_nat_eq_iff take_bit_nat_eq_self)

lemma dl_next_inv:
  assumes inv: "dl_inv fs s" and n: "length fs < 2 ^ 64"
  shows "dl_inv (flight_next ev fs) (dl_next ev s)"
proof (cases ev)
  case (DBegin now d)
  let ?m = "dt_active (dl_tracker s)"
  have key: "(of_nat (length fs) :: 64 word) \<notin> fst ` set ?m"
  proof
    assume "of_nat (length fs) \<in> fst ` set ?m"
    then obtain i where "i < length fs" "(of_nat (length fs) :: 64 word) = of_nat i"
      using inv by (auto simp: dl_inv_def)
    then show False using n of_nat_64_inj [of "length fs" i] by simp
  qed
  then have upd: "AList.update (of_nat (length fs)) (now + d) ?m = ?m @ [(of_nat (length fs), now + d)]"
    by (rule update_fresh)
  show ?thesis
    using inv key
    by (auto simp: DBegin dl_inv_def Let_def case_prod_beta upd nth_append less_Suc_eq)
next
  case (DEnd i)
  let ?m = "dt_active (dl_tracker s)"
  show ?thesis
  proof (cases "i < length fs \<and> fs ! i \<noteq> None")
    case False
    then have "fs[i := None] = fs" by (metis list_update_beyond list_update_id not_le_imp_less)
    then show ?thesis using inv False by (auto simp: DEnd dl_inv_def)
  next
    case True
    have del: "set (AList.delete (of_nat i) ?m)
        = {(of_nat j, t) | j t. j < length fs \<and> fs[i := None] ! j = Some t}"
    proof -
      have "set (AList.delete (of_nat i) ?m)
          = {(of_nat j, t) | j t. j < length fs \<and> fs ! j = Some t \<and> (of_nat j :: 64 word) \<noteq> of_nat i}"
        using inv unfolding dl_inv_def AList.delete_eq by fastforce
      moreover have "j < length fs \<and> fs ! j = Some t \<and> (of_nat j :: 64 word) \<noteq> of_nat i \<longleftrightarrow>
          j < length fs \<and> fs[i := None] ! j = Some t" for j t
        using True n of_nat_64_inj [of j i] by (cases "j < length fs"; cases "j = i") auto
      ultimately show ?thesis by simp
    qed
    show ?thesis
      using inv True del
      by (auto simp: DEnd dl_inv_def Let_def nth_list_update AList.distinct_delete)
  qed
qed

lemma dl_run_inv:
  "length (fold flight_next evs fs) < 2 ^ 64 \<Longrightarrow> dl_inv fs s \<Longrightarrow>
   dl_inv (fold flight_next evs fs) (fold dl_next evs s)"
proof (induction evs arbitrary: fs s)
  case (Cons ev evs)
  have grow: "length gs \<le> length (fold flight_next es gs)" for es gs
  proof (induction es arbitrary: gs)
    case (Cons e es)
    have "length gs \<le> length (flight_next e gs)" by (cases e) simp_all
    then show ?case using Cons [of "flight_next e gs"] by simp
  qed simp
  have "length fs \<le> length (flight_next ev fs)" by (cases ev) simp_all
  then have "length fs < 2 ^ 64" using grow [of "flight_next ev fs" evs] Cons.prems(1) by simp
  then have "dl_inv (flight_next ev fs) (dl_next ev s)" using dl_next_inv Cons.prems(2) by blast
  then show ?case using Cons by simp
qed simp

lemma dl_inv_init: "dl_inv [] dl_init"
  by (simp add: dl_inv_def dl_init_def newDeadlineTracker_def)

lemma dl_inv_latest: "dl_inv fs s \<Longrightarrow> dt_conn (dl_tracker s) = latest_of fs"
proof -
  assume inv: "dl_inv fs s"
  have "set (dt_active (dl_tracker s)) = {(of_nat i, t) | i t. i < length fs \<and> fs ! i = Some t}"
    and conn: "dt_conn (dl_tracker s) = Max (insert 0 (snd ` set (dt_active (dl_tracker s))))"
    using inv by (simp_all add: dl_inv_def)
  moreover have "snd ` {(of_nat i :: 64 word, t) | i t. i < length fs \<and> fs ! i = Some t}
      = {t. Some t \<in> set fs}"
    unfolding in_set_conv_nth by (auto intro!: image_eqI)
  ultimately show ?thesis by (simp add: latest_of_def)
qed

section \<open>The property\<close>

text \<open>
  C18: The deadline tracker refines its specification. After any sequence of \<open>begin\<close>s and
  calls of the closures they return, in any order and any number of times each (fewer than
  2^64 operations), the deadline the connection was last given is the latest deadline of
  the operations that have begun and not ended, and the zero time, which clears it, when
  there is none. So no operation is cut off by another's shorter or finished budget, and a
  connection with something in flight is never without a deadline.
\<close>

theorem deadline_is_latest:
  assumes "length (fold flight_next evs []) < 2 ^ 64"
  shows "dt_conn (dl_tracker (fold dl_next evs dl_init)) = latest_of (fold flight_next evs [])"
  using dl_run_inv [OF assms dl_inv_init] by (rule dl_inv_latest)

text \<open>A long transfer outlives a short one that began later, and is outlived by nothing.\<close>

lemma deadline_is_latest_witness:
  "\<exists>evs. evs = [DBegin 10 100, DBegin 20 5, DEnd 1, DEnd 1, DBegin 30 1, DEnd 0] \<and>
     dt_conn (dl_tracker (fold dl_next evs dl_init)) = latest_of (fold flight_next evs [])"
  using deadline_is_latest [of "[DBegin 10 100, DBegin 20 5, DEnd 1, DEnd 1, DBegin 30 1, DEnd 0]"]
  by simp

end
