(* ===== verification/Conn_Pool.thy ===== *)
theory Conn_Pool
  imports Go_Errors "HOL-Library.Multiset"
begin

text \<open>
  internal/transfer/connpool.go: the pool of connections of an FTP client. First the
  bodies of its methods, each a function of the fields the mutex guards; then the system
  of a pool and the goroutines that call it, as a step function.
\<close>

section \<open>The pool's fields and methods\<close>

record 'c connPool =
  cp_idle :: "'c list"
  cp_open :: int
  cp_dialing :: int
  cp_dialErr :: "goerr option"
  cp_limit :: int
  cp_capped :: bool
  cp_closed :: bool

definition newConnPool :: "int \<Rightarrow> 'c connPool" where
  "newConnPool limit = \<lparr>cp_idle = [], cp_open = 0, cp_dialing = 0, cp_dialErr = None,
     cp_limit = max limit 1, cp_capped = False, cp_closed = False\<rparr>"

definition seed :: "'c \<Rightarrow> 'c connPool \<Rightarrow> 'c connPool" where
  "seed c p = p\<lparr>cp_open := cp_open p + 1, cp_idle := cp_idle p @ [c]\<rparr>"

text \<open>
  \<open>acquire\<close>. One round of its loop under the lock decides to return a connection or an
  error, to dial (without the lock), or to wait on the condition variable.
\<close>

datatype 'c acq = Got 'c | AcqFail goerr | StartDial | WaitCond

definition acquire_try :: "bool \<Rightarrow> 'c connPool \<Rightarrow> 'c acq \<times> 'c connPool" where
  "acquire_try waited p =
    (if cp_closed p then (AcqFail (Sentinel errPoolClosed), p)
     else if cp_idle p \<noteq> [] then (Got (last (cp_idle p)), p\<lparr>cp_idle := butlast (cp_idle p)\<rparr>)
     else if waited \<and> cp_open p = 0 \<and> cp_dialErr p \<noteq> None then (AcqFail (the (cp_dialErr p)), p)
     else if cp_open p < cp_limit p then
       (StartDial, p\<lparr>cp_open := cp_open p + 1, cp_dialing := cp_dialing p + 1\<rparr>)
     else (WaitCond, p))"

text \<open>
  What \<open>acquire\<close> does when its dial is back: return, fail (closing a connection that came
  too late), or go round again with a lower limit, having called \<open>onCap\<close> with the argument
  of \<open>DRetry\<close> the first time. A failed dial broadcasts.
\<close>

datatype 'c dialled = DGot 'c | DLate 'c | DFail goerr | DRetry "int option"

definition dial_done :: "'c res \<Rightarrow> 'c connPool \<Rightarrow> 'c dialled \<times> 'c connPool" where
  "dial_done r p =
    (let p = p\<lparr>cp_dialing := cp_dialing p - 1\<rparr> in
     case r of
       Inr c \<Rightarrow>
         (let p = p\<lparr>cp_dialErr := None\<rparr> in
          if cp_closed p then (DLate c, p\<lparr>cp_open := cp_open p - 1\<rparr>) else (DGot c, p))
     | Inl e \<Rightarrow>
         (let p = p\<lparr>cp_open := cp_open p - 1\<rparr>;
              established = cp_open p - cp_dialing p
          in if established = 0 then (DFail e, p\<lparr>cp_dialErr := Some e\<rparr>)
             else (DRetry (if cp_capped p then None else Some established),
                   p\<lparr>cp_limit := cp_open p, cp_capped := True\<rparr>)))"

text \<open>\<open>release\<close>: the flag says whether the connection is closed (and all waiters woken).\<close>

definition release :: "'c \<Rightarrow> bool \<Rightarrow> 'c connPool \<Rightarrow> bool \<times> 'c connPool" where
  "release c broken p =
    (if broken \<or> cp_closed p then (True, p\<lparr>cp_open := cp_open p - 1\<rparr>)
     else (False, p\<lparr>cp_idle := cp_idle p @ [c]\<rparr>))"

text \<open>The connection if there is an idle one, and whether the pool is busy.\<close>

definition tryAcquireIdle :: "'c connPool \<Rightarrow> ('c option \<times> bool) \<times> 'c connPool" where
  "tryAcquireIdle p =
    (if cp_idle p \<noteq> [] \<and> \<not> cp_closed p
     then ((Some (last (cp_idle p)), False), p\<lparr>cp_idle := butlast (cp_idle p)\<rparr>)
     else ((None, cp_open p > 0 \<and> \<not> cp_closed p), p))"

text \<open>\<open>closeAll\<close>: the connections it closes.\<close>

definition closeAll :: "'c connPool \<Rightarrow> 'c list \<times> 'c connPool" where
  "closeAll p =
    (if cp_closed p then ([], p)
     else (cp_idle p, p\<lparr>cp_closed := True, cp_idle := [], cp_open := cp_open p - int (length (cp_idle p))\<rparr>))"

section \<open>The pool and its callers\<close>

text \<open>
  Where a goroutine is: outside, at the head of the loop in \<open>acquire\<close> (with the flag
  \<open>waited\<close>), dialing, asleep on the condition variable, with a connection, or with an
  error to return.
\<close>

datatype 'c caller = Out | Try bool | Dialing bool | Asleep | Holding 'c | Failed goerr

text \<open>
  \<open>sys_conns\<close> are the connections ever opened and \<open>sys_closes\<close> those \<open>close\<close> was called
  on, in order.
\<close>

record 'c cp_sys =
  sys_pool :: "'c connPool"
  sys_callers :: "'c caller list"
  sys_conns :: "'c list"
  sys_closes :: "'c list"

definition cp_init :: "nat \<Rightarrow> int \<Rightarrow> 'c \<Rightarrow> 'c cp_sys" where
  "cp_init n limit c = \<lparr>sys_pool = seed c (newConnPool limit), sys_callers = replicate n Out,
     sys_conns = [c], sys_closes = []\<rparr>"

text \<open>
  The steps. The argument of \<open>CRelease\<close> and \<open>CDial\<close> is what the environment does: whether
  the session is broken, what the dial returns; \<open>k\<close> is the sleeper a \<open>Signal\<close> wakes,
  \<open>None\<close> only if there is none.
\<close>

datatype 'c cp_event =
    CAcquire nat | CLoop nat | CDial nat "'c res" | CRelease nat bool "nat option"
  | CTryIdle nat | CCloseAll | CReturn nat

definition wake_all :: "'c caller list \<Rightarrow> 'c caller list" where
  "wake_all = map (\<lambda>p. if p = Asleep then Try True else p)"

definition signal :: "nat option \<Rightarrow> 'c caller list \<Rightarrow> 'c caller list option" where
  "signal k ps =
    (case k of
       None \<Rightarrow> if Asleep \<in> set ps then None else Some ps
     | Some j \<Rightarrow> if j < length ps \<and> ps ! j = Asleep then Some (ps[j := Try True]) else None)"

definition at :: "nat \<Rightarrow> 'c cp_sys \<Rightarrow> 'c caller option" where
  "at i s = (if i < length (sys_callers s) then Some (sys_callers s ! i) else None)"

definition put :: "nat \<Rightarrow> 'c caller \<Rightarrow> 'c connPool \<Rightarrow> 'c cp_sys \<Rightarrow> 'c cp_sys" where
  "put i pc p s = s\<lparr>sys_pool := p, sys_callers := (sys_callers s)[i := pc]\<rparr>"

fun loop_pc :: "'c acq \<Rightarrow> bool \<Rightarrow> 'c caller" where
  "loop_pc (Got c) w = Holding c"
| "loop_pc (AcqFail e) w = Failed e"
| "loop_pc StartDial w = Dialing w"
| "loop_pc WaitCond w = Asleep"

definition do_dial :: "nat \<Rightarrow> bool \<Rightarrow> 'c res \<Rightarrow> 'c cp_sys \<Rightarrow> 'c cp_sys" where
  "do_dial i w r s =
    (case dial_done r (sys_pool s) of
       (DGot c, p) \<Rightarrow> put i (Holding c) p s \<lparr>sys_conns := sys_conns s @ [c]\<rparr>
     | (DLate c, p) \<Rightarrow> put i (Failed (Sentinel errPoolClosed)) p s
         \<lparr>sys_conns := sys_conns s @ [c], sys_closes := sys_closes s @ [c]\<rparr>
     | (DFail e, p) \<Rightarrow> put i (Failed e) p (s\<lparr>sys_callers := wake_all (sys_callers s)\<rparr>)
     | (DRetry _, p) \<Rightarrow> put i (Try w) p (s\<lparr>sys_callers := wake_all (sys_callers s)\<rparr>))"

fun cp_next :: "'c cp_event \<Rightarrow> 'c cp_sys \<Rightarrow> 'c cp_sys option" where
  "cp_next (CAcquire i) s =
    (if at i s = Some Out then Some (put i (Try False) (sys_pool s) s) else None)"
| "cp_next (CLoop i) s =
    (case at i s of
       Some (Try w) \<Rightarrow>
         (case acquire_try w (sys_pool s) of (a, p) \<Rightarrow> Some (put i (loop_pc a w) p s))
     | _ \<Rightarrow> None)"
| "cp_next (CDial i r) s =
    (case at i s of
       Some (Dialing w) \<Rightarrow>
         if (case r of Inr c \<Rightarrow> c \<in> set (sys_conns s) | Inl _ \<Rightarrow> False) then None
         else Some (do_dial i w r s)
     | _ \<Rightarrow> None)"
| "cp_next (CRelease i broken k) s =
    (case at i s of
       Some (Holding c) \<Rightarrow>
         (case release c broken (sys_pool s) of
            (True, p) \<Rightarrow> Some (put i Out p (s\<lparr>sys_callers := wake_all (sys_callers s),
                                              sys_closes := sys_closes s @ [c]\<rparr>))
          | (False, p) \<Rightarrow>
              (case signal k ((sys_callers s)[i := Out]) of
                 None \<Rightarrow> None
               | Some ps \<Rightarrow> Some (s\<lparr>sys_pool := p, sys_callers := ps\<rparr>)))
     | _ \<Rightarrow> None)"
| "cp_next (CTryIdle i) s =
    (if at i s = Some Out then
       (case tryAcquireIdle (sys_pool s) of
          ((Some c, _), p) \<Rightarrow> Some (put i (Holding c) p s)
        | ((None, _), p) \<Rightarrow> Some (s\<lparr>sys_pool := p\<rparr>))
     else None)"
| "cp_next CCloseAll s =
    (case closeAll (sys_pool s) of
       (cs, p) \<Rightarrow> Some (s\<lparr>sys_pool := p, sys_closes := sys_closes s @ cs,
                          sys_callers := wake_all (sys_callers s)\<rparr>))"
| "cp_next (CReturn i) s =
    (case at i s of Some (Failed e) \<Rightarrow> Some (put i Out (sys_pool s) s) | _ \<Rightarrow> None)"

inductive cp_reach :: "nat \<Rightarrow> int \<Rightarrow> 'c \<Rightarrow> 'c cp_sys \<Rightarrow> bool" for n limit c0 where
  cp_start: "cp_reach n limit c0 (cp_init n limit c0)"
| cp_step: "cp_reach n limit c0 s \<Longrightarrow> cp_next ev s = Some t \<Longrightarrow> cp_reach n limit c0 t"

section \<open>The invariant\<close>

fun held1 :: "'c caller \<Rightarrow> 'c list" where
  "held1 (Holding c) = [c]"
| "held1 _ = []"

definition held :: "'c caller list \<Rightarrow> 'c list" where
  "held ps = concat (map held1 ps)"

fun is_dialing :: "'c caller \<Rightarrow> bool" where
  "is_dialing (Dialing _) = True"
| "is_dialing _ = False"

fun is_try :: "'c caller \<Rightarrow> bool" where
  "is_try (Try _) = True"
| "is_try _ = False"

definition n_of :: "('c caller \<Rightarrow> bool) \<Rightarrow> 'c caller list \<Rightarrow> int" where
  "n_of P ps = int (length (filter P ps))"

definition conns_ok :: "'c cp_sys \<Rightarrow> bool" where
  "conns_ok s \<longleftrightarrow> distinct (sys_conns s) \<and>
     mset (sys_conns s) = mset (cp_idle (sys_pool s)) + mset (held (sys_callers s)) + mset (sys_closes s)"

definition counts_ok :: "int \<Rightarrow> 'c cp_sys \<Rightarrow> bool" where
  "counts_ok limit s \<longleftrightarrow>
     (let p = sys_pool s; ps = sys_callers s in
      cp_open p = int (length (cp_idle p)) + int (length (held ps)) + n_of is_dialing ps \<and>
      cp_dialing p = n_of is_dialing ps \<and>
      cp_open p \<le> cp_limit p \<and> 1 \<le> cp_limit p \<and> cp_limit p \<le> max limit 1)"

definition wakeups_ok :: "'c cp_sys \<Rightarrow> bool" where
  "wakeups_ok s \<longleftrightarrow>
     (let p = sys_pool s; ps = sys_callers s in
      (cp_closed p \<longrightarrow> cp_idle p = [] \<and> Asleep \<notin> set ps) \<and>
      (Asleep \<in> set ps \<longrightarrow> cp_open p = cp_limit p \<and> int (length (cp_idle p)) \<le> n_of is_try ps))"

lemma sums_append [simp]:
  "held (xs @ ys) = held xs @ held ys" "held (p # ps) = held1 p @ held ps" "held [] = []"
  "n_of P (xs @ ys) = n_of P xs + n_of P ys"
  "n_of P (p # ps) = (if P p then 1 else 0) + n_of P ps" "n_of P [] = 0"
  by (simp_all add: held_def n_of_def)

lemma n_of_nonneg [simp]: "0 \<le> n_of P ps"
  by (simp add: n_of_def)

lemma wake_all_sums [simp]:
  "held (wake_all ps) = held ps" "n_of is_dialing (wake_all ps) = n_of is_dialing ps"
  "Asleep \<notin> set (wake_all ps)"
  by (induction ps) (auto simp: wake_all_def)

lemma wake_all_append [simp]: "wake_all (xs @ p # ys) = wake_all xs @ (if p = Asleep then Try True else p) # wake_all ys"
  by (simp add: wake_all_def)

lemma length_wake_all [simp]: "length (wake_all ps) = length ps"
  by (simp add: wake_all_def)

lemma at_split:
  assumes "at i s = Some pc"
  obtains xs ys where "sys_callers s = xs @ pc # ys" "length xs = i"
proof -
  have i: "i < length (sys_callers s)" "sys_callers s ! i = pc"
    using assms by (auto simp: at_def split: if_splits)
  show ?thesis
    using that [of "take i (sys_callers s)" "drop (Suc i) (sys_callers s)"]
      id_take_nth_drop [OF i(1)] i by simp
qed

lemma update_split [simp]: "length xs = i \<Longrightarrow> (xs @ p # ys)[i := q] = xs @ q # ys"
  by (simp add: list_update_append)

lemma signal_sums:
  assumes "signal k ps = Some ps'"
  shows "held ps' = held ps" "n_of is_dialing ps' = n_of is_dialing ps"
    "Asleep \<in> set ps' \<Longrightarrow> Asleep \<in> set ps"
    "n_of is_try ps' = n_of is_try ps + (if Asleep \<in> set ps then 1 else 0)"
proof -
  have "held ps' = held ps \<and> n_of is_dialing ps' = n_of is_dialing ps \<and>
      (Asleep \<in> set ps' \<longrightarrow> Asleep \<in> set ps) \<and>
      n_of is_try ps' = n_of is_try ps + (if Asleep \<in> set ps then 1 else 0)"
  proof (cases k)
    case None
    then show ?thesis using assms by (auto simp: signal_def split: if_splits)
  next
    case (Some j)
    then have j: "j < length ps" "ps ! j = Asleep" "ps' = ps[j := Try True]"
      using assms by (auto simp: signal_def split: if_splits)
    obtain xs ys where xs: "ps = xs @ Asleep # ys" "length xs = j"
      using id_take_nth_drop [OF j(1)] j(1,2) by (metis length_take min.absorb4)
    then show ?thesis using j(3) by auto
  qed
  then show "held ps' = held ps" "n_of is_dialing ps' = n_of is_dialing ps"
    "Asleep \<in> set ps' \<Longrightarrow> Asleep \<in> set ps"
    "n_of is_try ps' = n_of is_try ps + (if Asleep \<in> set ps then 1 else 0)"
    by simp_all
qed

definition cp_inv :: "int \<Rightarrow> 'c cp_sys \<Rightarrow> bool" where
  "cp_inv limit s \<longleftrightarrow> conns_ok s \<and> counts_ok limit s \<and> wakeups_ok s"

lemmas cp_inv_defs = cp_inv_def conns_ok_def counts_ok_def wakeups_ok_def Let_def

lemma cp_inv_init: "cp_inv limit (cp_init n limit c0)"
proof -
  have "held (replicate n (Out :: 'a caller)) = []" "n_of is_dialing (replicate n (Out :: 'a caller)) = 0"
    by (induction n) simp_all
  then show ?thesis by (simp add: cp_inv_defs cp_init_def seed_def newConnPool_def)
qed

text \<open>One round of the loop in \<open>acquire\<close>.\<close>

lemma loop_inv:
  assumes "cp_inv limit s" "sys_callers s = xs @ Try w # ys"
    and "acquire_try w (sys_pool s) = (a, p)"
    and "t = s\<lparr>sys_pool := p, sys_callers := xs @ loop_pc a w # ys\<rparr>"
  shows "cp_inv limit t"
proof -
  consider "cp_closed (sys_pool s)"
    | "\<not> cp_closed (sys_pool s)" "cp_idle (sys_pool s) \<noteq> []"
    | "\<not> cp_closed (sys_pool s)" "cp_idle (sys_pool s) = []" by blast
  then show ?thesis
  proof cases
    case 1
    then show ?thesis using assms by (auto simp: cp_inv_defs acquire_try_def)
  next
    case 2
    obtain ids c where idle: "cp_idle (sys_pool s) = ids @ [c]"
      using 2(2) by (cases "cp_idle (sys_pool s)" rule: rev_cases) auto
    have "a = Got c" "p = (sys_pool s)\<lparr>cp_idle := ids\<rparr>"
      using assms(3) 2 idle by (simp_all add: acquire_try_def)
    then show ?thesis using assms(1,2,4) idle by (auto simp: cp_inv_defs)
  next
    case 3
    then show ?thesis using assms
      by (auto simp: cp_inv_defs acquire_try_def split: if_splits)
  qed
qed

text \<open>A dial comes back.\<close>

lemma dial_failed_inv:
  assumes inv: "cp_inv limit s" and cs: "sys_callers s = xs @ Dialing w # ys"
    and p: "cp_open p = cp_open (sys_pool s) - 1" "cp_dialing p = cp_dialing (sys_pool s) - 1"
      "cp_idle p = cp_idle (sys_pool s)" "cp_closed p = cp_closed (sys_pool s)"
    and lim: "cp_limit p = cp_limit (sys_pool s) \<or> cp_limit p = cp_open p \<and> cp_open p \<noteq> cp_dialing p"
    and pc: "held1 pc = []" "\<not> is_dialing pc" "pc \<noteq> Asleep"
  shows "cp_inv limit (s\<lparr>sys_callers := wake_all xs @ pc # wake_all ys, sys_pool := p\<rparr>)"
proof -
  let ?t = "s\<lparr>sys_callers := wake_all xs @ pc # wake_all ys, sys_pool := p\<rparr>"
  let ?I = "int (length (cp_idle (sys_pool s)))"
  let ?H = "int (length (held xs)) + int (length (held ys))"
  let ?D = "n_of is_dialing xs + n_of is_dialing ys"
  have pos: "0 \<le> ?D" by simp
  have old: "cp_dialing (sys_pool s) = ?D + 1" "cp_open (sys_pool s) = ?I + ?H + (?D + 1)"
    "cp_open (sys_pool s) \<le> cp_limit (sys_pool s)" "1 \<le> cp_limit (sys_pool s)"
    "cp_limit (sys_pool s) \<le> max limit 1"
    using inv cs by (simp_all add: cp_inv_defs)
  have "conns_ok ?t" using inv cs p pc by (simp add: cp_inv_def conns_ok_def)
  moreover have "cp_open p \<le> cp_limit p" "1 \<le> cp_limit p" "cp_limit p \<le> max limit 1"
    using lim old p(1,2) pos by (elim disjE; linarith)+
  then have "counts_ok limit ?t" using old p pc by (simp add: counts_ok_def Let_def)
  moreover have "wakeups_ok ?t" using inv cs p pc by (simp add: cp_inv_def wakeups_ok_def Let_def)
  ultimately show ?thesis by (simp add: cp_inv_def)
qed

lemma dial_inv:
  assumes "cp_inv limit s" "sys_callers s = xs @ Dialing w # ys" "length xs = i"
    and "case r of Inr c \<Rightarrow> c \<notin> set (sys_conns s) | Inl _ \<Rightarrow> True"
  shows "cp_inv limit (do_dial i w r s)"
proof (cases r)
  case (Inl e)
  let ?p = "(sys_pool s)\<lparr>cp_dialing := cp_dialing (sys_pool s) - 1, cp_open := cp_open (sys_pool s) - 1\<rparr>"
  show ?thesis
  proof (cases "cp_open ?p = cp_dialing ?p")
    case True
    then have "do_dial i w r s = s\<lparr>sys_callers := wake_all xs @ Failed e # wake_all ys,
        sys_pool := ?p\<lparr>cp_dialErr := Some e\<rparr>\<rparr>"
      using Inl assms(2,3) by (simp add: do_dial_def dial_done_def put_def Let_def)
    then show ?thesis using dial_failed_inv [OF assms(1,2)] by simp
  next
    case False
    then have "do_dial i w r s = s\<lparr>sys_callers := wake_all xs @ Try w # wake_all ys,
        sys_pool := ?p\<lparr>cp_limit := cp_open ?p, cp_capped := True\<rparr>\<rparr>"
      using Inl assms(2,3) by (simp add: do_dial_def dial_done_def put_def Let_def)
    then show ?thesis using dial_failed_inv [OF assms(1,2)] False by simp
  qed
next
  case (Inr c)
  show ?thesis
  proof (cases "cp_closed (sys_pool s)")
    case True
    with assms Inr show ?thesis
      by (simp add: cp_inv_defs do_dial_def dial_done_def put_def)
  next
    case False
    with assms Inr show ?thesis
      by (auto simp: cp_inv_defs do_dial_def dial_done_def put_def)
  qed
qed

text \<open>A connection is given back.\<close>

lemma release_inv:
  assumes "cp_inv limit s" "sys_callers s = xs @ Holding c # ys" "length xs = i"
    and "cp_next (CRelease i broken k) s = Some t"
  shows "cp_inv limit t"
proof (cases "broken \<or> cp_closed (sys_pool s)")
  case True
  have "at i s = Some (Holding c)" using assms(2,3) by (auto simp: at_def)
  then have "s\<lparr>sys_closes := sys_closes s @ [c],
      sys_pool := (sys_pool s)\<lparr>cp_open := cp_open (sys_pool s) - 1\<rparr>,
      sys_callers := wake_all xs @ Out # wake_all ys\<rparr> = t"
    using assms(2-4) True by (simp add: release_def put_def)
  note t = this [symmetric]
  show ?thesis using assms(1,2) by (simp add: cp_inv_defs t)
next
  case False
  have at: "at i s = Some (Holding c)" using assms(2,3) by (auto simp: at_def)
  then obtain ps where ps: "signal k (xs @ Out # ys) = Some ps"
    and t: "t = s\<lparr>sys_pool := (sys_pool s)\<lparr>cp_idle := cp_idle (sys_pool s) @ [c]\<rparr>, sys_callers := ps\<rparr>"
    using assms(2-4) False by (auto simp: release_def split: option.splits)
  show ?thesis
    using assms(1,2) False signal_sums [OF ps] by (auto simp: cp_inv_defs t split: if_splits)
qed

lemma try_idle_inv:
  assumes "cp_inv limit s" "sys_callers s = xs @ Out # ys" "length xs = i"
    and "cp_next (CTryIdle i) s = Some t"
  shows "cp_inv limit t"
proof (cases "cp_idle (sys_pool s) \<noteq> [] \<and> \<not> cp_closed (sys_pool s)")
  case True
  obtain ids c where idle: "cp_idle (sys_pool s) = ids @ [c]"
    using True by (cases "cp_idle (sys_pool s)" rule: rev_cases) auto
  have "t = put i (Holding c) ((sys_pool s)\<lparr>cp_idle := ids\<rparr>) s"
    using assms(2-4) True idle by (auto simp: tryAcquireIdle_def at_def)
  with assms(1-3) idle True show ?thesis by (auto simp: cp_inv_defs put_def)
next
  case False
  then have "t = s" using assms(2-4) by (auto simp: tryAcquireIdle_def at_def)
  with assms(1) show ?thesis by simp
qed

lemma close_all_inv:
  assumes "cp_inv limit s" "cp_next CCloseAll s = Some t"
  shows "cp_inv limit t"
proof (cases "cp_closed (sys_pool s)")
  case True
  then have t: "t = s\<lparr>sys_callers := wake_all (sys_callers s)\<rparr>"
    using assms(2) by (simp add: closeAll_def)
  show ?thesis using assms(1) True by (auto simp: cp_inv_defs t)
next
  case False
  then have t: "t = s\<lparr>sys_pool := (sys_pool s)\<lparr>cp_closed := True, cp_idle := [],
       cp_open := cp_open (sys_pool s) - int (length (cp_idle (sys_pool s)))\<rparr>,
       sys_closes := sys_closes s @ cp_idle (sys_pool s),
       sys_callers := wake_all (sys_callers s)\<rparr>"
    using assms(2) by (simp add: closeAll_def)
  show ?thesis using assms(1) False by (auto simp: cp_inv_defs t)
qed

lemma cp_next_inv:
  assumes "cp_inv limit s" "cp_next ev s = Some t"
  shows "cp_inv limit t"
proof (cases ev)
  case (CAcquire i)
  then have at: "at i s = Some Out" and t: "t = put i (Try False) (sys_pool s) s"
    using assms(2) by (auto split: if_splits)
  obtain xs ys where "sys_callers s = xs @ Out # ys" "length xs = i" using at_split [OF at] .
  then show ?thesis using assms(1) by (auto simp: cp_inv_defs t put_def)
next
  case (CLoop i)
  then obtain w a p where at: "at i s = Some (Try w)" and a: "acquire_try w (sys_pool s) = (a, p)"
    and t: "t = put i (loop_pc a w) p s"
    using assms(2) by (auto split: option.splits caller.splits prod.splits)
  obtain xs ys where "sys_callers s = xs @ Try w # ys" "length xs = i" using at_split [OF at] .
  then show ?thesis using loop_inv [OF assms(1) _ a, of xs ys t] t by (simp add: put_def)
next
  case (CDial i r)
  then obtain w where at: "at i s = Some (Dialing w)" and t: "t = do_dial i w r s"
    and r: "case r of Inr c \<Rightarrow> c \<notin> set (sys_conns s) | Inl _ \<Rightarrow> True"
    using assms(2) by (auto split: option.splits caller.splits if_splits sum.splits)
  obtain xs ys where "sys_callers s = xs @ Dialing w # ys" "length xs = i" using at_split [OF at] .
  then show ?thesis using dial_inv [OF assms(1) _ _ r] t by simp
next
  case (CRelease i broken k)
  then obtain c where at: "at i s = Some (Holding c)"
    using assms(2) by (auto split: option.splits caller.splits)
  obtain xs ys where "sys_callers s = xs @ Holding c # ys" "length xs = i" using at_split [OF at] .
  then show ?thesis using release_inv [OF assms(1)] assms(2) CRelease by blast
next
  case (CTryIdle i)
  then have at: "at i s = Some Out" using assms(2) by (auto split: if_splits)
  obtain xs ys where "sys_callers s = xs @ Out # ys" "length xs = i" using at_split [OF at] .
  then show ?thesis using try_idle_inv [OF assms(1)] assms(2) CTryIdle by blast
next
  case CCloseAll
  then show ?thesis using close_all_inv [OF assms(1)] assms(2) by simp
next
  case (CReturn i)
  then obtain e where at: "at i s = Some (Failed e)" and t: "t = put i Out (sys_pool s) s"
    using assms(2) by (auto split: option.splits caller.splits)
  obtain xs ys where "sys_callers s = xs @ Failed e # ys" "length xs = i" using at_split [OF at] .
  then show ?thesis using assms(1) by (auto simp: cp_inv_defs t put_def)
qed

lemma cp_reach_inv: "cp_reach n limit c0 s \<Longrightarrow> cp_inv limit s"
  by (induction rule: cp_reach.induct) (auto intro: cp_inv_init cp_next_inv)

section \<open>What the pool guarantees\<close>

lemma cp_inv_distinct:
  assumes "cp_inv limit s"
  shows "distinct (cp_idle (sys_pool s) @ held (sys_callers s) @ sys_closes s)"
    and "set (sys_conns s) = set (cp_idle (sys_pool s) @ held (sys_callers s) @ sys_closes s)"
proof -
  have d: "distinct (sys_conns s)"
    and "mset (sys_conns s) = mset (cp_idle (sys_pool s) @ held (sys_callers s) @ sys_closes s)"
    using assms by (simp_all add: cp_inv_def conns_ok_def ac_simps)
  then show "distinct (cp_idle (sys_pool s) @ held (sys_callers s) @ sys_closes s)"
    "set (sys_conns s) = set (cp_idle (sys_pool s) @ held (sys_callers s) @ sys_closes s)"
    using mset_eq_imp_distinct_iff mset_eq_setD by blast+
qed

lemma at_in_held: "at i s = Some (Holding c) \<Longrightarrow> c \<in> set (held (sys_callers s))"
  by (erule at_split) simp

lemma at_put: "at i (put j pc p s) = (if i = j \<and> i < length (sys_callers s) then Some pc else at i s)"
  by (auto simp: at_def put_def)

lemma held_once:
  assumes "distinct (held (sys_callers s))" "at i s = Some (Holding c)" "at j s = Some (Holding c)"
  shows "i = j"
proof (rule ccontr)
  assume ne: "i \<noteq> j"
  obtain xs ys where s: "sys_callers s = xs @ Holding c # ys" "length xs = i" using at_split [OF assms(2)] .
  have j: "j < length (sys_callers s)" "sys_callers s ! j = Holding c"
    using assms(3) by (auto simp: at_def split: if_splits)
  then have *: "(xs @ Holding c # ys) ! j = Holding c" "j \<noteq> length xs" "j < length (xs @ Holding c # ys)"
    using s ne by auto
  have "Holding c \<in> set xs \<union> set ys"
  proof (cases "j < length xs")
    case True
    then show ?thesis using * nth_mem [of j xs] by (simp add: nth_append)
  next
    case False
    then have "j - Suc (length xs) < length ys" "ys ! (j - Suc (length xs)) = Holding c"
      using * by (simp_all add: nth_append)
    then have "Holding c \<in> set ys" by (metis nth_mem)
    then show ?thesis by simp
  qed
  then have "c \<in> set (held xs) \<union> set (held ys)" by (force simp: held_def)
  then show False using assms(1) s(1) by auto
qed

lemma n_of_pos: "0 < n_of P ps \<Longrightarrow> \<exists>j < length ps. P (ps ! j)"
  by (metis filter_False int_ops(1) less_irrefl list.size(3) n_of_def in_set_conv_nth)

text \<open>
  C9: use of a connection is exclusive. In every reachable state of the pool and any
  number of callers a connection is with at most one caller, is then neither idle nor
  closed, none is closed twice, none that was opened is lost, and there are never more
  than the configured number.
\<close>

theorem conn_pool_exclusive:
  assumes "cp_reach n limit c0 s"
  shows "(\<forall>i j c. at i s = Some (Holding c) \<and> at j s = Some (Holding c) \<longrightarrow> i = j) \<and>
    (\<forall>i c. at i s = Some (Holding c) \<longrightarrow> c \<notin> set (cp_idle (sys_pool s)) \<and> c \<notin> set (sys_closes s)) \<and>
    distinct (sys_closes s) \<and>
    set (sys_conns s) = set (cp_idle (sys_pool s)) \<union> set (held (sys_callers s)) \<union> set (sys_closes s) \<and>
    int (length (cp_idle (sys_pool s)) + length (held (sys_callers s))) \<le> max limit 1"
proof -
  have inv: "cp_inv limit s" by (rule cp_reach_inv [OF assms])
  have "int (length (cp_idle (sys_pool s)) + length (held (sys_callers s))) \<le> cp_open (sys_pool s)"
    "cp_open (sys_pool s) \<le> max limit 1"
    using inv n_of_nonneg [of is_dialing "sys_callers s"] by (simp_all add: cp_inv_defs)
  moreover have d: "distinct (held (sys_callers s))" "distinct (sys_closes s)"
    "set (held (sys_callers s)) \<inter> set (cp_idle (sys_pool s)) = {}"
    "set (held (sys_callers s)) \<inter> set (sys_closes s) = {}"
    using cp_inv_distinct(1) [OF inv] by auto
  moreover have "set (sys_conns s) = set (cp_idle (sys_pool s)) \<union> set (held (sys_callers s)) \<union> set (sys_closes s)"
    using cp_inv_distinct(2) [OF inv] by auto
  moreover have "\<forall>i j c. at i s = Some (Holding c) \<and> at j s = Some (Holding c) \<longrightarrow> i = j"
    using held_once [OF d(1)] by blast
  moreover have "\<forall>i c. at i s = Some (Holding c) \<longrightarrow> c \<notin> set (cp_idle (sys_pool s)) \<and> c \<notin> set (sys_closes s)"
    using at_in_held [of _ s] d(3,4) by blast
  moreover have "int (length (cp_idle (sys_pool s)) + length (held (sys_callers s))) \<le> max limit 1"
    using calculation(1,2) by (rule order_trans)
  ultimately show ?thesis by blast
qed

text \<open>
  C33: no wake-up is lost. A caller sleeps in \<open>acquire\<close> only while some caller is on its
  way to re-examine the pool, or every connection the limit allows is in use or being
  dialed, so that its return will signal; and nobody sleeps on a closed pool.
\<close>

theorem conn_pool_no_lost_wakeup:
  assumes "cp_reach n limit c0 s" "at i s = Some Asleep"
  shows "\<not> cp_closed (sys_pool s) \<and>
    ((\<exists>j w. at j s = Some (Try w)) \<or>
     cp_idle (sys_pool s) = [] \<and> cp_open (sys_pool s) = cp_limit (sys_pool s) \<and>
     (\<exists>j. (\<exists>c. at j s = Some (Holding c)) \<or> (\<exists>w. at j s = Some (Dialing w))))"
proof -
  have inv: "cp_inv limit s" by (rule cp_reach_inv [OF assms(1)])
  have asleep: "Asleep \<in> set (sys_callers s)" using assms(2) by (rule at_split) simp
  have closed: "\<not> cp_closed (sys_pool s)" using inv asleep by (auto simp: cp_inv_defs)
  show ?thesis
  proof (cases "0 < n_of is_try (sys_callers s)")
    case True
    then obtain j where "j < length (sys_callers s)" "is_try (sys_callers s ! j)"
      using n_of_pos by blast
    then show ?thesis using closed by (cases "sys_callers s ! j") (auto simp: at_def)
  next
    case False
    have "int (length (cp_idle (sys_pool s))) \<le> n_of is_try (sys_callers s)"
      "cp_open (sys_pool s) = cp_limit (sys_pool s)"
      using inv asleep by (auto simp: cp_inv_defs)
    then have idle: "cp_idle (sys_pool s) = []" "cp_open (sys_pool s) = cp_limit (sys_pool s)"
      using False by (metis linorder_not_less of_nat_le_0_iff order_trans le_zero_eq length_0_conv)+
    have "0 < int (length (held (sys_callers s))) + n_of is_dialing (sys_callers s)"
      using inv idle by (simp add: cp_inv_defs)
    then consider "held (sys_callers s) \<noteq> []" | "0 < n_of is_dialing (sys_callers s)" by fastforce
    then have "\<exists>j. (\<exists>c. at j s = Some (Holding c)) \<or> (\<exists>w. at j s = Some (Dialing w))"
    proof cases
      case 1
      then obtain pc where "pc \<in> set (sys_callers s)" "held1 pc \<noteq> []" by (auto simp: held_def)
      then obtain j where "j < length (sys_callers s)" "held1 (sys_callers s ! j) \<noteq> []"
        by (metis in_set_conv_nth)
      then show ?thesis by (cases "sys_callers s ! j") (auto simp: at_def)
    next
      case 2
      then obtain j where "j < length (sys_callers s)" "is_dialing (sys_callers s ! j)"
        using n_of_pos by blast
      then show ?thesis by (cases "sys_callers s ! j") (auto simp: at_def)
    qed
    then show ?thesis using closed idle by blast
  qed
qed

text \<open>The steps that make a caller fail.\<close>

lemma fails_step:
  assumes "cp_next ev s = Some t" "at i t = Some (Failed e)"
  shows "at i s = Some (Failed e) \<or> (\<exists>w. ev = CLoop i \<and> at i s = Some (Try w)) \<or>
    (\<exists>r w. ev = CDial i r \<and> at i s = Some (Dialing w))"
proof -
  have woken: "at i (s'\<lparr>sys_callers := wake_all (sys_callers s)\<rparr>) = Some (Failed e) \<Longrightarrow>
      at i s = Some (Failed e)" for s'
    by (auto simp: at_def wake_all_def split: if_splits)
  have signalled: "i < length ps \<and> ps ! i = Failed e"
    if "signal k ps = Some ps'" "i < length ps'" "ps' ! i = Failed e" for k ps ps'
    using that by (auto simp: signal_def nth_list_update split: option.splits if_splits)
  show ?thesis
  proof (cases ev)
    case (CAcquire j)
    then show ?thesis using assms by (auto simp: at_put split: if_splits)
  next
    case (CLoop j)
    then obtain w a p where "at j s = Some (Try w)" "t = put j (loop_pc a w) p s"
      using assms(1) by (auto split: option.splits caller.splits prod.splits)
    then show ?thesis using assms(2) CLoop by (auto simp: at_put split: if_splits)
  next
    case (CDial j r)
    then obtain w where w: "at j s = Some (Dialing w)" "t = do_dial j w r s"
      using assms(1) by (auto split: option.splits caller.splits if_splits)
    have len: "length (sys_callers t) = length (sys_callers s)"
      unfolding w(2) do_dial_def by (simp add: put_def split: prod.splits dialled.splits)
    have "i \<noteq> j \<Longrightarrow> i < length (sys_callers s) \<Longrightarrow>
        sys_callers t ! i = sys_callers s ! i \<or> sys_callers t ! i = wake_all (sys_callers s) ! i"
      unfolding w(2) do_dial_def by (simp add: put_def split: prod.splits dialled.splits)
    then have "i \<noteq> j \<Longrightarrow> at i s = Some (Failed e)"
      using assms(2) len by (auto simp: at_def wake_all_def split: if_splits)
    then show ?thesis using w(1) CDial by blast
  next
    case (CRelease j broken k)
    then obtain c where c: "at j s = Some (Holding c)"
      using assms(1) by (auto split: option.splits caller.splits)
    then have j: "j < length (sys_callers s)" "sys_callers s ! j = Holding c"
      by (auto simp: at_def split: if_splits)
    show ?thesis
    proof (cases "fst (release c broken (sys_pool s))")
      case True
      then have "at i t = (if i = j then Some Out else at i (s\<lparr>sys_callers := wake_all (sys_callers s)\<rparr>))"
        using assms(1) CRelease c j by (cases "release c broken (sys_pool s)") (auto simp: at_def put_def)
      then show ?thesis using assms(2) woken [of s] by (auto split: if_splits)
    next
      case False
      then obtain ps p where "signal k ((sys_callers s)[j := Out]) = Some ps" "sys_callers t = ps"
        using assms(1) CRelease c
        by (cases "release c broken (sys_pool s)") (auto split: option.splits)
      then show ?thesis
        using signalled [of k "(sys_callers s)[j := Out]" ps] assms(2) j
        by (auto simp: at_def nth_list_update split: if_splits)
    qed
  next
    case (CTryIdle j)
    then have "at i t = at i s \<or> (\<exists>c. at i t = Some (Holding c))"
      using assms(1) by (auto simp: at_put at_def split: if_splits prod.splits option.splits)
        (auto simp: put_def nth_list_update)
    then show ?thesis using assms(2) by auto
  next
    case CCloseAll
    then show ?thesis using assms by (auto simp: at_def wake_all_def split: prod.splits if_splits)
  next
    case (CReturn j)
    then show ?thesis
      using assms by (auto simp: at_put split: if_splits option.splits caller.splits)
  qed
qed

text \<open>
  A failed dial is an error only when there is nothing to share. When a step makes
  \<open>acquire\<close> fail with anything but the error of a closed pool, no connection is idle or
  with a caller afterwards; otherwise the caller goes on to wait for one.
\<close>

theorem conn_pool_error_only_if_empty:
  assumes "cp_reach n limit c0 s" "cp_next ev s = Some t"
    and "at i t = Some (Failed e)" "at i s \<noteq> Some (Failed e)" "e \<noteq> Sentinel errPoolClosed"
  shows "cp_idle (sys_pool t) = [] \<and> held (sys_callers t) = []"
proof -
  have inv: "cp_inv limit s" "cp_inv limit t"
    using cp_reach_inv [OF assms(1)] cp_reach_inv [OF cp_step [OF assms(1,2)]] by auto
  have empty: "cp_idle (sys_pool t) = [] \<and> held (sys_callers t) = []"
    if "cp_open (sys_pool t) = cp_dialing (sys_pool t)"
  proof -
    have "int (length (cp_idle (sys_pool t))) + int (length (held (sys_callers t))) = 0"
      using that inv(2) by (simp add: cp_inv_def counts_ok_def Let_def)
    then have "length (cp_idle (sys_pool t)) + length (held (sys_callers t)) = 0" by linarith
    then show ?thesis by simp
  qed
  obtain pc where pc: "at i s = Some pc"
    using fails_step [OF assms(2,3)] assms(4) by blast
  consider (loop) w where "ev = CLoop i" "pc = Try w" | (dial) r w where "ev = CDial i r" "pc = Dialing w"
    using fails_step [OF assms(2,3)] assms(4) pc by auto
  then show ?thesis
  proof cases
    case loop
    then obtain a p where a: "acquire_try w (sys_pool s) = (a, p)" and t: "t = put i (loop_pc a w) p s"
      using assms(2) pc by (auto split: prod.splits)
    then have "loop_pc a w = Failed e" using assms(3) by (auto simp: at_def put_def split: if_splits)
    then have "a = AcqFail e" by (cases a) auto
    then have "cp_open (sys_pool s) = 0" "p = sys_pool s"
      using a assms(5) by (auto simp: acquire_try_def split: if_splits)
    moreover have "0 \<le> cp_dialing (sys_pool s)" "cp_dialing (sys_pool s) \<le> cp_open (sys_pool s)"
      using inv(1) by (auto simp: cp_inv_defs)
    ultimately show ?thesis by (intro empty) (simp add: t put_def)
  next
    case dial
    then have t: "t = do_dial i w r s" using assms(2) pc by (auto split: if_splits)
    obtain e' where r: "r = Inl e'"
      using assms(3,5) pc unfolding t
      by (cases r) (auto simp: do_dial_def dial_done_def Let_def at_def put_def split: if_splits)
    have "cp_open (sys_pool s) = cp_dialing (sys_pool s)"
      using assms(3) pc unfolding t r
      by (auto simp: do_dial_def dial_done_def Let_def at_def put_def split: if_splits)
    then show ?thesis
      by (intro empty) (simp add: t r do_dial_def dial_done_def Let_def put_def)
  qed
qed

text \<open>A run of the pool: one connection, two callers, a refused second connection.\<close>

definition cp_demo :: "nat cp_sys option" where
  "cp_demo =
    (let s0 = cp_init 2 4 (0 :: nat) in
     List.foldl (\<lambda>s ev. Option.bind s (cp_next ev)) (Some s0)
       [CAcquire 0, CLoop 0, CAcquire 1, CLoop 1, CDial 1 (Inl (ErrorString ''421 too many'')), CLoop 1])"

definition cp_demo_state :: "nat cp_sys" where
  "cp_demo_state = \<lparr>sys_pool = \<lparr>cp_idle = [], cp_open = 1, cp_dialing = 0, cp_dialErr = None,
     cp_limit = 1, cp_capped = True, cp_closed = False\<rparr>, sys_callers = [Holding 0, Asleep],
     sys_conns = [0], sys_closes = []\<rparr>"

lemma cp_demo_run: "cp_demo = Some cp_demo_state"
  by code_simp

lemma cp_reach_fold:
  "cp_reach n limit c0 s \<Longrightarrow> List.foldl (\<lambda>s ev. Option.bind s (cp_next ev)) (Some s) evs = Some t \<Longrightarrow>
   cp_reach n limit c0 t"
proof (induction evs arbitrary: s)
  case (Cons ev evs)
  show ?case
  proof (cases "cp_next ev s")
    case None
    have "List.foldl (\<lambda>s ev. Option.bind s (cp_next ev)) None evs = None" by (induction evs) simp_all
    then show ?thesis using Cons.prems None by simp
  next
    case (Some s1)
    then show ?thesis using Cons.IH [OF cp_step [OF Cons.prems(1) Some]] Cons.prems(2) by simp
  qed
qed simp

lemma cp_demo_reach: "cp_reach 2 4 0 cp_demo_state"
  using cp_reach_fold [OF cp_start] cp_demo_run unfolding cp_demo_def Let_def .

lemma conn_pool_exclusive_witness:
  "int (length (cp_idle (sys_pool cp_demo_state)) + length (held (sys_callers cp_demo_state))) \<le> 4"
  using conn_pool_exclusive [OF cp_demo_reach] by simp

lemma conn_pool_no_lost_wakeup_witness:
  "at 1 cp_demo_state = Some Asleep \<and>
   (\<exists>j. (\<exists>c. at j cp_demo_state = Some (Holding c)) \<or> (\<exists>w. at j cp_demo_state = Some (Dialing w)) \<or>
        (\<exists>w. at j cp_demo_state = Some (Try w)))"
proof -
  have "at 1 cp_demo_state = Some Asleep" by (simp add: at_def cp_demo_state_def)
  then show ?thesis using conn_pool_no_lost_wakeup [OF cp_demo_reach] by blast
qed

text \<open>The last connection is found broken, and the next dial is refused.\<close>

definition cp_demo2 :: "nat cp_sys" where
  "cp_demo2 = \<lparr>sys_pool = \<lparr>cp_idle = [], cp_open = 1, cp_dialing = 1, cp_dialErr = None,
     cp_limit = 4, cp_capped = False, cp_closed = False\<rparr>, sys_callers = [Dialing False],
     sys_conns = [0], sys_closes = [0]\<rparr>"

lemma cp_demo2_reach: "cp_reach 1 4 0 cp_demo2"
proof -
  have "List.foldl (\<lambda>s ev. Option.bind s (cp_next ev)) (Some (cp_init 1 4 (0 :: nat)))
      [CAcquire 0, CLoop 0, CRelease 0 True None, CAcquire 0, CLoop 0] = Some cp_demo2"
    by code_simp
  from cp_reach_fold [OF cp_start this] show ?thesis .
qed

definition cp_demo3 :: "nat cp_sys" where
  "cp_demo3 = \<lparr>sys_pool = \<lparr>cp_idle = [], cp_open = 0, cp_dialing = 0,
     cp_dialErr = Some (ErrorString ''refused''), cp_limit = 4, cp_capped = False, cp_closed = False\<rparr>,
     sys_callers = [Failed (ErrorString ''refused'')], sys_conns = [0], sys_closes = [0]\<rparr>"

lemma conn_pool_error_only_if_empty_witness:
  "cp_idle (sys_pool cp_demo3) = [] \<and> held (sys_callers cp_demo3) = []"
proof -
  have "cp_next (CDial 0 (Inl (ErrorString ''refused''))) cp_demo2 = Some cp_demo3" by code_simp
  then show ?thesis
    by (rule conn_pool_error_only_if_empty [OF cp_demo2_reach, where i = 0 and e = "ErrorString ''refused''"])
       (simp_all add: at_def cp_demo2_def cp_demo3_def)
qed

end
