(* ===== verification/Sftp.thy ===== *)
theory Sftp
  imports Atomic Deadline Conn_Pool Mirror_WalkRemote
begin

text \<open>
  internal/transfer/sftp.go: the SFTP client. Its state is the record \<open>sftp\<close>; the world
  outside (server, network, local disk) is the field \<open>sc_out\<close>, and the calls of package
  \<open>pkg/sftp\<close> and of the operating system are the fields of \<open>sftp_env\<close>. A call that goes
  over the network is given the deadline its connection has when it is made (0: none),
  which is what decides how long it may block.

  Where another goroutine of the same client can run and change what they share (while this
  one waits for a slot or a session, or opens one), the model takes what the others do from
  a list; when the list is used up the operation has not returned, \<open>None\<close>.
\<close>

type_synonym ('a, 'x) net_call = "gotime \<Rightarrow> 'x \<Rightarrow> 'a \<times> 'x"

text \<open>What a download reads from: the remote file, or bytes already fetched.\<close>

datatype 'f reader = FromRemote 'f | FromBuffer string

record ('s, 'f, 'l, 't, 'x) sftp_env =
  se_now :: "'x \<Rightarrow> gotime"
  se_NewClient :: "int \<Rightarrow> ('s res, 'x) net_call"
  ss_Close :: "'s \<Rightarrow> (goerr option, 'x) net_call"
  ss_Stat :: "'s \<Rightarrow> string \<Rightarrow> (FileInfo res, 'x) net_call"
  ss_ReadDir :: "'s \<Rightarrow> string \<Rightarrow> (FileInfo list res, 'x) net_call"
  ss_OpenFile :: "'s \<Rightarrow> string \<Rightarrow> bool \<Rightarrow> ('f res, 'x) net_call"
  ss_Open :: "'s \<Rightarrow> string \<Rightarrow> ('f res, 'x) net_call"
  ss_HasPosixRename :: "'s \<Rightarrow> 'x \<Rightarrow> bool"
  ss_PosixRename :: "'s \<Rightarrow> string \<Rightarrow> string \<Rightarrow> (goerr option, 'x) net_call"
  ss_Rename :: "'s \<Rightarrow> string \<Rightarrow> string \<Rightarrow> (goerr option, 'x) net_call"
  ss_Remove :: "'s \<Rightarrow> string \<Rightarrow> (goerr option, 'x) net_call"
  ss_Mkdir :: "'s \<Rightarrow> string \<Rightarrow> (goerr option, 'x) net_call"
  ss_RemoveDirectory :: "'s \<Rightarrow> string \<Rightarrow> (goerr option, 'x) net_call"
  ss_Chmod :: "'s \<Rightarrow> string \<Rightarrow> nat \<Rightarrow> (goerr option, 'x) net_call"
  ss_Chtimes :: "'s \<Rightarrow> string \<Rightarrow> gotime \<Rightarrow> (goerr option, 'x) net_call"
  sf_Seek :: "'f \<Rightarrow> int \<Rightarrow> (goerr option, 'x) net_call"
  sf_ReadAt :: "'f \<Rightarrow> int \<Rightarrow> (string \<times> goerr option, 'x) net_call"
  sf_Close :: "'f \<Rightarrow> (goerr option, 'x) net_call"
  io_CopyUp :: "'f \<Rightarrow> 'l \<Rightarrow> (int \<times> goerr option, 'x) net_call"
  ol_Open :: "string \<Rightarrow> 'x \<Rightarrow> 'l res \<times> 'x"
  ol_Stat :: "'l \<Rightarrow> 'x \<Rightarrow> FileInfo res"
  ol_Seek :: "'l \<Rightarrow> int \<Rightarrow> 'x \<Rightarrow> goerr option \<times> 'x"
  ol_Close :: "'l \<Rightarrow> 'x \<Rightarrow> 'x"
  os_MkdirAll :: "string \<Rightarrow> 'x \<Rightarrow> goerr option \<times> 'x"
  se_os :: "gotime \<Rightarrow> ('t, 'f reader, 'x) local_os"

text \<open>
  \<open>sc_sftp\<close> is the primary session. A nil \<open>largeSlots\<close> is \<open>None\<close>, a channel the number of
  slots taken.
\<close>

record ('s, 'x) sftp =
  sc_conn :: bool
  sc_deadlines :: deadlineTracker
  sc_ssh :: bool
  sc_sftp :: "'s option"
  sc_xfer :: "'s connPool option"
  sc_xferDisabled :: bool
  sc_largeSlots :: "nat option"
  sc_packetSize :: int
  sc_out :: 'x

type_synonym ('s, 'f, 'l, 't, 'x, 'a) sftp_op =
  "('s, 'f, 'l, 't, 'x) sftp_env \<Rightarrow> ('s, 'x) sftp \<Rightarrow> 'a \<times> ('s, 'x) sftp"

definition remote :: "('a, 'x) net_call \<Rightarrow> ('s, 'x) sftp \<Rightarrow> 'a \<times> ('s, 'x) sftp" where
  "remote f c = (let (a, x) = f (dt_conn (sc_deadlines c)) (sc_out c) in (a, c\<lparr>sc_out := x\<rparr>))"

definition locally :: "('x \<Rightarrow> 'a \<times> 'x) \<Rightarrow> ('s, 'x) sftp \<Rightarrow> 'a \<times> ('s, 'x) sftp" where
  "locally f c = (let (a, x) = f (sc_out c) in (a, c\<lparr>sc_out := x\<rparr>))"

text \<open>\<open>defer c.deadlines.begin(d)()\<close> around a body, or \<open>begin\<close> and its closure around a call.\<close>

definition within :: "('s, 'f, 'l, 't, 'x) sftp_env \<Rightarrow> duration \<Rightarrow>
    (('s, 'x) sftp \<Rightarrow> 'a \<times> ('s, 'x) sftp) \<Rightarrow> ('s, 'x) sftp \<Rightarrow> 'a \<times> ('s, 'x) sftp" where
  "within env d body c =
    (let (k, t) = dt_begin (se_now env (sc_out c)) d (sc_deadlines c);
         (a, c) = body (c\<lparr>sc_deadlines := t\<rparr>)
     in (a, c\<lparr>sc_deadlines := dt_end k (sc_deadlines c)\<rparr>))"

text \<open>\<open>wrapError(op, err)\<close> on an error result, and on an optional error.\<close>

definition wrap_res :: "string \<Rightarrow> 'a res \<Rightarrow> 'a res" where
  "wrap_res op r = (case r of Inl e \<Rightarrow> Inl (wrap_err op e) | Inr a \<Rightarrow> Inr a)"

definition primary :: "('s, 'x) sftp \<Rightarrow> 's" where
  "primary c = the (sc_sftp c)"

section \<open>Sessions\<close>

definition defaultSFTPPacketSize :: int where "defaultSFTPPacketSize = 32 * 1024"
definition openSSHPacketSize :: int where "openSSHPacketSize = 128 * 1024"

definition sftpPacketSize :: "string \<Rightarrow> int" where
  "sftpPacketSize serverVersion =
    (if HasPrefix serverVersion ''SSH-2.0-OpenSSH_'' then openSSHPacketSize
     else defaultSFTPPacketSize)"

text \<open>The packet size \<open>sftpOptions\<close> configures (the rest of the options is constant).\<close>

definition sftpOptions :: "('s, 'x) sftp \<Rightarrow> int" where
  "sftpOptions c =
    (if sc_packetSize c > defaultSFTPPacketSize then sc_packetSize c else defaultSFTPPacketSize)"

text \<open>What \<open>release\<close> has to give back.\<close>

datatype 's lease = NoSlot | SlotOnly | SlotSession 's

type_synonym ('s, 'x) others = "(('s, 'x) sftp \<Rightarrow> ('s, 'x) sftp) list"

text \<open>
  \<open>c.xfer.acquire()\<close>: the rounds of \<open>Conn_Pool\<close>, with \<open>sftp.NewClient\<close> as the dial. Every
  time the pool's lock is let go (to dial, to wait) the others may run.
\<close>

fun xfer_acquire :: "('s, 'f, 'l, 't, 'x) sftp_env \<Rightarrow> ('s, 'x) others \<Rightarrow> bool \<Rightarrow> ('s, 'x) sftp \<Rightarrow>
    ('s res \<times> ('s, 'x) sftp) option"
and xfer_round :: "('s, 'f, 'l, 't, 'x) sftp_env \<Rightarrow> ('s, 'x) others \<Rightarrow> bool \<Rightarrow>
    's acq \<times> 's connPool \<Rightarrow> ('s, 'x) sftp \<Rightarrow> ('s res \<times> ('s, 'x) sftp) option" where
  "xfer_acquire env gs waited c =
     xfer_round env gs waited (acquire_try waited (the (sc_xfer c))) c"
| "xfer_round env gs waited (Got s, p) c = Some (Inr s, c\<lparr>sc_xfer := Some p\<rparr>)"
| "xfer_round env gs waited (AcqFail e, p) c = Some (Inl e, c\<lparr>sc_xfer := Some p\<rparr>)"
| "xfer_round env [] waited (StartDial, p) c = None"
| "xfer_round env (g # gs) waited (StartDial, p) c =
     (let (r, c) = remote (se_NewClient env (sftpOptions c)) (c\<lparr>sc_xfer := Some p\<rparr>);
          c = g c
      in case dial_done r (the (sc_xfer c)) of
           (DGot s, p) \<Rightarrow> Some (Inr s, c\<lparr>sc_xfer := Some p\<rparr>)
         | (DLate s, p) \<Rightarrow>
             Some (Inl (Sentinel errPoolClosed), snd (remote (ss_Close env s) (c\<lparr>sc_xfer := Some p\<rparr>)))
         | (DFail e, p) \<Rightarrow> Some (Inl e, c\<lparr>sc_xfer := Some p\<rparr>)
         | (DRetry _, p) \<Rightarrow> xfer_acquire env gs waited (c\<lparr>sc_xfer := Some p\<rparr>))"
| "xfer_round env [] waited (WaitCond, p) c = None"
| "xfer_round env (g # gs) waited (WaitCond, p) c =
     xfer_acquire env gs True (g (c\<lparr>sc_xfer := Some p\<rparr>))"

text \<open>\<open>c.largeSlots <- struct\{\}\{\}\<close>: sending to the buffered channel blocks while it is full.\<close>

fun take_slot :: "('s, 'x) others \<Rightarrow> ('s, 'x) sftp \<Rightarrow> (('s, 'x) others \<times> ('s, 'x) sftp) option" where
  "take_slot [] c =
    (if the (sc_largeSlots c) < MaxConcurrentLargeTransfers
     then Some ([], c\<lparr>sc_largeSlots := Some (the (sc_largeSlots c) + 1)\<rparr>) else None)"
| "take_slot (g # gs) c =
    (if the (sc_largeSlots c) < MaxConcurrentLargeTransfers
     then Some (g # gs, c\<lparr>sc_largeSlots := Some (the (sc_largeSlots c) + 1)\<rparr>)
     else take_slot gs (g c))"

definition freeSlot :: "('s, 'x) sftp \<Rightarrow> ('s, 'x) sftp" where
  "freeSlot c = c\<lparr>sc_largeSlots := Some (the (sc_largeSlots c) - 1)\<rparr>"

definition transferSession :: "('s, 'f, 'l, 't, 'x) sftp_env \<Rightarrow> ('s, 'x) others \<Rightarrow> int \<Rightarrow>
    ('s, 'x) sftp \<Rightarrow> (('s \<times> 's lease) \<times> ('s, 'x) sftp) option" where
  "transferSession env gs sz c =
    (if sz < LargeTransferSize \<or> sc_largeSlots c = None then Some ((primary c, NoSlot), c)
     else (case take_slot gs c of
             None \<Rightarrow> None
           | Some (gs, c) \<Rightarrow>
               if sc_xfer c \<noteq> None \<and> \<not> sc_xferDisabled c then
                 (case xfer_acquire env gs False c of
                    None \<Rightarrow> None
                  | Some (Inr s, c) \<Rightarrow> Some ((s, SlotSession s), c)
                  | Some (Inl e, c) \<Rightarrow>
                      (let c = (if \<not> errors_Is e errPoolClosed then c\<lparr>sc_xferDisabled := True\<rparr> else c)
                       in Some ((primary c, SlotOnly), c)))
               else Some ((primary c, SlotOnly), c)))"

text \<open>The function \<open>transferSession\<close> returns along with the session.\<close>

fun release_session :: "('s, 'f, 'l, 't, 'x) sftp_env \<Rightarrow> 's lease \<Rightarrow> goerr option \<Rightarrow>
    ('s, 'x) sftp \<Rightarrow> ('s, 'x) sftp" where
  "release_session env NoSlot err c = c"
| "release_session env SlotOnly err c = freeSlot c"
| "release_session env (SlotSession s) err c =
    (case release s (sftpSessionBroken err) (the (sc_xfer c)) of
       (closed, p) \<Rightarrow>
         (let c = c\<lparr>sc_xfer := Some p\<rparr>;
              c = (if closed then snd (remote (ss_Close env s) c) else c)
          in freeSlot c))"

section \<open>Metadata\<close>

definition fileInfoToRemote :: "FileInfo \<Rightarrow> string \<Rightarrow> RemoteFileInfo" where
  "fileInfoToRemote info relPath =
    \<lparr>ri_Name = fi_Name info, ri_Path = relPath, ri_Size = fi_Size info,
     ri_ModTime = fi_ModTime info, ri_IsDir = fi_IsDir info,
     ri_Mode = (fi_Kind info, fi_Perm info), ri_ModTimePrecision = 0\<rparr>"

definition sftp_IsAlive :: "('s, 'f, 'l, 't, 'x, bool) sftp_op" where
  "sftp_IsAlive env c =
    (if sc_sftp c = None then (False, c)
     else within env AliveTimeout (\<lambda>c.
            let (r, c) = remote (ss_Stat env (primary c) ''.'') c
            in ((case r of Inl _ \<Rightarrow> False | Inr _ \<Rightarrow> True), c)) c)"

definition sftp_Stat :: "string \<Rightarrow> ('s, 'f, 'l, 't, 'x, RemoteFileInfo res) sftp_op" where
  "sftp_Stat remotePath env c =
    within env OperationTimeout (\<lambda>c.
      let (r, c) = remote (ss_Stat env (primary c) remotePath) c
      in (case r of
            Inl err \<Rightarrow> (Inl (wrap_err ''stat'' err), c)
          | Inr info \<Rightarrow> (Inr (fileInfoToRemote info ''''), c))) c"

text \<open>The loop of \<open>ReadDir\<close>.\<close>

definition keep_entry :: "FileInfo \<Rightarrow> bool" where
  "keep_entry entry \<longleftrightarrow> fi_Kind entry \<noteq> KSymlink \<and> isSafeEntryName (fi_Name entry)"

definition sftp_ReadDir :: "string \<Rightarrow> ('s, 'f, 'l, 't, 'x, RemoteFileInfo list res) sftp_op" where
  "sftp_ReadDir remotePath env c =
    within env ReadDirTimeout (\<lambda>c.
      let (r, c) = remote (ss_ReadDir env (primary c) remotePath) c
      in (case r of
            Inl err \<Rightarrow> (Inl (wrap_err ''readdir'' err), c)
          | Inr entries \<Rightarrow>
              (Inr (map (\<lambda>entry. fileInfoToRemote entry '''') (filter keep_entry entries)), c))) c"

text \<open>The operations that are one call under \<open>OperationTimeout\<close>.\<close>

definition one_call :: "string \<Rightarrow> ('s \<Rightarrow> (goerr option, 'x) net_call) \<Rightarrow>
    ('s, 'f, 'l, 't, 'x, goerr option) sftp_op" where
  "one_call op call env c =
    within env OperationTimeout (\<lambda>c.
      let (err, c) = remote (call (primary c)) c in (wrapError op err, c)) c"

definition sftp_Mkdir :: "string \<Rightarrow> ('s, 'f, 'l, 't, 'x, goerr option) sftp_op" where
  "sftp_Mkdir remotePath env c = one_call ''mkdir'' (\<lambda>s. ss_Mkdir env s remotePath) env c"

definition sftp_Remove :: "string \<Rightarrow> ('s, 'f, 'l, 't, 'x, goerr option) sftp_op" where
  "sftp_Remove remotePath env c = one_call ''remove'' (\<lambda>s. ss_Remove env s remotePath) env c"

definition sftp_RemoveDir :: "string \<Rightarrow> ('s, 'f, 'l, 't, 'x, goerr option) sftp_op" where
  "sftp_RemoveDir remotePath env c = one_call ''rmdir'' (\<lambda>s. ss_RemoveDirectory env s remotePath) env c"

definition sftp_Chmod :: "string \<Rightarrow> nat \<Rightarrow> ('s, 'f, 'l, 't, 'x, goerr option) sftp_op" where
  "sftp_Chmod remotePath mode env c = one_call ''chmod'' (\<lambda>s. ss_Chmod env s remotePath mode) env c"

definition removeQuiet :: "('s, 'f, 'l, 't, 'x) sftp_env \<Rightarrow> 's \<Rightarrow> string \<Rightarrow> ('s, 'x) sftp \<Rightarrow> ('s, 'x) sftp" where
  "removeQuiet env sess remotePath c =
    snd (within env OperationTimeout (remote (ss_Remove env sess remotePath)) c)"

text \<open>\<open>MkdirAll\<close>: a quick look, then component by component.\<close>

definition stat_within :: "string \<Rightarrow> ('s, 'f, 'l, 't, 'x, FileInfo res) sftp_op" where
  "stat_within p env c = within env OperationTimeout (\<lambda>c. remote (ss_Stat env (primary c) p) c) c"

definition mkdir_within :: "string \<Rightarrow> ('s, 'f, 'l, 't, 'x, goerr option) sftp_op" where
  "mkdir_within p env c = within env OperationTimeout (\<lambda>c. remote (ss_Mkdir env (primary c) p) c) c"

fun mkdir_components :: "('s, 'f, 'l, 't, 'x) sftp_env \<Rightarrow> string \<Rightarrow> string list \<Rightarrow> ('s, 'x) sftp \<Rightarrow>
    goerr option \<times> ('s, 'x) sftp" where
  "mkdir_components env current [] c = (None, c)"
| "mkdir_components env current (component # components) c =
    (if component = '''' then mkdir_components env ''/'' components c
     else
       (let current = (if current = ''/'' then ''/'' @ component else current @ ''/'' @ component)
        in case stat_within current env c of
             (Inr _, c) \<Rightarrow> mkdir_components env current components c
           | (Inl _, c) \<Rightarrow>
               (case mkdir_within current env c of
                  (None, c) \<Rightarrow> mkdir_components env current components c
                | (Some mkErr, c) \<Rightarrow>
                    (case stat_within current env c of
                       (Inr _, c) \<Rightarrow> mkdir_components env current components c
                     | (Inl _, c) \<Rightarrow> (wrapError ''mkdir'' (Some mkErr), c)))))"

definition sftp_MkdirAll :: "string \<Rightarrow> ('s, 'f, 'l, 't, 'x, goerr option) sftp_op" where
  "sftp_MkdirAll remotePath env c =
    (case stat_within remotePath env c of
       (r, c) \<Rightarrow>
         if (case r of Inr info \<Rightarrow> fi_IsDir info | Inl _ \<Rightarrow> False) then (None, c)
         else mkdir_components env '''' (Split CHR ''/'' remotePath) c)"

end
