(* ===== verification/Sftp_Transfer.thy ===== *)
theory Sftp_Transfer
  imports Sftp
begin

text \<open>
  Uploads and downloads of internal/transfer/sftp.go. \<open>gs\<close> is what other goroutines do
  while a session is awaited (see \<open>Sftp\<close>); \<open>ord\<close> is the order in which the three calls that
  \<open>uploadOn\<close> runs concurrently reach the server.
\<close>

section \<open>Upload\<close>

definition sftpReplace :: "('s, 'f, 'l, 't, 'x) sftp_env \<Rightarrow> 's \<Rightarrow> string \<Rightarrow> string \<Rightarrow>
    ('s, 'x) sftp \<Rightarrow> goerr option \<times> ('s, 'x) sftp" where
  "sftpReplace env sess src dst c =
    (if ss_HasPosixRename env sess (sc_out c) then remote (ss_PosixRename env sess src dst) c
     else (case remote (ss_Rename env sess src dst) c of
             (None, c) \<Rightarrow> (None, c)
           | (Some _, c) \<Rightarrow>
               (case remote (ss_Remove env sess dst) c of
                  (Some err, c) \<Rightarrow>
                    if \<not> errors_Is err ErrNotExist then (Some err, c)
                    else remote (ss_Rename env sess src dst) c
                | (None, c) \<Rightarrow> remote (ss_Rename env sess src dst) c)))"

text \<open>Closing the handle, \<open>Chmod\<close> and \<open>Chtimes\<close>; only the first error matters later.\<close>

datatype finishing = FinClose | FinChmod | FinChtimes

fun run_finishing :: "('s, 'f, 'l, 't, 'x) sftp_env \<Rightarrow> 's \<Rightarrow> 'f \<Rightarrow> string \<Rightarrow> FileInfo \<Rightarrow>
    finishing list \<Rightarrow> goerr option \<Rightarrow> ('s, 'x) sftp \<Rightarrow> goerr option \<times> ('s, 'x) sftp" where
  "run_finishing env sess f partial info [] closeErr c = (closeErr, c)"
| "run_finishing env sess f partial info (FinClose # fs) closeErr c =
     (let (e, c) = remote (sf_Close env f) c in run_finishing env sess f partial info fs e c)"
| "run_finishing env sess f partial info (FinChmod # fs) closeErr c =
     (let (_, c) = remote (ss_Chmod env sess partial (fi_Perm info)) c
      in run_finishing env sess f partial info fs closeErr c)"
| "run_finishing env sess f partial info (FinChtimes # fs) closeErr c =
     (let (_, c) = remote (ss_Chtimes env sess partial (fi_ModTime info)) c
      in run_finishing env sess f partial info fs closeErr c)"

text \<open>The offset an upload starts at.\<close>

definition resume_offset :: "('s, 'f, 'l, 't, 'x) sftp_env \<Rightarrow> 's \<Rightarrow> string \<Rightarrow> FileInfo \<Rightarrow> bool \<Rightarrow>
    ('s, 'x) sftp \<Rightarrow> int \<times> ('s, 'x) sftp" where
  "resume_offset env sess partial localInfo resume c =
    (if resume then
       (case within env OperationTimeout (remote (ss_Stat env sess partial)) c of
          (Inr partialInfo, c) \<Rightarrow>
            (if canResumePartial (fi_Size partialInfo) (fi_ModTime partialInfo) localInfo
             then fi_Size partialInfo else 0, c)
        | (Inl _, c) \<Rightarrow> (0, c))
     else (0, c))"

text \<open>Open the partial, position both files, copy: the handle and the first error.\<close>

definition send_data :: "('s, 'f, 'l, 't, 'x) sftp_env \<Rightarrow> 'f \<Rightarrow> 'l \<Rightarrow> int \<Rightarrow>
    ('s, 'x) sftp \<Rightarrow> goerr option \<times> ('s, 'x) sftp" where
  "send_data env f l offset c =
    (let (err, c) =
       (if offset > 0 then
          (case locally (ol_Seek env l offset) c of
             (None, c) \<Rightarrow> remote (sf_Seek env f offset) c
           | (Some e, c) \<Rightarrow> (Some e, c))
        else (None, c))
     in if err = None then (let ((n, e), c) = remote (io_CopyUp env f l) c in (e, c)) else (err, c))"

definition drop_partial :: "('s, 'f, 'l, 't, 'x) sftp_env \<Rightarrow> 's \<Rightarrow> string \<Rightarrow> bool \<Rightarrow>
    ('s, 'x) sftp \<Rightarrow> ('s, 'x) sftp" where
  "drop_partial env sess partial resume c = (if \<not> resume then removeQuiet env sess partial c else c)"

definition upload_data :: "('s, 'f, 'l, 't, 'x) sftp_env \<Rightarrow> finishing list \<Rightarrow> 's \<Rightarrow> string \<Rightarrow> 'l \<Rightarrow>
    FileInfo \<Rightarrow> string \<Rightarrow> bool \<Rightarrow> int \<Rightarrow> ('s, 'x) sftp \<Rightarrow> goerr option \<times> ('s, 'x) sftp" where
  "upload_data env ord sess op l localInfo remotePath resume offset c =
    (let partial = remotePartialPath remotePath in
     case remote (ss_OpenFile env sess partial (offset = 0)) c of
       (Inl err, c) \<Rightarrow> (wrapError op (Some err), c)
     | (Inr f, c) \<Rightarrow>
         (case send_data env f l offset c of
            (Some err, c) \<Rightarrow>
              (let c = snd (remote (sf_Close env f) c);
                   c = drop_partial env sess partial resume c
               in (wrapError op (Some err), c))
          | (None, c) \<Rightarrow>
              (case run_finishing env sess f partial localInfo ord None c of
                 (Some closeErr, c) \<Rightarrow>
                   (wrapError op (Some closeErr), drop_partial env sess partial resume c)
               | (None, c) \<Rightarrow>
                   (case sftpReplace env sess partial remotePath c of
                      (Some err, c) \<Rightarrow> (wrapError op (Some err), removeQuiet env sess partial c)
                    | (None, c) \<Rightarrow> (None, c)))))"

definition uploadOn :: "('s, 'f, 'l, 't, 'x) sftp_env \<Rightarrow> finishing list \<Rightarrow> 's \<Rightarrow> string \<Rightarrow> 'l \<Rightarrow>
    FileInfo \<Rightarrow> string \<Rightarrow> bool \<Rightarrow> ('s, 'x) sftp \<Rightarrow> goerr option \<times> ('s, 'x) sftp" where
  "uploadOn env ord sess op l localInfo remotePath resume c =
    (let (offset, c) = resume_offset env sess (remotePartialPath remotePath) localInfo resume c
     in within env (TransferTimeout (fi_Size localInfo - offset))
          (upload_data env ord sess op l localInfo remotePath resume offset) c)"

definition upload_op :: "bool \<Rightarrow> string" where
  "upload_op resume = (if resume then ''resume'' else ''upload'')"

definition sftp_upload :: "('s, 'f, 'l, 't, 'x) sftp_env \<Rightarrow> ('s, 'x) others \<Rightarrow> finishing list \<Rightarrow>
    string \<Rightarrow> string \<Rightarrow> bool \<Rightarrow> ('s, 'x) sftp \<Rightarrow> (goerr option \<times> ('s, 'x) sftp) option" where
  "sftp_upload env gs ord localPath remotePath resume c =
    (let op = upload_op resume in
     case locally (ol_Open env localPath) c of
       (Inl err, c) \<Rightarrow> Some (wrapError op (Some err), c)
     | (Inr l, c) \<Rightarrow>
         (case ol_Stat env l (sc_out c) of
            Inl err \<Rightarrow> Some (wrapError op (Some err), c\<lparr>sc_out := ol_Close env l (sc_out c)\<rparr>)
          | Inr localInfo \<Rightarrow>
              (case transferSession env gs (fi_Size localInfo) c of
                 None \<Rightarrow> None
               | Some ((sess, grant), c) \<Rightarrow>
                   (let (err, c) = uploadOn env ord sess op l localInfo remotePath resume c;
                        c = release_session env grant err c
                    in Some (err, c\<lparr>sc_out := ol_Close env l (sc_out c)\<rparr>)))))"

definition sftp_Upload :: "('s, 'f, 'l, 't, 'x) sftp_env \<Rightarrow> ('s, 'x) others \<Rightarrow> finishing list \<Rightarrow>
    string \<Rightarrow> string \<Rightarrow> ('s, 'x) sftp \<Rightarrow> (goerr option \<times> ('s, 'x) sftp) option" where
  "sftp_Upload env gs ord localPath remotePath = sftp_upload env gs ord localPath remotePath False"

definition sftp_UploadResume :: "('s, 'f, 'l, 't, 'x) sftp_env \<Rightarrow> ('s, 'x) others \<Rightarrow> finishing list \<Rightarrow>
    string \<Rightarrow> string \<Rightarrow> ('s, 'x) sftp \<Rightarrow> (goerr option \<times> ('s, 'x) sftp) option" where
  "sftp_UploadResume env gs ord localPath remotePath = sftp_upload env gs ord localPath remotePath True"

section \<open>Download\<close>

text \<open>
  A download returns or panics: \<open>make([]byte, size)\<close> does for a negative \<open>size\<close>, which a
  server can cause (sizes are unsigned on the wire and \<open>FileInfo.Size\<close> is signed).
\<close>

datatype outcome = Returned "goerr option" | Panicked

text \<open>
  What \<open>downloadOn\<close> does once the remote file is open. The handle of a small file is closed
  by a goroutine of its own; the model closes it right after the read, which changes neither
  the data nor the local tree.
\<close>

definition fetch_small :: "('s, 'f, 'l, 't, 'x) sftp_env \<Rightarrow> 'f \<Rightarrow> int \<Rightarrow> ('s, 'x) sftp \<Rightarrow>
    string res \<times> ('s, 'x) sftp" where
  "fetch_small env f sz c =
    (let ((buf, rerr), c) = remote (sf_ReadAt env f sz) c;
         c = snd (remote (sf_Close env f) c)
     in case rerr of
          Some e \<Rightarrow> if \<not> errors_Is e ErrEOF then (Inl (wrap_err ''download'' e), c) else (Inr buf, c)
        | None \<Rightarrow> (Inr buf, c))"

definition store_local :: "('s, 'f, 'l, 't, 'x) sftp_env \<Rightarrow> string \<Rightarrow> 'f reader \<Rightarrow> gotime \<Rightarrow>
    ('s, 'x) sftp \<Rightarrow> goerr option \<times> ('s, 'x) sftp" where
  "store_local env localPath src mtime c =
    (let ((n, err), c) = remote (\<lambda>d. writeLocalAtomic (se_os env d) localPath src None mtime) c
     in (wrapError ''download'' err, c))"

definition download_data :: "('s, 'f, 'l, 't, 'x) sftp_env \<Rightarrow> 's \<Rightarrow> string \<Rightarrow> string \<Rightarrow> int \<Rightarrow> gotime \<Rightarrow>
    ('s, 'x) sftp \<Rightarrow> outcome \<times> ('s, 'x) sftp" where
  "download_data env sess remotePath localPath sz mtime c =
    (case remote (ss_Open env sess remotePath) c of
       (Inl err, c) \<Rightarrow> (Returned (wrapError ''download'' (Some err)), c)
     | (Inr f, c) \<Rightarrow>
         if sz \<le> sc_packetSize c then
           (if sz < 0 then (Panicked, c)
            else (case fetch_small env f sz c of
                    (Inl err, c) \<Rightarrow> (Returned (Some err), c)
                  | (Inr buf, c) \<Rightarrow>
                      (let (err, c) = store_local env localPath (FromBuffer buf) mtime c
                       in (Returned err, c))))
         else
           (let (err, c) = store_local env localPath (FromRemote f) mtime c
            in (Returned err, snd (remote (sf_Close env f) c))))"

definition downloadOn :: "('s, 'f, 'l, 't, 'x) sftp_env \<Rightarrow> 's \<Rightarrow> string \<Rightarrow> string \<Rightarrow> int \<Rightarrow> gotime \<Rightarrow>
    ('s, 'x) sftp \<Rightarrow> outcome \<times> ('s, 'x) sftp" where
  "downloadOn env sess remotePath localPath sz mtime =
    within env (TransferTimeout sz) (download_data env sess remotePath localPath sz mtime)"

text \<open>\<open>release(err)\<close> is not deferred, so a panic passes it by.\<close>

definition sftp_DownloadKnown :: "('s, 'f, 'l, 't, 'x) sftp_env \<Rightarrow> ('s, 'x) others \<Rightarrow> string \<Rightarrow> string \<Rightarrow>
    int \<Rightarrow> gotime \<Rightarrow> ('s, 'x) sftp \<Rightarrow> (outcome \<times> ('s, 'x) sftp) option" where
  "sftp_DownloadKnown env gs remotePath localPath sz mtime c =
    (case locally (os_MkdirAll env (path_Dir localPath)) c of
       (Some err, c) \<Rightarrow> Some (Returned (wrapError ''download'' (Some err)), c)
     | (None, c) \<Rightarrow>
         (case transferSession env gs sz c of
            None \<Rightarrow> None
          | Some ((sess, grant), c) \<Rightarrow>
              (case downloadOn env sess remotePath localPath sz mtime c of
                 (Panicked, c) \<Rightarrow> Some (Panicked, c)
               | (Returned err, c) \<Rightarrow> Some (Returned err, release_session env grant err c))))"

definition sftp_Download :: "('s, 'f, 'l, 't, 'x) sftp_env \<Rightarrow> ('s, 'x) others \<Rightarrow> string \<Rightarrow> string \<Rightarrow>
    ('s, 'x) sftp \<Rightarrow> (outcome \<times> ('s, 'x) sftp) option" where
  "sftp_Download env gs remotePath localPath c =
    (case stat_within remotePath env c of
       (Inl err, c) \<Rightarrow> Some (Returned (wrapError ''download'' (Some err)), c)
     | (Inr info, c) \<Rightarrow>
         sftp_DownloadKnown env gs remotePath localPath (fi_Size info) (fi_ModTime info) c)"

end
