(* ===== verification/Sftp_Atomic.thy ===== *)
theory Sftp_Atomic
  imports Sftp_Transfer
begin

text \<open>
  What an SFTP upload does to the files of the server: the contract of the calls it makes,
  stated over a view of the outside world, and the theorem that the live file changes only
  by one replacement with complete contents.
\<close>

section \<open>The calls' contract\<close>

text \<open>
  \<open>fv_rd x p\<close>: the contents of the file \<open>p\<close> on the server, \<open>fv_dir x p\<close>: \<open>p\<close> is not a file.
  For an open handle, \<open>fv_path\<close> its name, \<open>fv_pos\<close> its position and \<open>fv_buf\<close> the contents
  the file has once the handle is closed without an error (writes are pipelined, so before
  that the file may hold anything). For a local file, \<open>fv_bytes\<close> its contents and \<open>fv_lpos\<close>
  its position. The local files, \<open>fv_local\<close>, keep still during an upload.
\<close>

record ('f, 'l, 'x) file_view =
  fv_rd :: "'x \<Rightarrow> string \<Rightarrow> string option"
  fv_dir :: "'x \<Rightarrow> string \<Rightarrow> bool"
  fv_path :: "'f \<Rightarrow> string"
  fv_buf :: "'x \<Rightarrow> 'f \<Rightarrow> string"
  fv_pos :: "'x \<Rightarrow> 'f \<Rightarrow> nat"
  fv_local :: "string \<Rightarrow> string"
  fv_bytes :: "'l \<Rightarrow> string"
  fv_lpos :: "'x \<Rightarrow> 'l \<Rightarrow> nat"

definition same_files :: "('f, 'l, 'x) file_view \<Rightarrow> 'x \<Rightarrow> 'x \<Rightarrow> bool" where
  "same_files v x x' \<longleftrightarrow> fv_rd v x' = fv_rd v x \<and> fv_dir v x' = fv_dir v x \<and>
     fv_buf v x' = fv_buf v x \<and> fv_pos v x' = fv_pos v x \<and> fv_lpos v x' = fv_lpos v x"

text \<open>A call that only looks, or touches something other than contents.\<close>

definition harmless :: "('f, 'l, 'x) file_view \<Rightarrow> ('a, 'x) net_call \<Rightarrow> bool" where
  "harmless v f \<longleftrightarrow> (\<forall>d x. same_files v x (snd (f d x)))"

definition no_new_dirs :: "('f, 'l, 'x) file_view \<Rightarrow> 'x \<Rightarrow> 'x \<Rightarrow> bool" where
  "no_new_dirs v x x' \<longleftrightarrow> (\<forall>q. fv_dir v x' q \<longrightarrow> fv_dir v x q)"

text \<open>The rename of a file and a removal; with an error it is unknown whether they happened.\<close>

definition renames :: "('f, 'l, 'x) file_view \<Rightarrow> string \<Rightarrow> string \<Rightarrow> (goerr option, 'x) net_call \<Rightarrow> bool" where
  "renames v a b f \<longleftrightarrow> (\<forall>d x. case f d x of (err, x') \<Rightarrow> \<not> fv_dir v x a \<longrightarrow>
     no_new_dirs v x x' \<and>
     ((fv_rd v x a \<noteq> None \<and> fv_rd v x' = (fv_rd v x)(a := None, b := fv_rd v x a)) \<or>
      (err \<noteq> None \<and> fv_rd v x' = fv_rd v x)))"

definition removes :: "('f, 'l, 'x) file_view \<Rightarrow> string \<Rightarrow> (goerr option, 'x) net_call \<Rightarrow> bool" where
  "removes v p f \<longleftrightarrow> (\<forall>d x. case f d x of (err, x') \<Rightarrow> no_new_dirs v x x' \<and>
     (fv_rd v x' = (fv_rd v x)(p := None) \<or> (err \<noteq> None \<and> fv_rd v x' = fv_rd v x)))"

text \<open>The writing calls leave every file but the one of their handle alone.\<close>

definition only_file :: "('f, 'l, 'x) file_view \<Rightarrow> string \<Rightarrow> 'x \<Rightarrow> 'x \<Rightarrow> bool" where
  "only_file v p x x' \<longleftrightarrow> no_new_dirs v x x' \<and> (\<forall>q. q \<noteq> p \<longrightarrow> fv_rd v x' q = fv_rd v x q)"

definition sftp_contract ::
  "('f, 'l, 'x) file_view \<Rightarrow> ('s, 'f, 'l, 't, 'x) sftp_env \<Rightarrow> bool" where
  "sftp_contract v env \<longleftrightarrow>
    (\<forall>n. harmless v (se_NewClient env n)) \<and> (\<forall>s. harmless v (ss_Close env s)) \<and>
    (\<forall>s p m. harmless v (ss_Chmod env s p m)) \<and> (\<forall>s p t. harmless v (ss_Chtimes env s p t)) \<and>
    (\<forall>s p. harmless v (ss_Stat env s p)) \<and>
    (\<forall>s p d x. case ss_Stat env s p d x of
        (Inr info, x') \<Rightarrow> fv_dir v x p \<or> (\<exists>c. fv_rd v x p = Some c \<and> fi_Size info = int (length c))
      | _ \<Rightarrow> True) \<and>
    (\<forall>s p tr d x. case ss_OpenFile env s p tr d x of (r, x') \<Rightarrow>
        only_file v p x x' \<and> fv_lpos v x' = fv_lpos v x \<and>
        (\<forall>f. r = Inr f \<longrightarrow> \<not> fv_dir v x p \<and> fv_path v f = p \<and> fv_pos v x' f = 0 \<and>
           fv_buf v x' f = (case fv_rd v x p of Some c \<Rightarrow> if tr then '''' else c | None \<Rightarrow> ''''))) \<and>
    (\<forall>f n d x. case sf_Seek env f n d x of (err, x') \<Rightarrow>
        fv_rd v x' = fv_rd v x \<and> no_new_dirs v x x' \<and> fv_buf v x' = fv_buf v x \<and>
        fv_lpos v x' = fv_lpos v x \<and> (err = None \<longrightarrow> fv_pos v x' f = nat n)) \<and>
    (\<forall>l n x. case ol_Seek env l n x of (err, x') \<Rightarrow>
        fv_rd v x' = fv_rd v x \<and> no_new_dirs v x x' \<and> fv_buf v x' = fv_buf v x \<and>
        fv_pos v x' = fv_pos v x \<and> (err = None \<longrightarrow> fv_lpos v x' l = nat n)) \<and>
    (\<forall>f l d x. case io_CopyUp env f l d x of ((n, err), x') \<Rightarrow>
        only_file v (fv_path v f) x x' \<and>
        (err = None \<and> fv_pos v x f \<le> length (fv_buf v x f) \<longrightarrow>
           (let new = drop (fv_lpos v x l) (fv_bytes v l); pos = fv_pos v x f; old = fv_buf v x f
            in fv_buf v x' f = take pos old @ new @ drop (pos + length new) old))) \<and>
    (\<forall>f d x. case sf_Close env f d x of (err, x') \<Rightarrow>
        only_file v (fv_path v f) x x' \<and> (err = None \<longrightarrow> fv_rd v x' (fv_path v f) = Some (fv_buf v x f))) \<and>
    (\<forall>s a b. renames v a b (ss_PosixRename env s a b) \<and> renames v a b (ss_Rename env s a b)) \<and>
    (\<forall>s p. removes v p (ss_Remove env s p)) \<and>
    (\<forall>p x. case ol_Open env p x of (r, x') \<Rightarrow>
        fv_rd v x' = fv_rd v x \<and> fv_dir v x' = fv_dir v x \<and>
        (\<forall>l. r = Inr l \<longrightarrow> fv_bytes v l = fv_local v p \<and> fv_lpos v x' l = 0)) \<and>
    (\<forall>l x. case ol_Stat env l x of Inr info \<Rightarrow> fi_Size info = int (length (fv_bytes v l)) | Inl _ \<Rightarrow> True) \<and>
    (\<forall>l x. fv_rd v (ol_Close env l x) = fv_rd v x)"

text \<open>What the other goroutines do meanwhile leaves this upload's files alone.\<close>

definition others_quiet :: "('f, 'l, 'x) file_view \<Rightarrow> ('s, 'x) others \<Rightarrow> bool" where
  "others_quiet v gs \<longleftrightarrow> (\<forall>g \<in> set gs. \<forall>c. same_files v (sc_out c) (sc_out (g c)))"

text \<open>
  The contents a successful upload leaves: the local file's, or, resumed, those of the
  partial found followed by the rest of the local file.
\<close>

definition upload_contents :: "('f, 'l, 'x) file_view \<Rightarrow> bool \<Rightarrow> string \<Rightarrow> string \<Rightarrow> 'x \<Rightarrow> string \<Rightarrow> bool" where
  "upload_contents v resume localPath partial x new \<longleftrightarrow>
     new = fv_local v localPath \<or>
     (resume \<and> (\<exists>part. fv_rd v x partial = Some part \<and> part \<noteq> '''' \<and>
        length part \<le> length (fv_local v localPath) \<and>
        new = part @ drop (length part) (fv_local v localPath)))"

section \<open>Lemmas\<close>

lemma same_files_refl [simp]: "same_files v x x"
  by (simp add: same_files_def)

lemma same_files_trans: "same_files v x y \<Longrightarrow> same_files v y z \<Longrightarrow> same_files v x z"
  by (simp add: same_files_def)

lemma no_new_dirs_refl [simp]: "no_new_dirs v x x"
  by (simp add: no_new_dirs_def)

lemma no_new_dirs_same: "fv_dir v x' = fv_dir v x \<Longrightarrow> no_new_dirs v x x'"
  by (simp add: no_new_dirs_def)

lemma only_file_trans: "only_file v p x y \<Longrightarrow> only_file v p y z \<Longrightarrow> only_file v p x z"
  by (auto simp: only_file_def no_new_dirs_def)

lemma only_file_same: "same_files v x y \<Longrightarrow> only_file v p x y"
  by (simp add: only_file_def same_files_def no_new_dirs_def)

lemma same_files_rd: "same_files v x y \<Longrightarrow> fv_rd v y = fv_rd v x"
  by (simp add: same_files_def)

lemma remote_out:
  "remote f c = (a, c') \<Longrightarrow> f (dt_conn (sc_deadlines c)) (sc_out c) = (a, sc_out c')"
  by (auto simp: remote_def Let_def split: prod.splits)

lemma locally_out: "locally f c = (a, c') \<Longrightarrow> f (sc_out c) = (a, sc_out c')"
  by (auto simp: locally_def Let_def split: prod.splits)

lemma within_out:
  assumes "within env d body c = (a, c')"
  shows "\<exists>c1 c2. sc_out c1 = sc_out c \<and> body c1 = (a, c2) \<and> sc_out c' = sc_out c2"
proof -
  obtain k t where b: "dt_begin (se_now env (sc_out c)) d (sc_deadlines c) = (k, t)" by fastforce
  obtain a2 c2 where body: "body (c\<lparr>sc_deadlines := t\<rparr>) = (a2, c2)" by fastforce
  have "a2 = a" "c' = c2\<lparr>sc_deadlines := dt_end k (sc_deadlines c2)\<rparr>"
    using assms b body by (auto simp: within_def)
  then show ?thesis using body by (intro exI [of _ "c\<lparr>sc_deadlines := t\<rparr>"] exI [of _ c2]) simp
qed

lemma harmless_remote:
  "harmless v f \<Longrightarrow> remote f c = (a, c') \<Longrightarrow> same_files v (sc_out c) (sc_out c')"
  unfolding harmless_def by (metis remote_out snd_conv)

lemma harmless_within:
  assumes "harmless v f" "within env d (remote f) c = (a, c')"
  shows "same_files v (sc_out c) (sc_out c')"
  using within_out [OF assms(2)] harmless_remote [OF assms(1)] by fastforce

lemma sftp_contractD:
  assumes "sftp_contract v env"
  shows
    "harmless v (se_NewClient env n)" "harmless v (ss_Close env s)" "harmless v (ss_Chmod env s p m)"
    "harmless v (ss_Chtimes env s p t)" "harmless v (ss_Stat env s p)"
    "ss_Stat env s p d x = (Inr info, x') \<Longrightarrow> \<not> fv_dir v x p \<Longrightarrow>
       \<exists>c. fv_rd v x p = Some c \<and> fi_Size info = int (length c)"
    "ss_OpenFile env s p tr d x = (r, x') \<Longrightarrow> only_file v p x x' \<and> fv_lpos v x' = fv_lpos v x"
    "ss_OpenFile env s p tr d x = (Inr f, x') \<Longrightarrow> \<not> fv_dir v x p \<and> fv_path v f = p \<and>
       fv_pos v x' f = 0 \<and>
       fv_buf v x' f = (case fv_rd v x p of Some c \<Rightarrow> if tr then '''' else c | None \<Rightarrow> '''')"
    "sf_Seek env f n d x = (err, x') \<Longrightarrow> fv_rd v x' = fv_rd v x \<and> no_new_dirs v x x' \<and>
       fv_buf v x' = fv_buf v x \<and> fv_lpos v x' = fv_lpos v x \<and> (err = None \<longrightarrow> fv_pos v x' f = nat n)"
    "ol_Seek env l n x = (err, x') \<Longrightarrow> fv_rd v x' = fv_rd v x \<and> no_new_dirs v x x' \<and>
       fv_buf v x' = fv_buf v x \<and> fv_pos v x' = fv_pos v x \<and> (err = None \<longrightarrow> fv_lpos v x' l = nat n)"
    "io_CopyUp env f l d x = ((k, err), x') \<Longrightarrow> only_file v (fv_path v f) x x'"
    "io_CopyUp env f l d x = ((k, None), x') \<Longrightarrow> fv_pos v x f \<le> length (fv_buf v x f) \<Longrightarrow>
       fv_buf v x' f = take (fv_pos v x f) (fv_buf v x f) @ drop (fv_lpos v x l) (fv_bytes v l) @
         drop (fv_pos v x f + length (drop (fv_lpos v x l) (fv_bytes v l))) (fv_buf v x f)"
    "sf_Close env f d x = (err, x') \<Longrightarrow> only_file v (fv_path v f) x x' \<and>
       (err = None \<longrightarrow> fv_rd v x' (fv_path v f) = Some (fv_buf v x f))"
    "renames v a b (ss_PosixRename env s a b)" "renames v a b (ss_Rename env s a b)"
    "removes v p (ss_Remove env s p)"
    "ol_Open env p x = (ro, x') \<Longrightarrow> fv_rd v x' = fv_rd v x \<and> fv_dir v x' = fv_dir v x"
    "ol_Open env p x = (Inr l, x') \<Longrightarrow> fv_bytes v l = fv_local v p \<and> fv_lpos v x' l = 0"
    "ol_Stat env l x = Inr info \<Longrightarrow> fi_Size info = int (length (fv_bytes v l))"
    "fv_rd v (ol_Close env l x) = fv_rd v x"
proof -
  note c = assms [unfolded sftp_contract_def]
  show "harmless v (se_NewClient env n)" using c [THEN conjunct1] by blast
  note c = c [THEN conjunct2]
  show "harmless v (ss_Close env s)" using c [THEN conjunct1] by blast
  note c = c [THEN conjunct2]
  show "harmless v (ss_Chmod env s p m)" using c [THEN conjunct1] by blast
  note c = c [THEN conjunct2]
  show "harmless v (ss_Chtimes env s p t)" using c [THEN conjunct1] by blast
  note c = c [THEN conjunct2]
  show "harmless v (ss_Stat env s p)" using c [THEN conjunct1] by blast
  note c = c [THEN conjunct2]
  show "ss_Stat env s p d x = (Inr info, x') \<Longrightarrow> \<not> fv_dir v x p \<Longrightarrow>
       \<exists>c. fv_rd v x p = Some c \<and> fi_Size info = int (length c)"
    using c [THEN conjunct1, rule_format, where s = s and p = p and d = d and x = x] by simp
  note c = c [THEN conjunct2]
  note o = c [THEN conjunct1, rule_format, where s = s and p = p and tr = tr and d = d and x = x]
  show "ss_OpenFile env s p tr d x = (r, x') \<Longrightarrow> only_file v p x x' \<and> fv_lpos v x' = fv_lpos v x"
    using o by simp
  show "ss_OpenFile env s p tr d x = (Inr f, x') \<Longrightarrow> \<not> fv_dir v x p \<and> fv_path v f = p \<and>
       fv_pos v x' f = 0 \<and>
       fv_buf v x' f = (case fv_rd v x p of Some c \<Rightarrow> if tr then '''' else c | None \<Rightarrow> '''')"
    using o by simp
  note c = c [THEN conjunct2]
  show "sf_Seek env f n d x = (err, x') \<Longrightarrow> fv_rd v x' = fv_rd v x \<and> no_new_dirs v x x' \<and>
       fv_buf v x' = fv_buf v x \<and> fv_lpos v x' = fv_lpos v x \<and> (err = None \<longrightarrow> fv_pos v x' f = nat n)"
    using c [THEN conjunct1, rule_format, where f = f and n = n and d = d and x = x] by simp
  note c = c [THEN conjunct2]
  show "ol_Seek env l n x = (err, x') \<Longrightarrow> fv_rd v x' = fv_rd v x \<and> no_new_dirs v x x' \<and>
       fv_buf v x' = fv_buf v x \<and> fv_pos v x' = fv_pos v x \<and> (err = None \<longrightarrow> fv_lpos v x' l = nat n)"
    using c [THEN conjunct1, rule_format, where l = l and n = n and x = x] by simp
  note c = c [THEN conjunct2]
  note o = c [THEN conjunct1, rule_format, where f = f and l = l and d = d and x = x]
  show "io_CopyUp env f l d x = ((k, err), x') \<Longrightarrow> only_file v (fv_path v f) x x'"
    using o by simp
  show "io_CopyUp env f l d x = ((k, None), x') \<Longrightarrow> fv_pos v x f \<le> length (fv_buf v x f) \<Longrightarrow>
       fv_buf v x' f = take (fv_pos v x f) (fv_buf v x f) @ drop (fv_lpos v x l) (fv_bytes v l) @
         drop (fv_pos v x f + length (drop (fv_lpos v x l) (fv_bytes v l))) (fv_buf v x f)"
    using o by (simp add: Let_def)
  note c = c [THEN conjunct2]
  show "sf_Close env f d x = (err, x') \<Longrightarrow> only_file v (fv_path v f) x x' \<and>
       (err = None \<longrightarrow> fv_rd v x' (fv_path v f) = Some (fv_buf v x f))"
    using c [THEN conjunct1, rule_format, where f = f and d = d and x = x] by simp
  note c = c [THEN conjunct2]
  show "renames v a b (ss_PosixRename env s a b)" "renames v a b (ss_Rename env s a b)"
    using c [THEN conjunct1] by blast+
  note c = c [THEN conjunct2]
  show "removes v p (ss_Remove env s p)" using c [THEN conjunct1] by blast
  note c = c [THEN conjunct2]
  note o = c [THEN conjunct1, rule_format, where p = p and x = x]
  show "ol_Open env p x = (ro, x') \<Longrightarrow> fv_rd v x' = fv_rd v x \<and> fv_dir v x' = fv_dir v x"
    "ol_Open env p x = (Inr l, x') \<Longrightarrow> fv_bytes v l = fv_local v p \<and> fv_lpos v x' l = 0"
    using o by simp_all
  note c = c [THEN conjunct2]
  show "ol_Stat env l x = Inr info \<Longrightarrow> fi_Size info = int (length (fv_bytes v l))"
    using c [THEN conjunct1, rule_format, where l = l and x = x] by simp
  note c = c [THEN conjunct2]
  show "fv_rd v (ol_Close env l x) = fv_rd v x" using c by blast
qed

lemma sftpReplace_rd:
  assumes con: "sftp_contract v env" and "a \<noteq> b"
    and src: "fv_rd v (sc_out c) a = Some new" "\<not> fv_dir v (sc_out c) a"
    and run: "sftpReplace env s a b c = (err, c')"
  shows "(\<forall>q. q \<noteq> a \<longrightarrow> q \<noteq> b \<longrightarrow> fv_rd v (sc_out c') q = fv_rd v (sc_out c) q) \<and>
    (err = None \<longrightarrow> fv_rd v (sc_out c') b = Some new) \<and>
    (fv_rd v (sc_out c') b \<in> {fv_rd v (sc_out c) b, Some new} \<or>
     (\<not> ss_HasPosixRename env s (sc_out c) \<and> fv_rd v (sc_out c') b = None))"
proof (cases "ss_HasPosixRename env s (sc_out c)")
  case True
  then have "ss_PosixRename env s a b (dt_conn (sc_deadlines c)) (sc_out c) = (err, sc_out c')"
    using run by (simp add: sftpReplace_def remote_out)
  then show ?thesis
    using sftp_contractD(14) [OF con, of a b s] src assms(2)
    unfolding renames_def by (fastforce split: prod.splits)
next
  case False
  obtain e1 c1 where r1: "remote (ss_Rename env s a b) c = (e1, c1)" by fastforce
  have c1: "no_new_dirs v (sc_out c) (sc_out c1) \<and>
      (fv_rd v (sc_out c1) = (fv_rd v (sc_out c))(a := None, b := Some new) \<or>
       (e1 \<noteq> None \<and> fv_rd v (sc_out c1) = fv_rd v (sc_out c)))"
    using sftp_contractD(15) [OF con, of a b s] remote_out [OF r1] src
    unfolding renames_def by (fastforce split: prod.splits)
  show ?thesis
  proof (cases e1)
    case None
    then have "c' = c1" "err = None" using run r1 False by (simp_all add: sftpReplace_def)
    then show ?thesis using c1 None assms(2) by auto
  next
    case (Some e)
    obtain e2 c2 where r2: "remote (ss_Remove env s b) c1 = (e2, c2)" by fastforce
    have c2: "no_new_dirs v (sc_out c1) (sc_out c2) \<and>
        (fv_rd v (sc_out c2) = (fv_rd v (sc_out c1))(b := None) \<or>
         (e2 \<noteq> None \<and> fv_rd v (sc_out c2) = fv_rd v (sc_out c1)))"
      using sftp_contractD(16) [OF con, of b s] remote_out [OF r2]
      unfolding removes_def by (fastforce split: prod.splits)
    have nd: "\<not> fv_dir v (sc_out c2) a" using c1 c2 src(2) by (auto simp: no_new_dirs_def)
    show ?thesis
    proof (cases "\<exists>e. e2 = Some e \<and> \<not> errors_Is e ErrNotExist")
      case True
      then have "c' = c2" "err = e2" using run r1 r2 Some False by (auto simp: sftpReplace_def)
      then show ?thesis using c1 c2 True False assms(2) by auto
    next
      case no: False
      have "remote (ss_Rename env s a b) c2 = (err, c')"
        using run r1 r2 Some False no by (auto simp: sftpReplace_def split: option.splits)
      then have "no_new_dirs v (sc_out c2) (sc_out c') \<and>
          ((fv_rd v (sc_out c2) a \<noteq> None \<and>
            fv_rd v (sc_out c') = (fv_rd v (sc_out c2))(a := None, b := fv_rd v (sc_out c2) a)) \<or>
           (err \<noteq> None \<and> fv_rd v (sc_out c') = fv_rd v (sc_out c2)))"
        using sftp_contractD(15) [OF con, of a b s] remote_out nd
        unfolding renames_def by (fastforce split: prod.splits)
      then show ?thesis using c1 c2 False assms(2) src(1) by auto
    qed
  qed
qed

section \<open>Sessions\<close>

text \<open>Getting and returning a session touches no file.\<close>

lemma xfer_acquire_same:
  assumes con: "sftp_contract v env"
  shows "others_quiet v gs \<Longrightarrow> xfer_acquire env gs waited c = Some (r, c') \<Longrightarrow>
      same_files v (sc_out c) (sc_out c')"
proof (induction gs arbitrary: waited c)
  case Nil
  then show ?case
  proof -
    obtain a p where "acquire_try waited (the (sc_xfer c)) = (a, p)" by fastforce
    then show ?thesis using Nil by (cases a) auto
  qed
next
  case (Cons g gs)
  obtain a p where ap: "acquire_try waited (the (sc_xfer c)) = (a, p)" by fastforce
  have g: "same_files v (sc_out d) (sc_out (g d))" for d using Cons.prems(1) by (simp add: others_quiet_def)
  have gs: "others_quiet v gs" using Cons.prems(1) by (simp add: others_quiet_def)
  let ?c = "c\<lparr>sc_xfer := Some p\<rparr>"
  show ?case
  proof (cases a)
    case StartDial
    obtain s c1 where r: "remote (se_NewClient env (sftpOptions c)) ?c = (s, c1)" by fastforce
    have c1: "same_files v (sc_out c) (sc_out (g c1))"
      using harmless_remote [OF sftp_contractD(1) [OF con] r] g same_files_trans by fastforce
    obtain o1 p1 where dd: "dial_done s (the (sc_xfer (g c1))) = (o1, p1)" by fastforce
    let ?d = "(g c1)\<lparr>sc_xfer := Some p1\<rparr>"
    show ?thesis
    proof (cases o1)
      case (DLate s)
      then have "c' = snd (remote (ss_Close env s) ?d)"
        using Cons.prems(2) ap StartDial r dd by (simp add: Let_def)
      then have "same_files v (sc_out ?d) (sc_out c')"
        using harmless_remote [OF sftp_contractD(2) [OF con]] by (metis prod.collapse)
      then show ?thesis using c1 same_files_trans by fastforce
    next
      case (DRetry k)
      then have "xfer_acquire env gs waited ?d = Some (r, c')"
        using Cons.prems(2) ap StartDial r dd by (simp add: Let_def)
      from Cons.IH [OF gs this] show ?thesis using c1 same_files_trans by fastforce
    qed (use Cons.prems(2) ap StartDial r dd c1 in \<open>auto simp: Let_def\<close>)
  next
    case WaitCond
    then have "xfer_acquire env gs True (g ?c) = Some (r, c')" using Cons.prems(2) ap by simp
    from Cons.IH [OF gs this] show ?thesis using g [of ?c] same_files_trans by fastforce
  qed (use Cons.prems(2) ap in auto)
qed

lemma take_slot_same:
  "others_quiet v gs \<Longrightarrow> take_slot gs c = Some (gs', c') \<Longrightarrow>
     others_quiet v gs' \<and> same_files v (sc_out c) (sc_out c')"
proof (induction gs arbitrary: c)
  case (Cons g gs)
  have g: "same_files v (sc_out c) (sc_out (g c))" "others_quiet v gs"
    using Cons.prems(1) by (simp_all add: others_quiet_def)
  show ?case
  proof (cases "the (sc_largeSlots c) < MaxConcurrentLargeTransfers")
    case False
    then have "take_slot gs (g c) = Some (gs', c')"
      using Cons.prems(2) by (simp only: take_slot.simps if_False)
    from Cons.IH [OF g(2) this] show ?thesis by (simp add: same_files_trans [OF g(1)])
  next
    case True
    then have "gs' = g # gs" "sc_out c' = sc_out c"
      using Cons.prems(2) by (auto simp: take_slot.simps)
    then show ?thesis using Cons.prems(1) by simp
  qed
next
  case Nil
  then show ?case by (auto simp: take_slot.simps split: if_splits)
qed

lemma transferSession_same:
  assumes con: "sftp_contract v env" and gs: "others_quiet v gs"
    and run: "transferSession env gs n c = Some (sl, c')"
  shows "same_files v (sc_out c) (sc_out c')"
proof (cases "n < LargeTransferSize \<or> sc_largeSlots c = None")
  case False
  then obtain hs c1 where t: "take_slot gs c = Some (hs, c1)"
    using run by (auto simp: transferSession_def split: option.splits)
  have c1: "others_quiet v hs" "same_files v (sc_out c) (sc_out c1)" using take_slot_same [OF gs t] by auto
  show ?thesis
  proof (cases "sc_xfer c1 \<noteq> None \<and> \<not> sc_xferDisabled c1")
    case True
    then obtain r c2 where x: "xfer_acquire env hs False c1 = Some (r, c2)"
      using run False t unfolding transferSession_def
      by (cases "xfer_acquire env hs False c1") auto
    have "sc_out c' = sc_out c2"
      using run False t True x unfolding transferSession_def
      by (cases r) (auto simp: Let_def split: if_splits)
    then show ?thesis using xfer_acquire_same [OF con c1(1) x] c1(2) same_files_trans by fastforce
  qed (use run False t c1 in \<open>auto simp: transferSession_def\<close>)
qed (use run in \<open>auto simp: transferSession_def\<close>)

lemma release_session_same:
  assumes con: "sftp_contract v env"
  shows "same_files v (sc_out c) (sc_out (release_session env grant err c))"
proof (cases grant)
  case (SlotSession s)
  obtain b p where "release s (sftpSessionBroken err) (the (sc_xfer c)) = (b, p)" by fastforce
  moreover obtain e c1 where r: "remote (ss_Close env s) (c\<lparr>sc_xfer := Some p\<rparr>) = (e, c1)" by fastforce
  moreover have "same_files v (sc_out c) (sc_out c1)"
    using harmless_remote [OF sftp_contractD(2) [OF con] r] by simp
  ultimately show ?thesis using SlotSession by (cases b) (simp_all add: Let_def freeSlot_def)
qed (simp_all add: freeSlot_def)

section \<open>One upload\<close>

text \<open>The three finishing calls, in any order.\<close>

lemma run_finishing_rd:
  assumes con: "sftp_contract v env"
  shows "distinct fs \<Longrightarrow> run_finishing env s f (fv_path v f) info fs ce c = (err, c') \<Longrightarrow>
    only_file v (fv_path v f) (sc_out c) (sc_out c') \<and>
    (FinClose \<notin> set fs \<longrightarrow> err = ce \<and> fv_rd v (sc_out c') = fv_rd v (sc_out c)) \<and>
    (FinClose \<in> set fs \<and> err = None \<longrightarrow>
       fv_rd v (sc_out c') (fv_path v f) = Some (fv_buf v (sc_out c) f))"
proof (induction fs arbitrary: ce c)
  case Nil
  then show ?case by (simp add: only_file_same)
next
  case (Cons x fs)
  show ?case
  proof (cases x)
    case FinClose
    obtain e c1 where r: "remote (sf_Close env f) c = (e, c1)" by fastforce
    have rest: "run_finishing env s f (fv_path v f) info fs e c1 = (err, c')"
      using Cons.prems(2) r by (simp add: FinClose)
    note IH = Cons.IH [OF _ rest] and close = sftp_contractD(13) [OF con remote_out [OF r]]
    have "FinClose \<notin> set fs" "distinct fs" using Cons.prems(1) FinClose by auto
    then show ?thesis using IH close only_file_trans FinClose by (auto 0 3)
  next
    case FinChmod
    obtain e c1 where r: "remote (ss_Chmod env s (fv_path v f) (fi_Perm info)) c = (e, c1)" by fastforce
    have rest: "run_finishing env s f (fv_path v f) info fs ce c1 = (err, c')"
      using Cons.prems(2) r by (simp add: FinChmod)
    have same: "same_files v (sc_out c) (sc_out c1)"
      using harmless_remote [OF sftp_contractD(3) [OF con] r] .
    show ?thesis
      using Cons.IH [OF _ rest] Cons.prems(1) only_file_trans [OF only_file_same [OF same]] same FinChmod
      by (auto simp: same_files_def)
  next
    case FinChtimes
    obtain e c1 where r: "remote (ss_Chtimes env s (fv_path v f) (fi_ModTime info)) c = (e, c1)" by fastforce
    have rest: "run_finishing env s f (fv_path v f) info fs ce c1 = (err, c')"
      using Cons.prems(2) r by (simp add: FinChtimes)
    have same: "same_files v (sc_out c) (sc_out c1)"
      using harmless_remote [OF sftp_contractD(4) [OF con] r] .
    show ?thesis
      using Cons.IH [OF _ rest] Cons.prems(1) only_file_trans [OF only_file_same [OF same]] same FinChtimes
      by (auto simp: same_files_def)
  qed
qed

text \<open>Positioning and copying: what the open handle is going to hold.\<close>

lemma send_data_buf:
  assumes con: "sftp_contract v env"
    and at: "fv_pos v (sc_out c) f = 0" "fv_lpos v (sc_out c) l = 0"
    and off: "0 \<le> offset" "nat offset \<le> length (fv_buf v (sc_out c) f)"
    and run: "send_data env f l offset c = (err, c')"
  shows "only_file v (fv_path v f) (sc_out c) (sc_out c') \<and>
    (err = None \<longrightarrow> fv_buf v (sc_out c') f =
       take (nat offset) (fv_buf v (sc_out c) f) @ drop (nat offset) (fv_bytes v l) @
       drop (nat offset + length (drop (nat offset) (fv_bytes v l))) (fv_buf v (sc_out c) f))"
proof -
  obtain e1 c1 where pos: "(if offset > 0 then
      (case locally (ol_Seek env l offset) c of
         (None, c) \<Rightarrow> remote (sf_Seek env f offset) c | (Some e, c) \<Rightarrow> (Some e, c))
      else (None, c)) = (e1, c1)" by fastforce
  have c1: "fv_rd v (sc_out c1) = fv_rd v (sc_out c) \<and> no_new_dirs v (sc_out c) (sc_out c1) \<and>
    fv_buf v (sc_out c1) = fv_buf v (sc_out c) \<and>
    (e1 = None \<longrightarrow> fv_pos v (sc_out c1) f = nat offset \<and> fv_lpos v (sc_out c1) l = nat offset)"
  proof (cases "offset > 0")
    case True
    obtain e0 c0 where l: "locally (ol_Seek env l offset) c = (e0, c0)" by fastforce
    note L = sftp_contractD(10) [OF con locally_out [OF l]]
    show ?thesis
    proof (cases e0)
      case None
      then have "remote (sf_Seek env f offset) c0 = (e1, c1)" using pos True l by simp
      from sftp_contractD(9) [OF con remote_out [OF this]] show ?thesis
        using L None by (auto simp: no_new_dirs_def)
    qed (use pos True l L in auto)
  qed (use pos at in auto)
  show ?thesis
  proof (cases e1)
    case None
    obtain n c2 where cp: "remote (io_CopyUp env f l) c1 = ((n, err), c2)" and c2: "c' = c2"
      using run pos None unfolding send_data_def Let_def by (auto split: prod.splits)
    note R = remote_out [OF cp]
    have "only_file v (fv_path v f) (sc_out c1) (sc_out c')"
      using sftp_contractD(11) [OF con R] c2 by simp
    then have of': "only_file v (fv_path v f) (sc_out c) (sc_out c')"
      using c1 by (auto simp: only_file_def no_new_dirs_def)
    show ?thesis
    proof (cases err)
      case None
      show ?thesis
        using of' sftp_contractD(12) [OF con R [unfolded None]] c1 \<open>e1 = None\<close> off c2 by simp
    qed (use of' in simp)
  next
    case (Some e)
    then have "err = Some e" "c' = c1" using run pos by (simp_all add: send_data_def)
    then show ?thesis using c1 by (simp add: only_file_def)
  qed
qed

lemma removeQuiet_rd:
  fixes env :: "('s, 'f, 'l, 't, 'x) sftp_env" and c :: "('s, 'x) sftp"
  assumes con: "sftp_contract v env"
  shows "only_file v p (sc_out c) (sc_out (removeQuiet env s p c))"
proof -
  obtain e c' where w: "within env OperationTimeout (remote (ss_Remove env s p)) c = (e, c')" by fastforce
  obtain c1 c2 :: "('s, 'x) sftp" where *: "sc_out c1 = sc_out c" "remote (ss_Remove env s p) c1 = (e, c2)"
    "sc_out c' = sc_out c2" using within_out [OF w] by blast
  have "no_new_dirs v (sc_out c1) (sc_out c2) \<and>
      (fv_rd v (sc_out c2) = (fv_rd v (sc_out c1))(p := None) \<or>
       (e \<noteq> None \<and> fv_rd v (sc_out c2) = fv_rd v (sc_out c1)))"
    using sftp_contractD(16) [OF con, of p s] remote_out [OF *(2)]
    unfolding removes_def by (fastforce split: prod.splits)
  then show ?thesis using * w by (auto simp: only_file_def removeQuiet_def)
qed

lemma drop_partial_rd:
  "sftp_contract v env \<Longrightarrow> only_file v p (sc_out c) (sc_out (drop_partial env s p resume c))"
  by (simp add: drop_partial_def removeQuiet_rd only_file_same)

text \<open>
  What may have happened to the live file \<open>p\<close> (with partial file \<open>q\<close>) between two states.
  Without the posix-rename extension it may be gone.
\<close>

definition replaced :: "('f, 'l, 'x) file_view \<Rightarrow> ('s, 'f, 'l, 't, 'x) sftp_env \<Rightarrow> string \<Rightarrow> string \<Rightarrow>
    string \<Rightarrow> goerr option \<Rightarrow> 'x \<Rightarrow> 'x \<Rightarrow> bool" where
  "replaced v env p q new err x x' \<longleftrightarrow>
     (\<forall>r. r \<noteq> p \<longrightarrow> r \<noteq> q \<longrightarrow> fv_rd v x' r = fv_rd v x r) \<and>
     (err = None \<longrightarrow> fv_rd v x' p = Some new) \<and>
     (fv_rd v x' p \<in> {fv_rd v x p, Some new} \<or>
      (fv_rd v x' p = None \<and> (\<exists>s y. \<not> ss_HasPosixRename env s y)))"

lemma replaced_only_partial:
  "only_file v q x x' \<Longrightarrow> p \<noteq> q \<Longrightarrow> err \<noteq> None \<Longrightarrow> replaced v env p q new err x x'"
  by (auto simp: replaced_def only_file_def)

lemma replaced_before:
  "only_file v q x y \<Longrightarrow> p \<noteq> q \<Longrightarrow> replaced v env p q new err y z \<Longrightarrow> replaced v env p q new err x z"
  by (auto simp: replaced_def only_file_def)

lemma replaced_after:
  "replaced v env p q new err x y \<Longrightarrow> only_file v q y z \<Longrightarrow> p \<noteq> q \<Longrightarrow> replaced v env p q new err x z"
  by (auto simp: replaced_def only_file_def)

lemma wrapError_eq_None [simp]: "wrapError op err = None \<longleftrightarrow> err = None"
  by (cases err) (simp_all add: wrapError_Some)

lemma wrapError_Some_ex [simp]: "\<exists>y. wrapError op (Some e) = Some y"
  by (simp flip: not_None_eq)

lemma replaced_wrap [simp]:
  "replaced v env p q new (wrapError op err) x y = replaced v env p q new err x y"
  by (simp add: replaced_def)

definition resumed :: "int \<Rightarrow> string option \<Rightarrow> string \<Rightarrow> string" where
  "resumed offset part loc =
    (case part of Some b \<Rightarrow> if offset = 0 then loc else b @ drop (length b) loc | None \<Rightarrow> loc)"

definition offset_ok :: "int \<Rightarrow> string option \<Rightarrow> string \<Rightarrow> bool" where
  "offset_ok offset part loc \<longleftrightarrow>
     offset = 0 \<or> (\<exists>b. part = Some b \<and> offset = int (length b) \<and> b \<noteq> '''' \<and> length b \<le> length loc)"

lemma upload_data_rd:
  fixes env :: "('s, 'f, 'l, 't, 'x) sftp_env" and c :: "('s, 'x) sftp"
  assumes con: "sftp_contract v env" and ord: "distinct ord" "FinClose \<in> set ord"
    and lp: "fv_lpos v (sc_out c) l = 0"
    and off: "fv_dir v (sc_out c) (remotePartialPath p) \<or>
      offset_ok offset (fv_rd v (sc_out c) (remotePartialPath p)) (fv_bytes v l)"
    and run: "upload_data env ord s op l info p resume offset c = (err, c')"
  shows "replaced v env p (remotePartialPath p)
    (resumed offset (fv_rd v (sc_out c) (remotePartialPath p)) (fv_bytes v l)) err (sc_out c) (sc_out c')"
    (is "replaced v env p ?q ?new err _ _")
proof -
  note pq = remotePartialPath_neq [of p, symmetric]
  obtain r c1 where op: "remote (ss_OpenFile env s ?q (offset = 0)) c = (r, c1)" by fastforce
  note O = remote_out [OF op]
  have c1: "only_file v ?q (sc_out c) (sc_out c1)" "fv_lpos v (sc_out c1) l = 0"
    using sftp_contractD(7) [OF con O] lp by auto
  show ?thesis
  proof (cases r)
    case (Inl e)
    then have "c' = c1" "err \<noteq> None" using run op by (auto simp: upload_data_def Let_def)
    then show ?thesis using replaced_only_partial [OF c1(1) pq] by simp
  next
    case (Inr f)
    have f: "\<not> fv_dir v (sc_out c) ?q" "fv_path v f = ?q" "fv_pos v (sc_out c1) f = 0"
      "fv_buf v (sc_out c1) f = (case fv_rd v (sc_out c) ?q of
         Some b \<Rightarrow> if offset = 0 then '''' else b | None \<Rightarrow> '''')"
      using sftp_contractD(8) [OF con O [unfolded Inr]] by simp_all
    then have ok: "offset_ok offset (fv_rd v (sc_out c) ?q) (fv_bytes v l)" using off by simp
    obtain e2 c2 where sd: "send_data env f l offset c1 = (e2, c2)" by fastforce
    have "0 \<le> offset" "nat offset \<le> length (fv_buf v (sc_out c1) f)"
      using ok f(4) by (auto simp: offset_ok_def)
    note S = send_data_buf [OF con f(3) c1(2) this sd]
    have c2: "only_file v ?q (sc_out c) (sc_out c2)" using S f(2) c1(1) only_file_trans by metis
    show ?thesis
    proof (cases e2)
      case (Some e)
      obtain e3 c3 where cl: "remote (sf_Close env f) c2 = (e3, c3)" by fastforce
      have "only_file v ?q (sc_out c2) (sc_out c3)"
        using sftp_contractD(13) [OF con remote_out [OF cl]] f(2) by simp
      moreover have "err \<noteq> None" "c' = drop_partial env s ?q resume c3"
        using run op Inr sd Some cl by (auto simp: upload_data_def Let_def)
      ultimately show ?thesis
        using c2 drop_partial_rd [OF con, of ?q c3 s resume] replaced_only_partial [OF _ pq]
          only_file_trans by metis
    next
      case None
      have new: "fv_buf v (sc_out c2) f = ?new"
        using S None f(4) ok by (auto simp: resumed_def offset_ok_def split: option.splits)
      obtain e3 c3 where fin: "run_finishing env s f ?q info ord None c2 = (e3, c3)" by fastforce
      note F = run_finishing_rd [OF con ord(1), of s f info None c2 e3 c3, unfolded f(2), OF fin]
      have c3: "only_file v ?q (sc_out c) (sc_out c3)" by (rule only_file_trans [OF c2 F [THEN conjunct1]])
      show ?thesis
      proof (cases e3)
        case (Some e)
        then have "err \<noteq> None" "c' = drop_partial env s ?q resume c3"
          using run op Inr sd None fin by (auto simp: upload_data_def Let_def)
        then show ?thesis
          using c3 drop_partial_rd [OF con, of ?q c3 s resume] replaced_only_partial [OF _ pq]
            only_file_trans by metis
      next
        case closed: None
        have src: "fv_rd v (sc_out c3) ?q = Some ?new" using F closed ord(2) new by simp
        have nd: "\<not> fv_dir v (sc_out c3) ?q" using c3 f(1) by (auto simp: only_file_def no_new_dirs_def)
        obtain e4 c4 where rp: "sftpReplace env s ?q p c3 = (e4, c4)" by fastforce
        have R: "replaced v env p ?q ?new e4 (sc_out c3) (sc_out c4)"
          using sftpReplace_rd [OF con remotePartialPath_neq src nd rp] by (auto simp: replaced_def)
        note reached = replaced_before [OF c3 pq R]
        have "err = wrapError op e4 \<and> c' = (if e4 = None then c4 else removeQuiet env s ?q c4)"
          using run op Inr sd None fin closed rp
          by (cases e4) (simp_all add: upload_data_def Let_def wrapError_def)
        then show ?thesis
          using reached replaced_after [OF reached removeQuiet_rd [OF con] pq]
          by (cases e4) simp_all
      qed
    qed
  qed
qed

lemma resume_offset_ok:
  fixes env :: "('s, 'f, 'l, 't, 'x) sftp_env" and c :: "('s, 'x) sftp"
  assumes con: "sftp_contract v env" and size: "fi_Size info = int (length loc)"
    and run: "resume_offset env s q info resume c = (offset, c')"
  shows "same_files v (sc_out c) (sc_out c') \<and> (\<not> resume \<longrightarrow> offset = 0) \<and>
    (fv_dir v (sc_out c) q \<or> offset_ok offset (fv_rd v (sc_out c) q) loc)"
proof (cases resume)
  case True
  obtain r c1 where w: "within env OperationTimeout (remote (ss_Stat env s q)) c = (r, c1)" by fastforce
  obtain a b :: "('s, 'x) sftp" where *: "sc_out a = sc_out c" "remote (ss_Stat env s q) a = (r, b)"
    "sc_out c1 = sc_out b" using within_out [OF w] by blast
  have same: "same_files v (sc_out c) (sc_out c1)"
    using harmless_within [OF sftp_contractD(5) [OF con] w] .
  show ?thesis
  proof (cases r)
    case (Inr i)
    have "fv_dir v (sc_out c) q \<or> (\<exists>b. fv_rd v (sc_out c) q = Some b \<and> fi_Size i = int (length b))"
      using sftp_contractD(6) [OF con remote_out [OF *(2), unfolded Inr]] * by auto
    moreover have "offset = (if canResumePartial (fi_Size i) (fi_ModTime i) info then fi_Size i else 0)"
      "c' = c1" using run True w Inr by (auto simp: resume_offset_def)
    ultimately show ?thesis using same size True by (auto simp: offset_ok_def canResumePartial_def)
  qed (use run True w same in \<open>auto simp: resume_offset_def offset_ok_def\<close>)
qed (use run in \<open>auto simp: resume_offset_def offset_ok_def\<close>)

lemma uploadOn_rd:
  fixes env :: "('s, 'f, 'l, 't, 'x) sftp_env" and c :: "('s, 'x) sftp"
  assumes con: "sftp_contract v env" and ord: "distinct ord" "FinClose \<in> set ord"
    and lp: "fv_lpos v (sc_out c) l = 0" and size: "fi_Size info = int (length (fv_bytes v l))"
    and run: "uploadOn env ord s op l info p resume c = (err, c')"
  shows "\<exists>offset. (\<not> resume \<longrightarrow> offset = 0) \<and>
    (fv_dir v (sc_out c) (remotePartialPath p) \<or>
      offset_ok offset (fv_rd v (sc_out c) (remotePartialPath p)) (fv_bytes v l)) \<and>
    replaced v env p (remotePartialPath p)
      (resumed offset (fv_rd v (sc_out c) (remotePartialPath p)) (fv_bytes v l)) err (sc_out c) (sc_out c')"
proof -
  let ?q = "remotePartialPath p"
  obtain offset c1 where ro: "resume_offset env s ?q info resume c = (offset, c1)" by fastforce
  note R = resume_offset_ok [OF con size ro]
  have w: "within env (TransferTimeout (fi_Size info - offset))
      (upload_data env ord s op l info p resume offset) c1 = (err, c')"
    using run ro by (simp add: uploadOn_def Let_def)
  obtain a b :: "('s, 'x) sftp" where *: "sc_out a = sc_out c1"
    "upload_data env ord s op l info p resume offset a = (err, b)" "sc_out c' = sc_out b"
    using within_out [OF w] by blast
  have same: "fv_rd v (sc_out a) = fv_rd v (sc_out c)" "fv_dir v (sc_out a) = fv_dir v (sc_out c)"
    "fv_lpos v (sc_out a) l = 0" using R * lp by (auto simp: same_files_def)
  have "replaced v env p ?q (resumed offset (fv_rd v (sc_out c) ?q) (fv_bytes v l)) err
      (sc_out a) (sc_out b)"
    using upload_data_rd [OF con ord same(3) _ *(2)] R same by simp
  then have "replaced v env p ?q (resumed offset (fv_rd v (sc_out c) ?q) (fv_bytes v l)) err
      (sc_out c) (sc_out c')"
    using same(1) * by (simp add: replaced_def)
  then show ?thesis using R by blast
qed

lemma resumed_contents:
  assumes "\<not> resume \<longrightarrow> offset = 0" "offset_ok offset (fv_rd v x q) (fv_local v path)"
  shows "upload_contents v resume path q x (resumed offset (fv_rd v x q) (fv_local v path))"
  using assms by (auto simp: upload_contents_def resumed_def offset_ok_def split: option.splits)

section \<open>The property\<close>

text \<open>The upload of an opened local file whose size is known.\<close>

lemma upload_opened:
  fixes env :: "('s, 'f, 'l, 't, 'x) sftp_env" and c :: "('s, 'x) sftp"
  assumes con: "sftp_contract v env" and gs: "others_quiet v gs"
    and ord: "distinct ord" "FinClose \<in> set ord"
    and dir: "\<not> fv_dir v (sc_out c1) (remotePartialPath p)"
    and l: "fv_bytes v l = fv_local v path" "fv_lpos v (sc_out c1) l = 0"
    and size: "fi_Size info = int (length (fv_bytes v l))"
    and ts: "transferSession env gs (fi_Size info) c1 = Some ((s, grant), c2)"
    and up: "uploadOn env ord s (upload_op resume) l info p resume c2 = (err, c3)"
  shows "\<exists>new. upload_contents v resume path (remotePartialPath p) (sc_out c1) new \<and>
    (err = None \<longrightarrow> fv_rd v (sc_out c3) p = Some new) \<and>
    (fv_rd v (sc_out c3) p \<in> {fv_rd v (sc_out c1) p, Some new} \<or>
     (fv_rd v (sc_out c3) p = None \<and> (\<exists>s y. \<not> ss_HasPosixRename env s y))) \<and>
    (\<forall>r. r \<noteq> p \<longrightarrow> r \<noteq> remotePartialPath p \<longrightarrow> fv_rd v (sc_out c3) r = fv_rd v (sc_out c1) r)"
proof -
  let ?q = "remotePartialPath p"
  have c2: "same_files v (sc_out c1) (sc_out c2)" using transferSession_same [OF con gs ts] .
  then have lp: "fv_lpos v (sc_out c2) l = 0" using l by (simp add: same_files_def)
  have same: "fv_rd v (sc_out c2) = fv_rd v (sc_out c1)" "\<not> fv_dir v (sc_out c2) ?q"
    using c2 dir by (simp_all add: same_files_def)
  obtain offset where "\<not> resume \<longrightarrow> offset = 0"
    "offset_ok offset (fv_rd v (sc_out c1) ?q) (fv_local v path)"
    "replaced v env p ?q (resumed offset (fv_rd v (sc_out c1) ?q) (fv_local v path)) err (sc_out c2) (sc_out c3)"
    using uploadOn_rd [OF con ord lp size up] same l(1) by auto
  then show ?thesis
    using resumed_contents [of resume offset v "sc_out c1" ?q path] same(1)
    by (intro exI [of _ "resumed offset (fv_rd v (sc_out c1) ?q) (fv_local v path)"])
       (simp add: replaced_def)
qed


end
