(* ===== verification/Sftp_Example.thy ===== *)
theory Sftp_Example
  imports Sftp_Atomic
begin

text \<open>
  A small server for the witnesses of the SFTP client: files with contents, and one time
  for all of them; a handle is the name it was opened with, and an operation is only ever
  refused for a missing file. \<open>sv_posix\<close> of the environment says whether the server has the
  posix-rename extension.
\<close>

record srv =
  sv_rd :: "string \<Rightarrow> string option"
  sv_buf :: "string \<Rightarrow> string"
  sv_pos :: "string \<Rightarrow> nat"
  sv_lpos :: "string \<Rightarrow> nat"
  sv_mtime :: gotime

definition sv_missing :: "string \<Rightarrow> goerr" where
  "sv_missing p = PathError ''sftp'' p (Sentinel ErrNotExist)"

definition sv_info :: "string \<Rightarrow> gotime \<Rightarrow> string \<Rightarrow> FileInfo" where
  "sv_info name t b = \<lparr>fi_Name = name, fi_Size = int (length b), fi_ModTime = t, fi_Kind = KRegular, fi_Perm = 420\<rparr>"

definition sv_Rename :: "string \<Rightarrow> string \<Rightarrow> srv \<Rightarrow> goerr option \<times> srv" where
  "sv_Rename a b x =
    (case sv_rd x a of
       None \<Rightarrow> (Some (sv_missing a), x)
     | Some t \<Rightarrow> (None, x\<lparr>sv_rd := (sv_rd x)(a := None, b := Some t)\<rparr>))"

definition sv_OpenFile :: "string \<Rightarrow> bool \<Rightarrow> srv \<Rightarrow> string res \<times> srv" where
  "sv_OpenFile p tr x =
    (let t = (case sv_rd x p of Some t \<Rightarrow> if tr then '''' else t | None \<Rightarrow> '''')
     in (Inr p, x\<lparr>sv_rd := (sv_rd x)(p \<mapsto> t), sv_buf := (sv_buf x)(p := t), sv_pos := (sv_pos x)(p := 0)\<rparr>))"

text \<open>\<open>files\<close> are the local files.\<close>

definition sv_Copy :: "(string \<Rightarrow> string) \<Rightarrow> string \<Rightarrow> string \<Rightarrow> srv \<Rightarrow> (int \<times> goerr option) \<times> srv" where
  "sv_Copy files f l x =
    (let new = drop (sv_lpos x l) (files l); pos = sv_pos x f; old = sv_buf x f;
         t = take pos old @ new @ drop (pos + length new) old
     in ((int (length new), None), x\<lparr>sv_buf := (sv_buf x)(f := t)\<rparr>))"

definition sv_env :: "bool \<Rightarrow> (string \<Rightarrow> string) \<Rightarrow> gotime \<Rightarrow> (nat, string, string, unit, srv) sftp_env" where
  "sv_env posix files lmtime =
    \<lparr>se_now = (\<lambda>x. 2 ^ 63), se_NewClient = (\<lambda>n d x. (Inr 1, x)), ss_Close = (\<lambda>s d x. (None, x)),
     ss_Stat = (\<lambda>s p d x. ((case sv_rd x p of None \<Rightarrow> Inl (sv_missing p)
        | Some t \<Rightarrow> Inr (sv_info p (sv_mtime x) t)), x)),
     ss_ReadDir = (\<lambda>s p d x. (Inr [], x)),
     ss_OpenFile = (\<lambda>s p tr d x. sv_OpenFile p tr x),
     ss_Open = (\<lambda>s p d x. (Inr p, x)),
     ss_HasPosixRename = (\<lambda>s x. posix),
     ss_PosixRename = (\<lambda>s a b d x. sv_Rename a b x),
     ss_Rename = (\<lambda>s a b d x. if sv_rd x b \<noteq> None then (Some (StatusError 4 ''exists''), x) else sv_Rename a b x),
     ss_Remove = (\<lambda>s p d x. if sv_rd x p = None then (Some (sv_missing p), x)
        else (None, x\<lparr>sv_rd := (sv_rd x)(p := None)\<rparr>)),
     ss_Mkdir = (\<lambda>s p d x. (None, x)), ss_RemoveDirectory = (\<lambda>s p d x. (None, x)),
     ss_Chmod = (\<lambda>s p m d x. (None, x)), ss_Chtimes = (\<lambda>s p t d x. (None, x)),
     sf_Seek = (\<lambda>f n d x. (None, x\<lparr>sv_pos := (sv_pos x)(f := nat n)\<rparr>)),
     sf_ReadAt = (\<lambda>f n d x. (('''', None), x)),
     sf_Close = (\<lambda>f d x. (None, x\<lparr>sv_rd := (sv_rd x)(f \<mapsto> sv_buf x f)\<rparr>)),
     io_CopyUp = (\<lambda>f l d x. sv_Copy files f l x),
     ol_Open = (\<lambda>p x. (Inr p, x\<lparr>sv_lpos := (sv_lpos x)(p := 0)\<rparr>)),
     ol_Stat = (\<lambda>l x. Inr (sv_info l lmtime (files l))),
     ol_Seek = (\<lambda>l n x. (None, x\<lparr>sv_lpos := (sv_lpos x)(l := nat n)\<rparr>)),
     ol_Close = (\<lambda>l x. x), os_MkdirAll = (\<lambda>p x. (None, x)),
     se_os = (\<lambda>d. \<lparr>lo_CreateTemp = (\<lambda>d p x. (Inl (sv_missing p), x)), lo_Name = (\<lambda>t. ''''),
       lo_Copy = (\<lambda>t r x. ((0, None), x)), lo_Close = (\<lambda>t x. (None, x)),
       lo_Lstat = (\<lambda>p x. Inl (sv_missing p)), lo_Chmod = (\<lambda>p m x. (None, x)),
       lo_Chtimes = (\<lambda>p a m x. (None, x)), lo_Rename = (\<lambda>p q x. (None, x)),
       lo_Remove = (\<lambda>p x. (None, x))\<rparr>)\<rparr>"

definition sv_view :: "(string \<Rightarrow> string) \<Rightarrow> (string, string, srv) file_view" where
  "sv_view files = \<lparr>fv_rd = sv_rd, fv_dir = (\<lambda>x p. False), fv_path = (\<lambda>f. f), fv_buf = sv_buf,
     fv_pos = sv_pos, fv_local = files, fv_bytes = files, fv_lpos = sv_lpos\<rparr>"

lemma sv_view_sel [simp]:
  "fv_rd (sv_view files) = sv_rd" "fv_dir (sv_view files) = (\<lambda>x p. False)"
  "fv_path (sv_view files) = (\<lambda>f. f)" "fv_buf (sv_view files) = sv_buf" "fv_pos (sv_view files) = sv_pos"
  "fv_local (sv_view files) = files" "fv_bytes (sv_view files) = files" "fv_lpos (sv_view files) = sv_lpos"
  by (simp_all add: sv_view_def)

lemma sv_same_refl: "same_files (sv_view files) x x"
  by simp

lemma sv_contract: "sftp_contract (sv_view files) (sv_env posix files t)"
  unfolding sftp_contract_def sv_env_def sftp_env.simps
  by (intro conjI allI)
     (auto simp: harmless_def only_file_def no_new_dirs_def renames_def removes_def sv_Rename_def
        sv_OpenFile_def sv_Copy_def sv_info_def Let_def fun_eq_iff split: option.splits)

section \<open>Runs\<close>

definition ex_client :: "gotime \<Rightarrow> (string \<times> string) list \<Rightarrow> (nat, srv) sftp" where
  "ex_client t files = \<lparr>sc_conn = True, sc_deadlines = newDeadlineTracker, sc_ssh = True,
     sc_sftp = Some 0, sc_xfer = Some (newConnPool 4), sc_xferDisabled = False,
     sc_largeSlots = Some 0, sc_packetSize = 32768,
     sc_out = \<lparr>sv_rd = map_of files, sv_buf = (\<lambda>f. ''''), sv_pos = (\<lambda>f. 0), sv_lpos = (\<lambda>l. 0), sv_mtime = t\<rparr>\<rparr>"

definition ex_files :: "string \<Rightarrow> string" where
  "ex_files p = (if p = ''/l/a.txt'' then ''new contents'' else '''')"

definition ex_plain :: "(goerr option \<times> (nat, srv) sftp) option" where
  "ex_plain = sftp_upload (sv_env False ex_files 5) [] [FinChtimes, FinClose, FinChmod]
     ''/l/a.txt'' ''/a.txt'' False (ex_client 7 [(''/a.txt'', ''old''), (''/b'', ''b'')])"

lemma ex_plain_run: "map_option fst ex_plain = Some None"
  by code_simp


section \<open>What the contract does not exclude\<close>

definition ex_resume :: "(goerr option \<times> (nat, srv) sftp) option" where
  "ex_resume = sftp_UploadResume (sv_env True ex_files 5) [] [FinClose, FinChmod, FinChtimes]
     ''/l/a.txt'' ''/a.txt'' (ex_client 7 [(''/.a.txt.sfync-part'', ''OLD old'')])"


text \<open>
  A server can crash the client. File sizes are unsigned 64-bit numbers on the wire and
  become \<open>int64\<close>; a download of a file listed with a negative size reaches
  \<open>make([]byte, size)\<close>, which panics, and the whole process (for a mirror, a worker
  goroutine of it) ends.
\<close>

theorem negative_size_panics:
  assumes "n < 0" "0 < sc_packetSize c"
    and "os_MkdirAll env (path_Dir path) (sc_out c) = (None, x)"
    and "\<And>d y. \<exists>f z. ss_Open env (primary c) p d y = (Inr f, z)"
  shows "\<exists>c'. sftp_DownloadKnown env gs p path n t c = Some (Panicked, c')"
proof -
  have small: "n < LargeTransferSize" using assms(1) by (simp add: LargeTransferSize_def)
  obtain c1 where mk: "locally (os_MkdirAll env (path_Dir path)) c = (None, c1)"
    "sc_sftp c1 = sc_sftp c" "sc_packetSize c1 = sc_packetSize c"
    using assms(3) by (simp add: locally_def)
  have ts: "transferSession env gs n c1 = Some ((primary c, NoSlot), c1)"
    using small mk(2) by (simp add: transferSession_def primary_def)
  obtain k dl where b: "dt_begin (se_now env (sc_out c1)) (TransferTimeout n) (sc_deadlines c1) = (k, dl)"
    by fastforce
  let ?c = "c1\<lparr>sc_deadlines := dl\<rparr>"
  obtain f z where "ss_Open env (primary c) p (dt_conn dl) (sc_out c1) = (Inr f, z)" using assms(4) by blast
  then have "download_data env (primary c) p path n t ?c = (Panicked, ?c\<lparr>sc_out := z\<rparr>)"
    using assms(1,2) mk(3) by (simp add: download_data_def remote_def)
  then have "fst (downloadOn env (primary c) p path n t c1) = Panicked"
    using b by (simp add: downloadOn_def within_def)
  then show ?thesis
    using mk(1) ts by (cases "downloadOn env (primary c) p path n t c1")
      (simp add: sftp_DownloadKnown_def)
qed

theorem negative_size_panics_witness:
  "\<exists>c. sftp_DownloadKnown (sv_env True ex_files 5) [] ''/a.txt'' ''/l/a.txt'' (- 1) 7
     (ex_client 7 [(''/a.txt'', ''old'')]) = Some (Panicked, c)"
  by (rule negative_size_panics) (simp_all add: ex_client_def sv_env_def)

end
