(* ===== verification/Sftp_Deadline.thy ===== *)
theory Sftp_Deadline
  imports Sftp_Transfer
begin

text \<open>
  No call of the SFTP client waits for the server without a deadline, but for those that
  open and close extra sessions. \<open>timed I f\<close>: the call \<open>f\<close> keeps \<open>I\<close> when the connection has
  a deadline; so if \<open>I\<close> says that no call without one has been made so far, an operation
  keeps it exactly when it makes none.
\<close>

definition timed :: "('x \<Rightarrow> bool) \<Rightarrow> ('a, 'x) net_call \<Rightarrow> bool" where
  "timed I f \<longleftrightarrow> (\<forall>d x. 0 < d \<longrightarrow> I x \<longrightarrow> I (snd (f d x)))"

definition calls_timed :: "('x \<Rightarrow> bool) \<Rightarrow> ('s, 'f, 'l, 't, 'x) sftp_env \<Rightarrow> bool" where
  "calls_timed I env \<longleftrightarrow>
    (\<forall>s p. timed I (ss_Stat env s p)) \<and> (\<forall>s p. timed I (ss_ReadDir env s p)) \<and>
    (\<forall>s p tr. timed I (ss_OpenFile env s p tr)) \<and> (\<forall>s p. timed I (ss_Open env s p)) \<and>
    (\<forall>s a b. timed I (ss_PosixRename env s a b)) \<and> (\<forall>s a b. timed I (ss_Rename env s a b)) \<and>
    (\<forall>s p. timed I (ss_Remove env s p)) \<and> (\<forall>s p. timed I (ss_Mkdir env s p)) \<and>
    (\<forall>s p. timed I (ss_RemoveDirectory env s p)) \<and> (\<forall>s p m. timed I (ss_Chmod env s p m)) \<and>
    (\<forall>s p t. timed I (ss_Chtimes env s p t)) \<and> (\<forall>f n. timed I (sf_Seek env f n)) \<and>
    (\<forall>f n. timed I (sf_ReadAt env f n)) \<and> (\<forall>f. timed I (sf_Close env f)) \<and>
    (\<forall>f l. timed I (io_CopyUp env f l)) \<and>
    (\<forall>p src m. timed I (\<lambda>d. writeLocalAtomic (se_os env d) p src None m))"

text \<open>Local calls, and the sessions' own calls, with a deadline or without.\<close>

definition rest_keeps :: "('x \<Rightarrow> bool) \<Rightarrow> ('s, 'f, 'l, 't, 'x) sftp_env \<Rightarrow> bool" where
  "rest_keeps I env \<longleftrightarrow>
    (\<forall>p. keeps I (ol_Open env p)) \<and> (\<forall>l n. keeps I (ol_Seek env l n)) \<and>
    (\<forall>l x. I x \<longrightarrow> I (ol_Close env l x)) \<and> (\<forall>p. keeps I (os_MkdirAll env p)) \<and>
    (\<forall>n d. keeps I (se_NewClient env n d)) \<and> (\<forall>s d. keeps I (ss_Close env s d))"

text \<open>A clock past the year 293, and what the others do keeps \<open>I\<close>.\<close>

definition modern :: "('s, 'f, 'l, 't, 'x) sftp_env \<Rightarrow> bool" where
  "modern env \<longleftrightarrow> (\<forall>x. 2 ^ 63 < se_now env x)"

definition others_keep :: "('x \<Rightarrow> bool) \<Rightarrow> ('s, 'x) others \<Rightarrow> bool" where
  "others_keep I gs \<longleftrightarrow> (\<forall>g \<in> set gs. \<forall>c. I (sc_out c) \<longrightarrow> I (sc_out (g c)))"

section \<open>Lemmas\<close>

definition armed :: "('x \<Rightarrow> bool) \<Rightarrow> ('s, 'x) sftp \<Rightarrow> bool" where
  "armed I c \<longleftrightarrow> I (sc_out c) \<and> 0 < dt_conn (sc_deadlines c)"

lemma remote_armed: "timed I f \<Longrightarrow> armed I c \<Longrightarrow> remote f c = (a, c') \<Longrightarrow> armed I c'"
proof -
  assume f: "timed I f" and c: "armed I c" and r: "remote f c = (a, c')"
  have "I (snd (f (dt_conn (sc_deadlines c)) (sc_out c)))"
    using f c by (simp add: timed_def armed_def)
  then show ?thesis using r c by (auto simp: armed_def remote_def split: prod.splits)
qed

lemma locally_armed: "keeps I f \<Longrightarrow> armed I c \<Longrightarrow> locally f c = (a, c') \<Longrightarrow> armed I c'"
  by (auto simp: keeps_def armed_def locally_def Let_def split: prod.splits)

lemma locally_keeps: "keeps I f \<Longrightarrow> I (sc_out c) \<Longrightarrow> locally f c = (a, c') \<Longrightarrow> I (sc_out c')"
  by (auto simp: keeps_def locally_def Let_def split: prod.splits)

text \<open>Whatever \<open>within\<close> runs, it runs with a deadline.\<close>

lemma within_armed:
  assumes run: "within env d body c = (a, c')"
    and "modern env" "int64_range d" "I (sc_out c)"
    and body: "\<And>c1. armed I c1 \<Longrightarrow> I (sc_out (snd (body c1)))"
  shows "I (sc_out c')"
proof -
  let ?t = "snd (dt_begin (se_now env (sc_out c)) d (sc_deadlines c))"
  let ?c = "c\<lparr>sc_deadlines := ?t\<rparr>"
  have "0 < se_now env (sc_out c) + d"
    using assms(2) [unfolded modern_def, rule_format, of "sc_out c"] assms(3)
    by (simp add: int64_range_def)
  moreover have "se_now env (sc_out c) + d \<le> dt_conn ?t"
    by (rule dt_begin_ge)
  ultimately have "armed I ?c" using assms(4) by (simp add: armed_def)
  from body [OF this] show ?thesis
    using run by (auto simp: within_def case_prod_beta Let_def)
qed

lemma calls_timedD:
  assumes "calls_timed I env"
  shows "timed I (ss_Stat env s p)" "timed I (ss_ReadDir env s p)" "timed I (ss_OpenFile env s p tr)"
    "timed I (ss_Open env s p)" "timed I (ss_PosixRename env s a b)" "timed I (ss_Rename env s a b)"
    "timed I (ss_Remove env s p)" "timed I (ss_Mkdir env s p)" "timed I (ss_RemoveDirectory env s p)"
    "timed I (ss_Chmod env s p m)" "timed I (ss_Chtimes env s p t)" "timed I (sf_Seek env f n)"
    "timed I (sf_ReadAt env f n)" "timed I (sf_Close env f)" "timed I (io_CopyUp env f l)"
    "timed I (\<lambda>d. writeLocalAtomic (se_os env d) p src None t)"
  using assms by (simp_all add: calls_timed_def)

lemma rest_keepsD:
  assumes "rest_keeps I env"
  shows "keeps I (ol_Open env p)" "keeps I (ol_Seek env l n)" "I x \<Longrightarrow> I (ol_Close env l x)"
    "keeps I (os_MkdirAll env p)" "keeps I (se_NewClient env n d)" "keeps I (ss_Close env s d)"
  using assms by (simp_all add: rest_keeps_def)

lemma timeouts_in_range:
  "int64_range OperationTimeout" "int64_range ReadDirTimeout" "int64_range AliveTimeout"
  by (simp_all add: int64_range_def OperationTimeout_def ReadDirTimeout_def AliveTimeout_def)

lemma transfer_timeout_in_range: "int64_range (TransferTimeout n)"
  by (simp only: TransferTimeout_def Let_def int64_in_range)

text \<open>The operations that are one call on the primary session.\<close>

lemma within_call:
  fixes env :: "('s, 'f, 'l, 't, 'x) sftp_env" and c :: "('s, 'x) sftp"
  assumes "modern env" "int64_range d" and call: "\<And>s. timed I (call s)" and c: "I (sc_out c)"
    and post: "\<And>r c. snd (post r c) = (c :: ('s, 'x) sftp)"
  shows "I (sc_out (snd (within env d (\<lambda>c. case remote (call (primary c)) c of (r, c) \<Rightarrow> post r c) c)))"
proof -
  obtain r c' where run: "within env d (\<lambda>c. case remote (call (primary c)) c of (r, c) \<Rightarrow> post r c) c = (r, c')"
    by fastforce
  have "I (sc_out c')"
  proof (rule within_armed [where I = I, OF run assms(1,2) c])
    fix c1 :: "('s, 'x) sftp"
    assume a: "armed I c1"
    obtain r2 c2 where r: "remote (call (primary c1)) c1 = (r2, c2)" by fastforce
    show "I (sc_out (snd (case remote (call (primary c1)) c1 of (r, c) \<Rightarrow> post r c)))"
      using remote_armed [OF call a r] r by (simp add: armed_def post)
  qed
  then show ?thesis using run by simp
qed

lemma within_remote:
  fixes env :: "('s, 'f, 'l, 't, 'x) sftp_env" and c :: "('s, 'x) sftp"
  assumes "modern env" "int64_range d" "timed I f" "I (sc_out c)"
  shows "I (sc_out (snd (within env d (remote f) c)))"
  using within_call [where I = I and call = "\<lambda>_. f" and post = Pair, OF assms(1,2,3,4)] by simp

lemma one_call_keeps:
  fixes env :: "('s, 'f, 'l, 't, 'x) sftp_env" and c :: "('s, 'x) sftp"
  assumes "modern env" "\<And>s. timed I (call s)" "I (sc_out c)"
  shows "I (sc_out (snd (one_call op call env c)))"
  using within_call [where I = I and post = "\<lambda>r c. (wrapError op r, c)", OF assms(1)
      timeouts_in_range(1) assms(2,3)]
  by (simp add: one_call_def Let_def)

lemma stat_within_keeps:
  fixes env :: "('s, 'f, 'l, 't, 'x) sftp_env" and c :: "('s, 'x) sftp"
  assumes "modern env" "calls_timed I env" "I (sc_out c)"
  shows "I (sc_out (snd (stat_within p env c)))"
  using within_call [where I = I and call = "\<lambda>s. ss_Stat env s p" and post = Pair, OF assms(1)
      timeouts_in_range(1) calls_timedD(1) [OF assms(2)] assms(3)]
  by (simp add: stat_within_def)

lemma mkdir_within_keeps:
  fixes env :: "('s, 'f, 'l, 't, 'x) sftp_env" and c :: "('s, 'x) sftp"
  assumes "modern env" "calls_timed I env" "I (sc_out c)"
  shows "I (sc_out (snd (mkdir_within p env c)))"
  using within_call [where I = I and call = "\<lambda>s. ss_Mkdir env s p" and post = Pair, OF assms(1)
      timeouts_in_range(1) calls_timedD(8) [OF assms(2)] assms(3)]
  by (simp add: mkdir_within_def)

lemma Stat_keeps:
  fixes env :: "('s, 'f, 'l, 't, 'x) sftp_env" and c :: "('s, 'x) sftp"
  assumes "modern env" "calls_timed I env" "I (sc_out c)"
  shows "I (sc_out (snd (sftp_Stat p env c)))"
  unfolding sftp_Stat_def Let_def
  by (rule within_call [where I = I, OF assms(1) timeouts_in_range(1) calls_timedD(1) [OF assms(2)] assms(3)])
     (simp split: sum.splits)

lemma ReadDir_keeps:
  fixes env :: "('s, 'f, 'l, 't, 'x) sftp_env" and c :: "('s, 'x) sftp"
  assumes "modern env" "calls_timed I env" "I (sc_out c)"
  shows "I (sc_out (snd (sftp_ReadDir p env c)))"
  unfolding sftp_ReadDir_def Let_def
  by (rule within_call [where I = I, OF assms(1) timeouts_in_range(2) calls_timedD(2) [OF assms(2)] assms(3)])
     (simp split: sum.splits)

lemma IsAlive_keeps:
  fixes env :: "('s, 'f, 'l, 't, 'x) sftp_env" and c :: "('s, 'x) sftp"
  assumes "modern env" "calls_timed I env" "I (sc_out c)"
  shows "I (sc_out (snd (sftp_IsAlive env c)))"
  using within_call [where I = I and call = "\<lambda>s. ss_Stat env s ''.''" and
      post = "\<lambda>r c. (case r of Inl _ \<Rightarrow> False | Inr _ \<Rightarrow> True, c)", OF assms(1)
      timeouts_in_range(3) calls_timedD(1) [OF assms(2)] assms(3)] assms(3)
  by (simp add: sftp_IsAlive_def Let_def)

lemma mkdir_components_keeps:
  fixes env :: "('s, 'f, 'l, 't, 'x) sftp_env" and c :: "('s, 'x) sftp"
  assumes "modern env" "calls_timed I env"
  shows "I (sc_out c) \<Longrightarrow> I (sc_out (snd (mkdir_components env cur cs c)))"
proof (induction cs arbitrary: cur c)
  case (Cons x cs)
  define cur' where "cur' = (if cur = ''/'' then ''/'' @ x else cur @ ''/'' @ x)"
  obtain r1 c1 where s1: "stat_within cur' env c = (r1, c1)" by fastforce
  have c1: "I (sc_out c1)" using stat_within_keeps [where I = I, OF assms Cons.prems, of cur'] s1 by simp
  obtain r2 c2 where m: "mkdir_within cur' env c1 = (r2, c2)" by fastforce
  have c2: "I (sc_out c2)" using mkdir_within_keeps [where I = I, OF assms c1, of cur'] m by simp
  obtain r3 c3 where s3: "stat_within cur' env c2 = (r3, c3)" by fastforce
  have c3: "I (sc_out c3)" using stat_within_keeps [where I = I, OF assms c2, of cur'] s3 by simp
  show ?case
  proof (cases "x = ''''")
    case False
    have step: "mkdir_components env cur (x # cs) c =
        (case r1 of Inr _ \<Rightarrow> mkdir_components env cur' cs c1
         | Inl _ \<Rightarrow> (case r2 of None \<Rightarrow> mkdir_components env cur' cs c2
           | Some e \<Rightarrow> (case r3 of Inr _ \<Rightarrow> mkdir_components env cur' cs c3
             | Inl _ \<Rightarrow> (wrapError ''mkdir'' (Some e), c3))))"
      unfolding mkdir_components.simps Let_def cur'_def [symmetric] if_not_P [OF False] s1 prod.case m
      by (cases r1; cases r2; cases r3) (simp_all add: s3)
    show ?thesis
      unfolding step using Cons.IH c1 c2 c3 by (auto split: sum.splits option.splits)
  qed (use Cons in simp)
qed simp

lemma MkdirAll_keeps:
  fixes env :: "('s, 'f, 'l, 't, 'x) sftp_env" and c :: "('s, 'x) sftp"
  assumes "modern env" "calls_timed I env" "I (sc_out c)"
  shows "I (sc_out (snd (sftp_MkdirAll p env c)))"
proof -
  obtain r c1 where s: "stat_within p env c = (r, c1)" by fastforce
  have "I (sc_out c1)" using stat_within_keeps [where I = I, OF assms, of p] s by simp
  then show ?thesis
    using s mkdir_components_keeps [where I = I, OF assms(1,2)] assms(3) by (simp add: sftp_MkdirAll_def)
qed

section \<open>Transfers\<close>

lemma removeQuiet_keeps:
  fixes env :: "('s, 'f, 'l, 't, 'x) sftp_env" and c :: "('s, 'x) sftp"
  assumes "modern env" "calls_timed I env" "I (sc_out c)"
  shows "I (sc_out (removeQuiet env s p c))"
  unfolding removeQuiet_def
  using within_remote [where I = I, OF assms(1) timeouts_in_range(1) calls_timedD(7) [OF assms(2)] assms(3)] .

lemma drop_partial_keeps:
  fixes env :: "('s, 'f, 'l, 't, 'x) sftp_env" and c :: "('s, 'x) sftp"
  assumes "modern env" "calls_timed I env" "I (sc_out c)"
  shows "I (sc_out (drop_partial env s p resume c))"
  using removeQuiet_keeps [where I = I, OF assms] assms(3) by (simp add: drop_partial_def)

lemma run_finishing_armed:
  fixes env :: "('s, 'f, 'l, 't, 'x) sftp_env" and c :: "('s, 'x) sftp"
  assumes "calls_timed I env"
  shows "armed I c \<Longrightarrow> run_finishing env s f q info fs ce c = (err, c') \<Longrightarrow> armed I c'"
proof (induction fs arbitrary: ce c)
  case (Cons x fs)
  note timed = calls_timedD(10,11,14) [OF assms]
  show ?case
  proof (cases x)
    case FinClose
    obtain e c1 where r: "remote (sf_Close env f) c = (e, c1)" by fastforce
    then have "run_finishing env s f q info fs e c1 = (err, c')" using Cons.prems(2) FinClose by simp
    from Cons.IH [OF remote_armed [OF timed(3) Cons.prems(1) r] this] show ?thesis .
  next
    case FinChmod
    obtain e c1 where r: "remote (ss_Chmod env s q (fi_Perm info)) c = (e, c1)" by fastforce
    then have "run_finishing env s f q info fs ce c1 = (err, c')" using Cons.prems(2) FinChmod by simp
    from Cons.IH [OF remote_armed [OF timed(1) Cons.prems(1) r] this] show ?thesis .
  next
    case FinChtimes
    obtain e c1 where r: "remote (ss_Chtimes env s q (fi_ModTime info)) c = (e, c1)" by fastforce
    then have "run_finishing env s f q info fs ce c1 = (err, c')" using Cons.prems(2) FinChtimes by simp
    from Cons.IH [OF remote_armed [OF timed(2) Cons.prems(1) r] this] show ?thesis .
  qed
qed simp

lemma send_data_armed:
  fixes env :: "('s, 'f, 'l, 't, 'x) sftp_env" and c :: "('s, 'x) sftp"
  assumes timed: "calls_timed I env" and rest: "rest_keeps I env"
    and c: "armed I c" and run: "send_data env f l n c = (err, c')"
  shows "armed I c'"
proof -
  obtain e1 c1 where pos: "(if n > 0 then
      (case locally (ol_Seek env l n) c of
         (None, c) \<Rightarrow> remote (sf_Seek env f n) c | (Some e, c) \<Rightarrow> (Some e, c))
      else (None, c)) = (e1, c1)" by fastforce
  obtain e0 c0 where l: "locally (ol_Seek env l n) c = (e0, c0)" by fastforce
  have c0: "armed I c0" using locally_armed [OF rest_keepsD(2) [OF rest] c l] .
  have c1: "armed I c1"
    using pos l c c0 remote_armed [OF calls_timedD(12) [OF timed] c0]
    by (auto split: if_splits option.splits)
  obtain n2 e2 c2 where cp: "remote (io_CopyUp env f l) c1 = ((n2, e2), c2)" by (metis prod.exhaust)
  have "armed I c2" using remote_armed [OF calls_timedD(15) [OF timed] c1 cp] .
  then show ?thesis
    using run pos cp c1 unfolding send_data_def Let_def by (auto split: if_splits)
qed

lemma sftpReplace_armed:
  fixes env :: "('s, 'f, 'l, 't, 'x) sftp_env" and c :: "('s, 'x) sftp"
  assumes timed: "calls_timed I env" and c: "armed I c" and run: "sftpReplace env s a b c = (err, c')"
  shows "armed I c'"
proof -
  note rename = remote_armed [OF calls_timedD(6) [OF timed]]
  obtain e1 c1 where r1: "remote (ss_Rename env s a b) c = (e1, c1)" by fastforce
  obtain e2 c2 where r2: "remote (ss_Remove env s b) c1 = (e2, c2)" by fastforce
  obtain e3 c3 where r3: "remote (ss_Rename env s a b) c2 = (e3, c3)" by fastforce
  have "armed I c1" using rename [OF c r1] .
  moreover from this have "armed I c2" using remote_armed [OF calls_timedD(7) [OF timed] _ r2] by blast
  moreover from this have "armed I c3" using rename [OF _ r3] by blast
  ultimately show ?thesis
    using run r1 r2 r3 remote_armed [OF calls_timedD(5) [OF timed] c, of s a b err c']
    by (auto simp: sftpReplace_def split: if_splits option.splits)
qed

lemma upload_data_keeps:
  fixes env :: "('s, 'f, 'l, 't, 'x) sftp_env" and c :: "('s, 'x) sftp"
  assumes modern: "modern env" and timed: "calls_timed I env" and rest: "rest_keeps I env"
    and c: "armed I c"
  shows "I (sc_out (snd (upload_data env ord s op l info p resume n c)))"
proof -
  let ?q = "remotePartialPath p"
  note drop = drop_partial_keeps [where I = I, OF modern timed]
  note quiet = removeQuiet_keeps [where I = I, OF modern timed]
  obtain r c1 where o1: "remote (ss_OpenFile env s ?q (n = 0)) c = (r, c1)" by fastforce
  have c1: "armed I c1" using remote_armed [OF calls_timedD(3) [OF timed] c o1] .
  show ?thesis
  proof (cases r)
    case (Inl e)
    then show ?thesis using o1 c1 by (simp add: upload_data_def Let_def armed_def)
  next
    case (Inr f)
    obtain e2 c2 where sd: "send_data env f l n c1 = (e2, c2)" by fastforce
    have c2: "armed I c2" using send_data_armed [OF timed rest c1 sd] .
    obtain e3 c3 where cl: "remote (sf_Close env f) c2 = (e3, c3)" by fastforce
    have c3: "armed I c3" using remote_armed [OF calls_timedD(14) [OF timed] c2 cl] .
    obtain e4 c4 where fin: "run_finishing env s f ?q info ord None c2 = (e4, c4)" by fastforce
    have c4: "armed I c4" using run_finishing_armed [OF timed c2 fin] .
    obtain e5 c5 where rp: "sftpReplace env s ?q p c4 = (e5, c5)" by fastforce
    have c5: "armed I c5" using sftpReplace_armed [OF timed c4 rp] .
    have "I (sc_out c3)" "I (sc_out c4)" "I (sc_out c5)" using c3 c4 c5 by (simp_all add: armed_def)
    then show ?thesis
      using o1 Inr sd cl fin rp drop quiet
      by (cases e2; cases e4; cases e5) (simp_all add: upload_data_def Let_def)
  qed
qed

lemma uploadOn_keeps:
  fixes env :: "('s, 'f, 'l, 't, 'x) sftp_env" and c :: "('s, 'x) sftp"
  assumes modern: "modern env" and timed: "calls_timed I env" and rest: "rest_keeps I env"
    and c: "I (sc_out c)" and run: "uploadOn env ord s op l info p resume c = (err, c')"
  shows "I (sc_out c')"
proof -
  obtain n c1 where ro: "resume_offset env s (remotePartialPath p) info resume c = (n, c1)" by fastforce
  obtain r c2 where w: "within env OperationTimeout (remote (ss_Stat env s (remotePartialPath p))) c = (r, c2)"
    by fastforce
  have "I (sc_out c2)"
    using within_remote [where I = I, OF modern timeouts_in_range(1) calls_timedD(1) [OF timed] c] w
    by (metis snd_conv)
  then have c1: "I (sc_out c1)"
    using ro w c by (auto simp: resume_offset_def split: if_splits sum.splits)
  show ?thesis
    by (rule within_armed [where I = I, OF _ modern transfer_timeout_in_range c1
          upload_data_keeps [OF modern timed rest]])
       (use run ro in \<open>simp_all add: uploadOn_def Let_def\<close>)
qed

lemma downloadOn_keeps:
  fixes env :: "('s, 'f, 'l, 't, 'x) sftp_env" and c :: "('s, 'x) sftp"
  assumes modern: "modern env" and timed: "calls_timed I env"
    and c: "I (sc_out c)" and run: "downloadOn env s p loc n t c = (r, c')"
  shows "I (sc_out c')"
proof (rule within_armed [where I = I, OF run [unfolded downloadOn_def] modern transfer_timeout_in_range c])
  fix c1 :: "('s, 'x) sftp"
  assume c1: "armed I c1"
  have store: "armed I (snd (store_local env loc src t c2))" if "armed I c2" for c2 :: "('s, 'x) sftp" and src
    using remote_armed [OF calls_timedD(16) [OF timed] that]
    by (auto simp: store_local_def split: prod.splits)
  have close: "armed I (snd (remote (sf_Close env f) c2))" if "armed I c2" for c2 :: "('s, 'x) sftp" and f
    using remote_armed [OF calls_timedD(14) [OF timed] that] by (metis prod.collapse)
  have fetch: "armed I c3" if "armed I c2" "fetch_small env f n c2 = (r, c3)" for c2 c3 :: "('s, 'x) sftp" and r f
  proof -
    obtain b e c4 where a: "remote (sf_ReadAt env f n) c2 = ((b, e), c4)" by (metis prod.exhaust)
    have "armed I c4" using remote_armed [OF calls_timedD(13) [OF timed] that(1) a] .
    then show ?thesis
      using that(2) a close [of c4 f] by (auto simp: fetch_small_def Let_def split: option.splits if_splits)
  qed
  obtain o2 c2 where o2: "remote (ss_Open env s p) c1 = (o2, c2)" by fastforce
  have c2: "armed I c2" using remote_armed [OF calls_timedD(4) [OF timed] c1 o2] .
  have "armed I (snd (download_data env s p loc n t c1))"
  proof (cases o2)
    case (Inr f)
    obtain b c3 where f: "fetch_small env f n c2 = (b, c3)" by fastforce
    have c3: "armed I c3" using fetch [OF c2 f] .
    show ?thesis
      using o2 Inr f c2 c3 store close
      by (cases b) (auto simp: download_data_def Let_def case_prod_beta)
  qed (use o2 c2 in \<open>simp add: download_data_def\<close>)
  then show "I (sc_out (snd (download_data env s p loc n t c1)))" by (simp add: armed_def)
qed

text \<open>Sessions.\<close>

lemma remote_any:
  "(\<And>d. keeps I (f d)) \<Longrightarrow> I (sc_out c) \<Longrightarrow> I (sc_out (snd (remote f c)))"
  by (simp add: remote_def Let_def case_prod_beta keepsD)

lemma xfer_acquire_keeps:
  fixes env :: "('s, 'f, 'l, 't, 'x) sftp_env" and c :: "('s, 'x) sftp"
  assumes rest: "rest_keeps I env"
  shows "others_keep I gs \<Longrightarrow> I (sc_out c) \<Longrightarrow> xfer_acquire env gs waited c = Some (r, c') \<Longrightarrow> I (sc_out c')"
proof (induction gs arbitrary: waited c)
  case Nil
  obtain a p where "acquire_try waited (the (sc_xfer c)) = (a, p)" by fastforce
  then show ?case using Nil by (cases a) auto
next
  case (Cons g gs)
  obtain a p where ap: "acquire_try waited (the (sc_xfer c)) = (a, p)" by fastforce
  have g: "\<And>d. I (sc_out d) \<Longrightarrow> I (sc_out (g d))" and gs: "others_keep I gs"
    using Cons.prems(1) by (simp_all add: others_keep_def)
  let ?c = "c\<lparr>sc_xfer := Some p\<rparr>"
  show ?case
  proof (cases a)
    case StartDial
    obtain s c1 where r: "remote (se_NewClient env (sftpOptions c)) ?c = (s, c1)" by fastforce
    have "I (sc_out (snd (remote (se_NewClient env (sftpOptions c)) ?c)))"
      by (rule remote_any [where I = I, OF rest_keepsD(5) [OF rest]]) (use Cons.prems(2) in simp)
    then have "I (sc_out c1)" by (simp add: r)
    then have c1: "I (sc_out (g c1))" by (rule g)
    obtain o1 p1 where dd: "dial_done s (the (sc_xfer (g c1))) = (o1, p1)" by fastforce
    let ?d = "(g c1)\<lparr>sc_xfer := Some p1\<rparr>"
    have d: "I (sc_out ?d)" using c1 by simp
    show ?thesis
    proof (cases o1)
      case (DLate s)
      then have "c' = snd (remote (ss_Close env s) ?d)"
        using Cons.prems(3) ap StartDial r dd by (simp add: Let_def)
      then show ?thesis using remote_any [where I = I, OF rest_keepsD(6) [OF rest] d] by simp
    next
      case (DRetry k)
      then have "xfer_acquire env gs waited ?d = Some (r, c')"
        using Cons.prems(3) ap StartDial r dd by (simp add: Let_def)
      from Cons.IH [OF gs d this] show ?thesis .
    qed (use Cons.prems(3) ap StartDial r dd c1 in \<open>auto simp: Let_def\<close>)
  next
    case WaitCond
    then have "xfer_acquire env gs True (g ?c) = Some (r, c')" using Cons.prems(3) ap by simp
    moreover have "I (sc_out (g ?c))" using g Cons.prems(2) by simp
    ultimately show ?thesis using Cons.IH [OF gs] by blast
  qed (use Cons.prems ap in auto)
qed

lemma sftpOptions_slots [simp]: "sftpOptions (c\<lparr>sc_largeSlots := k\<rparr>) = sftpOptions c"
  by (simp add: sftpOptions_def)

lemma take_slot_keeps:
  fixes c :: "('s, 'x) sftp"
  shows "others_keep I gs \<Longrightarrow> I (sc_out c) \<Longrightarrow> take_slot gs c = Some (gs', c') \<Longrightarrow>
    others_keep I gs' \<and> I (sc_out c')"
proof (induction gs arbitrary: c)
  case (Cons g gs)
  show ?case
  proof (cases "the (sc_largeSlots c) < MaxConcurrentLargeTransfers")
    case False
    then have "take_slot gs (g c) = Some (gs', c')"
      using Cons.prems(3) by (simp only: take_slot.simps if_False)
    then show ?thesis using Cons.IH [of "g c"] Cons.prems by (simp add: others_keep_def)
  qed (use Cons.prems in \<open>auto simp: take_slot.simps\<close>)
qed (auto simp: take_slot.simps split: if_splits)

lemma transferSession_keeps:
  fixes env :: "('s, 'f, 'l, 't, 'x) sftp_env" and c :: "('s, 'x) sftp"
  assumes rest: "rest_keeps I env" and gs: "others_keep I gs" and c: "I (sc_out c)"
    and run: "transferSession env gs n c = Some (sl, c')"
  shows "I (sc_out c')"
proof (cases "n < LargeTransferSize \<or> sc_largeSlots c = None")
  case False
  then obtain hs c1 where t: "take_slot gs c = Some (hs, c1)"
    using run by (auto simp: transferSession_def split: option.splits)
  have c1: "others_keep I hs" "I (sc_out c1)" using take_slot_keeps [OF gs c t] by auto
  show ?thesis
  proof (cases "sc_xfer c1 \<noteq> None \<and> \<not> sc_xferDisabled c1")
    case True
    then obtain r c2 where x: "xfer_acquire env hs False c1 = Some (r, c2)"
      using run False t unfolding transferSession_def
      by (cases "xfer_acquire env hs False c1") auto
    have "sc_out c' = sc_out c2"
      using run False t True x unfolding transferSession_def
      by (cases r) (auto simp: Let_def split: if_splits)
    then show ?thesis using xfer_acquire_keeps [where I = I, OF rest c1 x] by simp
  qed (use run False t c1 in \<open>auto simp: transferSession_def\<close>)
qed (use run c in \<open>auto simp: transferSession_def\<close>)

lemma release_session_keeps:
  fixes env :: "('s, 'f, 'l, 't, 'x) sftp_env" and c :: "('s, 'x) sftp"
  assumes rest: "rest_keeps I env" and c: "I (sc_out c)"
  shows "I (sc_out (release_session env grant err c))"
proof (cases grant)
  case (SlotSession s)
  obtain b p where "release s (sftpSessionBroken err) (the (sc_xfer c)) = (b, p)" by fastforce
  moreover have "I (sc_out (snd (remote (ss_Close env s) (c\<lparr>sc_xfer := Some p\<rparr>))))"
    by (rule remote_any [where I = I, OF rest_keepsD(6) [OF rest]]) (use c in simp)
  ultimately show ?thesis using SlotSession c by (cases b) (simp_all add: Let_def freeSlot_def)
qed (use c in \<open>simp_all add: freeSlot_def\<close>)

lemma upload_keeps:
  fixes env :: "('s, 'f, 'l, 't, 'x) sftp_env" and c :: "('s, 'x) sftp"
  assumes modern: "modern env" and timed: "calls_timed I env" and rest: "rest_keeps I env"
    and gs: "others_keep I gs" and c: "I (sc_out c)"
    and run: "sftp_upload env gs ord path p resume c = Some (err, c')"
  shows "I (sc_out c')"
proof -
  obtain r c1 where op: "locally (ol_Open env path) c = (r, c1)" by fastforce
  have c1: "I (sc_out c1)" using locally_keeps [OF rest_keepsD(1) [OF rest] c op] .
  show ?thesis
  proof (cases r)
    case (Inr l)
    show ?thesis
    proof (cases "ol_Stat env l (sc_out c1)")
      case info: (Inr info)
      obtain s grant c2 where ts: "transferSession env gs (fi_Size info) c1 = Some ((s, grant), c2)"
        using run op Inr info by (auto simp: sftp_upload_def Let_def split: option.splits)
      have c2: "I (sc_out c2)" using transferSession_keeps [OF rest gs c1 ts] .
      obtain e c3 where up: "uploadOn env ord s (upload_op resume) l info p resume c2 = (e, c3)" by fastforce
      have c3: "I (sc_out c3)" using uploadOn_keeps [OF modern timed rest c2 up] .
      show ?thesis
        using run op Inr info ts up release_session_keeps [OF rest c3] rest_keepsD(3) [OF rest]
        by (auto simp: sftp_upload_def Let_def)
    qed (use run op Inr c1 rest_keepsD(3) [OF rest] in \<open>auto simp: sftp_upload_def Let_def\<close>)
  qed (use run op c1 in \<open>auto simp: sftp_upload_def Let_def\<close>)
qed

lemma DownloadKnown_keeps:
  fixes env :: "('s, 'f, 'l, 't, 'x) sftp_env" and c :: "('s, 'x) sftp"
  assumes modern: "modern env" and timed: "calls_timed I env" and rest: "rest_keeps I env"
    and gs: "others_keep I gs" and c: "I (sc_out c)"
    and run: "sftp_DownloadKnown env gs p path n t c = Some (r, c')"
  shows "I (sc_out c')"
proof -
  obtain e c1 where mk: "locally (os_MkdirAll env (path_Dir path)) c = (e, c1)" by fastforce
  have c1: "I (sc_out c1)" using locally_keeps [OF rest_keepsD(4) [OF rest] c mk] .
  show ?thesis
  proof (cases e)
    case None
    obtain s grant c2 where ts: "transferSession env gs n c1 = Some ((s, grant), c2)"
      using run mk None by (auto simp: sftp_DownloadKnown_def split: option.splits)
    have c2: "I (sc_out c2)" using transferSession_keeps [OF rest gs c1 ts] .
    obtain d c3 where dl: "downloadOn env s p path n t c2 = (d, c3)" by fastforce
    have c3: "I (sc_out c3)" using downloadOn_keeps [OF modern timed c2 dl] .
    show ?thesis
      using run mk None ts dl c3 release_session_keeps [OF rest c3]
      by (cases d) (auto simp: sftp_DownloadKnown_def)
  qed (use run mk c1 in \<open>auto simp: sftp_DownloadKnown_def\<close>)
qed

lemma Download_keeps:
  fixes env :: "('s, 'f, 'l, 't, 'x) sftp_env" and c :: "('s, 'x) sftp"
  assumes modern: "modern env" and timed: "calls_timed I env" and rest: "rest_keeps I env"
    and gs: "others_keep I gs" and c: "I (sc_out c)"
    and run: "sftp_Download env gs p path c = Some (r, c')"
  shows "I (sc_out c')"
proof -
  obtain s c1 where st: "stat_within p env c = (s, c1)" by fastforce
  have c1: "I (sc_out c1)" using stat_within_keeps [where I = I, OF modern timed c, of p] st by simp
  show ?thesis
  proof (cases s)
    case (Inr i)
    then have "sftp_DownloadKnown env gs p path (fi_Size i) (fi_ModTime i) c1 = Some (r, c')"
      using run st by (simp add: sftp_Download_def)
    then show ?thesis by (rule DownloadKnown_keeps [OF modern timed rest gs c1])
  qed (use run st c1 in \<open>auto simp: sftp_Download_def\<close>)
qed

section \<open>The properties\<close>


text \<open>
  The exception: an extra session is opened without a deadline. When a client with
  nothing else in flight transfers its first large file, \<open>transferSession\<close> calls
  \<open>sftp.NewClient\<close> (a channel request and the SFTP version exchange) before any \<open>begin\<close>, on
  a connection whose deadline is cleared: a server that has stopped answering blocks the
  transfer, and whoever waits for it, for ever.
\<close>

theorem session_opened_without_deadline:
  assumes "dt_conn (sc_deadlines c) = 0" "LargeTransferSize \<le> n" "sc_largeSlots c = Some 0"
    and "sc_xfer c = Some (newConnPool 4)" "\<not> sc_xferDisabled c"
    and "se_NewClient env (sftpOptions c) 0 (sc_out c) = (Inr s, x)"
  shows "\<exists>c'. transferSession env [\<lambda>c. c] n c = Some ((s, SlotSession s), c') \<and> sc_out c' = x"
  using assms
  by (simp add: transferSession_def take_slot.simps MaxConcurrentLargeTransfers_def newConnPool_def
      acquire_try_def remote_def dial_done_def Let_def)

section \<open>Runs\<close>

text \<open>
  A server every call of which succeeds; its state says whether some call was made without
  a deadline. The files have \<open>n\<close> bytes;
  \<open>b\<close> says whether opening a session counts.
\<close>

definition flag :: "'a \<Rightarrow> ('a, bool) net_call" where
  "flag a d x = (a, x \<or> d = 0)"

definition flag_info :: "int \<Rightarrow> FileInfo" where
  "flag_info n = \<lparr>fi_Name = ''f'', fi_Size = n, fi_ModTime = 5, fi_Kind = KRegular, fi_Perm = 420\<rparr>"

definition flag_env :: "bool \<Rightarrow> int \<Rightarrow> (nat, nat, nat, nat, bool) sftp_env" where
  "flag_env b n =
    \<lparr>se_now = (\<lambda>x. 2 ^ 64), se_NewClient = (\<lambda>k d x. (Inr 1, x \<or> (b \<and> d = 0))),
     ss_Close = (\<lambda>s d x. (None, x)),
     ss_Stat = (\<lambda>s p. flag (Inr (flag_info n))), ss_ReadDir = (\<lambda>s p. flag (Inr [flag_info n])),
     ss_OpenFile = (\<lambda>s p tr. flag (Inr 0)), ss_Open = (\<lambda>s p. flag (Inr 0)),
     ss_HasPosixRename = (\<lambda>s x. True), ss_PosixRename = (\<lambda>s a b. flag None),
     ss_Rename = (\<lambda>s a b. flag None), ss_Remove = (\<lambda>s p. flag None), ss_Mkdir = (\<lambda>s p. flag None),
     ss_RemoveDirectory = (\<lambda>s p. flag None), ss_Chmod = (\<lambda>s p m. flag None),
     ss_Chtimes = (\<lambda>s p t. flag None), sf_Seek = (\<lambda>f k. flag None),
     sf_ReadAt = (\<lambda>f k. flag ('''', None)), sf_Close = (\<lambda>f. flag None), io_CopyUp = (\<lambda>f l. flag (n, None)),
     ol_Open = (\<lambda>p x. (Inr 0, x)), ol_Stat = (\<lambda>l x. Inr (flag_info n)), ol_Seek = (\<lambda>l k x. (None, x)),
     ol_Close = (\<lambda>l x. x), os_MkdirAll = (\<lambda>p x. (None, x)),
     se_os = (\<lambda>d. \<lparr>lo_CreateTemp = (\<lambda>d p x. (Inr 0, x)), lo_Name = (\<lambda>t. ''''),
       lo_Copy = (\<lambda>t r. flag (n, None) d), lo_Close = (\<lambda>t x. (None, x)),
       lo_Lstat = (\<lambda>p x. Inr (flag_info n)), lo_Chmod = (\<lambda>p m x. (None, x)),
       lo_Chtimes = (\<lambda>p a m x. (None, x)), lo_Rename = (\<lambda>p q x. (None, x)),
       lo_Remove = (\<lambda>p x. (None, x))\<rparr>)\<rparr>"

definition flag_client :: "(nat, bool) sftp" where
  "flag_client = \<lparr>sc_conn = True, sc_deadlines = newDeadlineTracker, sc_ssh = True,
     sc_sftp = Some 0, sc_xfer = Some (newConnPool 4), sc_xferDisabled = False,
     sc_largeSlots = Some 0, sc_packetSize = 32768, sc_out = False\<rparr>"

lemma flag_timed: "timed Not (flag a)"
  by (simp add: timed_def flag_def)

lemma flag_env_timed: "calls_timed Not (flag_env b n)"
proof -
  have "timed Not (\<lambda>d. writeLocalAtomic (se_os (flag_env b n) d) p src None m)" for p src m
    unfolding timed_def
    by (simp add: writeLocalAtomic_def flag_env_def flag_def run_finish_def first_err_def
        commit_temp_def Let_def)
  then show ?thesis by (simp add: calls_timed_def flag_timed flag_env_def)
qed

lemma flag_env_rest: "modern (flag_env b n)" "rest_keeps Not (flag_env False n)"
  by (simp_all add: modern_def rest_keeps_def keeps_def flag_env_def)

lemma flag_upload_run:
  "map_option fst (sftp_upload (flag_env False 9) [] [FinClose, FinChmod, FinChtimes]
     ''/l'' ''/r'' False flag_client) = Some None"
  by code_simp


theorem session_opened_without_deadline_witness:
  "\<exists>c. transferSession (flag_env True (2 ^ 20)) [\<lambda>c. c] (2 ^ 20) flag_client =
     Some ((1, SlotSession 1), c) \<and> sc_out c"
  using session_opened_without_deadline [where c = flag_client and n = "2 ^ 20" and
      env = "flag_env True (2 ^ 20)" and s = 1 and x = True]
  by (simp add: flag_client_def flag_env_def newDeadlineTracker_def LargeTransferSize_def)

end
