(* ===== verification/Sftp_Mkdir.thy ===== *)
theory Sftp_Mkdir
  imports Sftp_Atomic
begin

text \<open>
  \<open>MkdirAll\<close> of the SFTP client: what a success means for the directories above a path, and
  what it does not mean. \<open>ex x p\<close>: something is at \<open>p\<close> on the server.
\<close>

definition mkdir_contract ::
  "('x \<Rightarrow> string \<Rightarrow> bool) \<Rightarrow> ('s, 'f, 'l, 't, 'x) sftp_env \<Rightarrow> bool" where
  "mkdir_contract ex env \<longleftrightarrow>
    (\<forall>s p d x. case ss_Stat env s p d x of (r, x') \<Rightarrow>
       (\<forall>q. ex x q \<longrightarrow> ex x' q) \<and>
       ((\<exists>i. r = Inr i) \<longrightarrow> ex x' p \<and> (\<forall>cs k. p = build_path True cs \<and> 0 < k \<and> k \<le> length cs \<longrightarrow>
          ex x' (build_path True (take k cs))))) \<and>
    (\<forall>s p d x. case ss_Mkdir env s p d x of (e, x') \<Rightarrow>
       (\<forall>q. ex x q \<longrightarrow> ex x' q) \<and> (e = None \<longrightarrow> ex x' p))"

section \<open>Lemmas\<close>

lemma stat_within_ex:
  fixes env :: "('s, 'f, 'l, 't, 'x) sftp_env" and c :: "('s, 'x) sftp"
  assumes con: "mkdir_contract ex env" and run: "stat_within p env c = (r, c')"
  shows "(\<forall>q. ex (sc_out c) q \<longrightarrow> ex (sc_out c') q) \<and> ((\<exists>i. r = Inr i) \<longrightarrow> ex (sc_out c') p) \<and>
    ((\<exists>i. r = Inr i) \<longrightarrow> (\<forall>cs k. p = build_path True cs \<and> 0 < k \<and> k \<le> length cs \<longrightarrow>
       ex (sc_out c') (build_path True (take k cs))))"
proof -
  obtain a b :: "('s, 'x) sftp" where *: "sc_out a = sc_out c" "remote (ss_Stat env (primary a) p) a = (r, b)"
    "sc_out c' = sc_out b" using within_out [OF run [unfolded stat_within_def]] by blast
  show ?thesis
    using con [unfolded mkdir_contract_def, THEN conjunct1, THEN spec [where x = "primary a"], THEN spec [where x = p],
        THEN spec [where x = "dt_conn (sc_deadlines a)"], THEN spec [where x = "sc_out a"]]
    by (simp add: remote_out [OF *(2)] *(3) flip: *(1))
qed

lemma mkdir_within_ex:
  fixes env :: "('s, 'f, 'l, 't, 'x) sftp_env" and c :: "('s, 'x) sftp"
  assumes con: "mkdir_contract ex env" and run: "mkdir_within p env c = (r, c')"
  shows "(\<forall>q. ex (sc_out c) q \<longrightarrow> ex (sc_out c') q) \<and> (r = None \<longrightarrow> ex (sc_out c') p)"
proof -
  obtain a b :: "('s, 'x) sftp" where *: "sc_out a = sc_out c" "remote (ss_Mkdir env (primary a) p) a = (r, b)"
    "sc_out c' = sc_out b" using within_out [OF run [unfolded mkdir_within_def]] by blast
  show ?thesis
    using con [unfolded mkdir_contract_def, THEN conjunct2, THEN spec [where x = "primary a"], THEN spec [where x = p],
        THEN spec [where x = "dt_conn (sc_deadlines a)"], THEN spec [where x = "sc_out a"]]
    by (simp add: remote_out [OF *(2)] *(3) flip: *(1))
qed

lemma next_component:
  assumes "\<forall>d \<in> set ds. plain d"
  shows "(if build_path True ds = ''/'' then ''/'' @ x else build_path True ds @ ''/'' @ x)
    = build_path True (ds @ [x])"
proof (cases ds)
  case (Cons d ds')
  then have "d \<noteq> ''''" using assms by (auto simp: plain_def)
  then have "StrJoin ''/'' ds \<noteq> ''''" using Cons by (cases ds') auto
  then show ?thesis
    using Cons StrJoin_append [of ds "[x]" "''/''"] by (simp add: build_path_def)
qed (simp add: build_path_def)

lemma mkdir_components_ex:
  fixes env :: "('s, 'f, 'l, 't, 'x) sftp_env" and c :: "('s, 'x) sftp"
  assumes con: "mkdir_contract ex env"
  shows "\<forall>x \<in> set (ds @ cs). plain x \<Longrightarrow> mkdir_components env (build_path True ds) cs c = (None, c') \<Longrightarrow>
    (\<forall>q. ex (sc_out c) q \<longrightarrow> ex (sc_out c') q) \<and>
    (\<forall>k. 0 < k \<and> k \<le> length cs \<longrightarrow> ex (sc_out c') (build_path True (ds @ take k cs)))"
proof (induction cs arbitrary: ds c)
  case (Cons x cs)
  define cur where "cur = build_path True (ds @ [x])"
  have cur: "(if build_path True ds = ''/'' then ''/'' @ x else build_path True ds @ ''/'' @ x) = cur"
    using next_component Cons.prems(1) by (simp add: cur_def)
  have x: "x \<noteq> ''''" using Cons.prems(1) by (auto simp: plain_def)
  obtain r1 c1 where s1: "stat_within cur env c = (r1, c1)" by fastforce
  obtain r2 c2 where m: "mkdir_within cur env c1 = (r2, c2)" by fastforce
  obtain r3 c3 where s3: "stat_within cur env c2 = (r3, c3)" by fastforce
  note E1 = stat_within_ex [OF con s1] and E2 = mkdir_within_ex [OF con m] and E3 = stat_within_ex [OF con s3]
  have step: "(None, c') = (case r1 of Inr _ \<Rightarrow> mkdir_components env cur cs c1
      | Inl _ \<Rightarrow> (case r2 of None \<Rightarrow> mkdir_components env cur cs c2
        | Some e \<Rightarrow> (case r3 of Inr _ \<Rightarrow> mkdir_components env cur cs c3
          | Inl _ \<Rightarrow> (wrapError ''mkdir'' (Some e), c3))))"
    using Cons.prems(2) unfolding mkdir_components.simps Let_def if_not_P [OF x] cur s1 prod.case m
    by (cases r1; cases r2; cases r3) (simp_all add: s3)
  have "\<exists>d. mkdir_components env cur cs d = (None, c') \<and> ex (sc_out d) cur \<and>
      (\<forall>q. ex (sc_out c) q \<longrightarrow> ex (sc_out d) q)"
  proof (cases r1)
    case (Inr i)
    then show ?thesis using step E1 by (intro exI [of _ c1]) simp
  next
    case Inl1: (Inl e1)
    show ?thesis
    proof (cases r2)
      case None
      then show ?thesis using step Inl1 E1 E2 by (intro exI [of _ c2]) simp
    next
      case (Some e)
      then obtain i where "r3 = Inr i"
        using step Inl1 wrapError_Some_ex [of "''mkdir''" e] by (cases r3) auto
      then show ?thesis using step Inl1 Some E1 E2 E3 by (intro exI [of _ c3]) simp
    qed
  qed
  then obtain d where d: "mkdir_components env cur cs d = (None, c')" "ex (sc_out d) cur"
    "\<forall>q. ex (sc_out c) q \<longrightarrow> ex (sc_out d) q" by blast
  have plain: "\<forall>x \<in> set ((ds @ [x]) @ cs). plain x" using Cons.prems(1) by auto
  note IH = Cons.IH [OF plain, folded cur_def, OF d(1)]
  have "ex (sc_out c') (build_path True (ds @ take k (x # cs)))" if "0 < k" "k \<le> length (x # cs)" for k
  proof (cases "k = 1")
    case True
    then show ?thesis using IH d(2) by (simp add: cur_def)
  next
    case False
    then have "k = Suc (k - 1)" "0 < k - 1" "k - 1 \<le> length cs" using that(1,2) by auto
    then obtain j where "k = Suc j" "0 < j" "j \<le> length cs" by metis
    then show ?thesis using IH by simp
  qed
  then show ?case using IH d(3) by blast
qed simp

section \<open>The properties\<close>


text \<open>
  \<open>MkdirAll\<close> takes a file for a directory: in the component loop any successful \<open>Stat\<close>
  lets it go on, so when a regular file has the name of the wanted directory it reports
  success and makes nothing, and the upload that follows fails with the server's message
  for a missing path.
\<close>

theorem sftp_MkdirAll_accepts_file:
  assumes "\<And>s d. ss_Stat env s (''/'' @ a) d (sc_out c) = (Inr info, sc_out c)" "\<not> fi_IsDir info"
    and "a \<noteq> ''''" "CHR ''/'' \<notin> set a"
  shows "\<exists>c'. sftp_MkdirAll (''/'' @ a) env c = (None, c') \<and> sc_out c' = sc_out c"
  using assms
  by (simp add: sftp_MkdirAll_def stat_within_def within_def remote_def Let_def Split_no_sep case_prod_beta)

section \<open>Runs\<close>

text \<open>
  A server whose state is the list of its directories; \<open>Stat\<close> resolves every directory of
  the path, and \<open>Mkdir\<close> needs the one above.
\<close>

definition dirs_above :: "string \<Rightarrow> string list" where
  "dirs_above p = map (\<lambda>i. take i p) (filter (\<lambda>i. p ! i = CHR ''/'') [1..<length p])"

definition md_info :: "fkind \<Rightarrow> string \<Rightarrow> FileInfo" where
  "md_info k p = \<lparr>fi_Name = path_Base p, fi_Size = 0, fi_ModTime = 5, fi_Kind = k, fi_Perm = 493\<rparr>"

definition md_env :: "fkind \<Rightarrow> (nat, nat, nat, nat, string list) sftp_env" where
  "md_env k =
    \<lparr>se_now = (\<lambda>x. 2 ^ 64), se_NewClient = (\<lambda>n d x. (Inr 1, x)), ss_Close = (\<lambda>s d x. (None, x)),
     ss_Stat = (\<lambda>s p d x. (if set (p # dirs_above p) \<subseteq> set x then Inr (md_info k p)
        else Inl (Sentinel ErrNotExist), x)),
     ss_ReadDir = (\<lambda>s p d x. (Inr [], x)), ss_OpenFile = (\<lambda>s p tr d x. (Inr 0, x)),
     ss_Open = (\<lambda>s p d x. (Inr 0, x)), ss_HasPosixRename = (\<lambda>s x. True),
     ss_PosixRename = (\<lambda>s a b d x. (None, x)), ss_Rename = (\<lambda>s a b d x. (None, x)),
     ss_Remove = (\<lambda>s p d x. (None, x)),
     ss_Mkdir = (\<lambda>s p d x. if set (dirs_above p) \<subseteq> set x then (None, p # x)
        else (Some (Sentinel ErrNotExist), x)),
     ss_RemoveDirectory = (\<lambda>s p d x. (None, x)), ss_Chmod = (\<lambda>s p m d x. (None, x)),
     ss_Chtimes = (\<lambda>s p t d x. (None, x)), sf_Seek = (\<lambda>f n d x. (None, x)),
     sf_ReadAt = (\<lambda>f n d x. (('''', None), x)), sf_Close = (\<lambda>f d x. (None, x)),
     io_CopyUp = (\<lambda>f l d x. ((0, None), x)), ol_Open = (\<lambda>p x. (Inr 0, x)),
     ol_Stat = (\<lambda>l x. Inr (md_info k '''')), ol_Seek = (\<lambda>l n x. (None, x)), ol_Close = (\<lambda>l x. x),
     os_MkdirAll = (\<lambda>p x. (None, x)),
     se_os = (\<lambda>d. \<lparr>lo_CreateTemp = (\<lambda>d p x. (Inr 0, x)), lo_Name = (\<lambda>t. ''''),
       lo_Copy = (\<lambda>t r x. ((0, None), x)), lo_Close = (\<lambda>t x. (None, x)),
       lo_Lstat = (\<lambda>p x. Inr (md_info k p)), lo_Chmod = (\<lambda>p m x. (None, x)),
       lo_Chtimes = (\<lambda>p a m x. (None, x)), lo_Rename = (\<lambda>p q x. (None, x)),
       lo_Remove = (\<lambda>p x. (None, x))\<rparr>)\<rparr>"

definition md_client :: "string list \<Rightarrow> (nat, string list) sftp" where
  "md_client x = \<lparr>sc_conn = True, sc_deadlines = newDeadlineTracker, sc_ssh = True,
     sc_sftp = Some 0, sc_xfer = Some (newConnPool 4), sc_xferDisabled = False,
     sc_largeSlots = Some 0, sc_packetSize = 32768, sc_out = x\<rparr>"

lemma dirs_above_take:
  assumes "0 < k" "k < length cs"
  shows "build_path True (take k cs) \<in> set (dirs_above (build_path True cs))"
proof -
  let ?a = "build_path True (take k cs)"
  have "build_path True cs = ?a @ ''/'' @ StrJoin ''/'' (drop k cs)"
    using StrJoin_append [of "take k cs" "drop k cs" "''/''"] assms
    by (cases cs) (auto simp: build_path_def)
  then have "?a = take (length ?a) (build_path True cs)"
    "length ?a < length (build_path True cs)" "build_path True cs ! length ?a = CHR ''/''"
    by simp_all
  moreover have "1 \<le> length ?a" by (simp add: build_path_def)
  ultimately show ?thesis unfolding dirs_above_def by (force simp: image_iff)
qed

lemma md_contract: "mkdir_contract (\<lambda>x p. p \<in> set x) (md_env k)"
proof -
  have "build_path True (take j cs) \<in> set x"
    if "set (build_path True cs # dirs_above (build_path True cs)) \<subseteq> set x" "0 < j" "j \<le> length cs" for x cs j
    using that dirs_above_take [of j cs] by (cases "j = length cs") auto
  then show ?thesis by (auto simp: mkdir_contract_def md_env_def)
qed

lemma md_run: "fst (sftp_MkdirAll (build_path True [''a'', ''b'']) (md_env KDir) (md_client [''/a''])) = None"
  by code_simp


theorem sftp_MkdirAll_accepts_file_witness:
  "\<exists>c. sftp_MkdirAll ''/a'' (md_env KRegular) (md_client [''/a'']) = (None, c) \<and> sc_out c = [''/a'']"
proof -
  have above: "dirs_above ''/a'' = []" by code_simp
  have "ss_Stat (md_env KRegular) s ''/a'' d (sc_out (md_client [''/a''])) =
      (Inr (md_info KRegular ''/a''), sc_out (md_client [''/a'']))" for s d
    by (simp add: md_env_def md_client_def above)
  then show ?thesis
    using sftp_MkdirAll_accepts_file [where env = "md_env KRegular" and c = "md_client [''/a'']" and
        a = "''a''" and info = "md_info KRegular ''/a''"]
    by (simp add: md_info_def md_client_def fi_IsDir_def)
qed

end
