(* ===== verification/Host_Key.thy ===== *)
theory Host_Key
  imports Go_Errors Go_Path
begin

text \<open>
  internal/transfer/hostkey.go: trust on first use. Package \<open>knownhosts\<close> (parsing, hashed
  and marked entries, the form of a line) is the parameter \<open>hk_New\<close>, \<open>hk_check\<close> and
  \<open>hk_Line\<close>; the home directory and the file calls are the other fields. \<open>'w\<close> is the local
  file system, \<open>'db\<close> the entries that \<open>knownhosts.New\<close> has read.
\<close>

text \<open>A public key: what \<open>Type()\<close> returns, and the key itself.\<close>

record pubkey =
  pk_Type :: string
  pk_Key :: string

text \<open>
  What the \<open>knownhosts\<close> callback returns: nil, an error in which there is a \<open>*KeyError\<close> with
  this \<open>Want\<close> list, or another error.
\<close>

datatype known = KnownOk | KeyErr "pubkey list" | KnownErr goerr

record ('db, 'w) hk_env =
  hk_UserHomeDir :: "'w \<Rightarrow> string res"
  hk_MkdirAll :: "string \<Rightarrow> 'w \<Rightarrow> goerr option \<times> 'w"
  hk_Stat :: "string \<Rightarrow> 'w \<Rightarrow> goerr option"
  hk_Create :: "string \<Rightarrow> 'w \<Rightarrow> goerr option \<times> 'w"
  hk_New :: "string \<Rightarrow> 'w \<Rightarrow> 'db res"
  hk_check :: "'db \<Rightarrow> string \<Rightarrow> pubkey \<Rightarrow> known"
  hk_Normalize :: "string \<Rightarrow> string"
  hk_Line :: "string list \<Rightarrow> pubkey \<Rightarrow> string"
  hk_Append :: "string \<Rightarrow> string \<Rightarrow> 'w \<Rightarrow> goerr option \<times> 'w"

text \<open>
  \<open>appendKnownHost\<close>: opening with \<open>O_APPEND\<close> and writing a line is the call \<open>hk_Append\<close>,
  whose error is that of the opening or of the write.
\<close>

definition appendKnownHost ::
  "('db, 'w) hk_env \<Rightarrow> string \<Rightarrow> string \<Rightarrow> pubkey \<Rightarrow> 'w \<Rightarrow> goerr option \<times> 'w" where
  "appendKnownHost env khPath hostname key w =
    hk_Append env khPath (hk_Line env [hk_Normalize env hostname] key) w"

text \<open>The callback that \<open>tofuCallback\<close> returns: accept anything, or the wrapped one.\<close>

datatype 'db callback = InsecureIgnoreHostKey | Tofu string 'db

definition mismatch_error :: "string \<Rightarrow> goerr" where
  "mismatch_error hostname = ErrorString (''host key mismatch for '' @ hostname @ '' '' @
     [CHR 0xE2, CHR 0x80, CHR 0x94] @ '' possible security issue. '' @
     ''Remove old key from ~/.ssh/known_hosts to continue'')"

text \<open>The loop that sets \<open>sameTypeMismatch\<close>.\<close>

fun sameTypeMismatch :: "string \<Rightarrow> pubkey list \<Rightarrow> bool" where
  "sameTypeMismatch presentedType [] = False"
| "sameTypeMismatch presentedType (wantKey # ks) =
    (if pk_Type wantKey = presentedType then True else sameTypeMismatch presentedType ks)"

fun verify :: "('db, 'w) hk_env \<Rightarrow> 'db callback \<Rightarrow> string \<Rightarrow> pubkey \<Rightarrow> 'w \<Rightarrow> goerr option \<times> 'w" where
  "verify env InsecureIgnoreHostKey hostname key w = (None, w)"
| "verify env (Tofu khPath db) hostname key w =
    (case hk_check env db hostname key of
       KnownOk \<Rightarrow> (None, w)
     | KeyErr want \<Rightarrow>
         (if 0 < length want then
            (if sameTypeMismatch (pk_Type key) want then (Some (mismatch_error hostname), w)
             else (None, snd (appendKnownHost env khPath hostname key w)))
          else (None, snd (appendKnownHost env khPath hostname key w)))
     | KnownErr err \<Rightarrow> (Some err, w))"

text \<open>\<open>fmt.Errorf(s: %w, err)\<close>\<close>

definition errorf_w :: "string \<Rightarrow> goerr \<Rightarrow> goerr" where
  "errorf_w s err = Wrapped (s @ '': '' @ error_msg err) [err]"

definition tofuCallback :: "('db, 'w) hk_env \<Rightarrow> bool \<Rightarrow> 'w \<Rightarrow> 'db callback res \<times> 'w" where
  "tofuCallback env verifyHostKey w =
    (if \<not> verifyHostKey then (Inr InsecureIgnoreHostKey, w)
     else
       (case hk_UserHomeDir env w of
          Inl err \<Rightarrow> (Inl (errorf_w ''cannot determine home directory'' err), w)
        | Inr homeDir \<Rightarrow>
            (let sshDir = path_Join [homeDir, ''.ssh''];
                 knownHostsPath = path_Join [sshDir, ''known_hosts'']
             in case hk_MkdirAll env sshDir w of
                  (Some err, w) \<Rightarrow> (Inl (errorf_w ''cannot create ~/.ssh directory'' err), w)
                | (None, w) \<Rightarrow>
                    (let missing = (case hk_Stat env knownHostsPath w of
                                      Some err \<Rightarrow> errors_Is err ErrNotExist | None \<Rightarrow> False);
                         (createErr, w) = (if missing then hk_Create env knownHostsPath w else (None, w))
                     in case createErr of
                          Some err \<Rightarrow> (Inl (errorf_w ''cannot create known_hosts file'' err), w)
                        | None \<Rightarrow>
                            (case hk_New env knownHostsPath w of
                               Inl err \<Rightarrow> (Inl (errorf_w ''cannot read known_hosts'' err), w)
                             | Inr db \<Rightarrow> (Inr (Tofu knownHostsPath db), w))))))"

section \<open>What the file and package \<open>knownhosts\<close> promise\<close>

text \<open>
  \<open>ls w p\<close> are the (host, key) pairs in the file \<open>p\<close>, \<open>es db\<close> those that were read. The
  callback accepts a key that is there and otherwise names the keys of the host; a line
  that was appended is there, a failed append adds none.
\<close>

definition hk_contract :: "('w \<Rightarrow> string \<Rightarrow> (string \<times> pubkey) set) \<Rightarrow> ('db \<Rightarrow> (string \<times> pubkey) set) \<Rightarrow>
    ('db, 'w) hk_env \<Rightarrow> bool" where
  "hk_contract ls es env \<longleftrightarrow>
    (\<forall>p w. case hk_New env p w of Inr db \<Rightarrow> es db = ls w p | Inl _ \<Rightarrow> True) \<and>
    (\<forall>db h k. case hk_check env db h k of
        KnownOk \<Rightarrow> (hk_Normalize env h, k) \<in> es db
      | KeyErr ks \<Rightarrow> (hk_Normalize env h, k) \<notin> es db \<and> set ks = {k'. (hk_Normalize env h, k') \<in> es db}
      | KnownErr _ \<Rightarrow> True) \<and>
    (\<forall>p h k w. case hk_Append env p (hk_Line env [h] k) w of
        (None, w') \<Rightarrow> ls w' p = insert (h, k) (ls w p) | (Some _, w') \<Rightarrow> ls w' p = ls w p) \<and>
    (\<forall>p q w. ls (snd (hk_MkdirAll env q w)) p = ls w p) \<and>
    (\<forall>p q w. ls (snd (hk_Create env q w)) p = ls w p)"

text \<open>One host, one key of each type.\<close>

definition single :: "(string \<times> pubkey) set \<Rightarrow> bool" where
  "single s \<longleftrightarrow> (\<forall>h k k'. (h, k) \<in> s \<longrightarrow> (h, k') \<in> s \<longrightarrow> pk_Type k = pk_Type k' \<longrightarrow> k = k')"

definition knownHostsPath_of :: "string \<Rightarrow> string" where
  "knownHostsPath_of homeDir = path_Join [path_Join [homeDir, ''.ssh''], ''known_hosts'']"

text \<open>A connection attempt as far as the host key goes: make the callback, be shown a key.\<close>

definition present :: "('db, 'w) hk_env \<Rightarrow> string \<times> pubkey \<Rightarrow> 'w \<Rightarrow> goerr option \<times> 'w" where
  "present env hk w =
    (case tofuCallback env True w of
       (Inl err, w) \<Rightarrow> (Some err, w)
     | (Inr cb, w) \<Rightarrow> verify env cb (fst hk) (snd hk) w)"

lemma sameTypeMismatch_iff: "sameTypeMismatch t ks \<longleftrightarrow> (\<exists>k \<in> set ks. pk_Type k = t)"
  by (induction ks) auto

lemma tofuCallback_reads:
  assumes con: "hk_contract ls es env" and home: "\<forall>w. hk_UserHomeDir env w = Inr home"
    and run: "tofuCallback env True w = (r, w')"
  shows "(\<forall>p. ls w' p = ls w p) \<and>
    (\<forall>cb. r = Inr cb \<longrightarrow> (\<exists>db. cb = Tofu (knownHostsPath_of home) db \<and> es db = ls w (knownHostsPath_of home)))"
proof -
  have new: "es db = ls w p" if "hk_New env p w = Inr db" for p w db
    using con [unfolded hk_contract_def, THEN conjunct1, rule_format, where p = p and w = w] that by simp
  have mk: "ls w2 p = ls w1 p" if "hk_MkdirAll env q w1 = (e, w2)" for q w1 w2 e p
    using con that unfolding hk_contract_def by (metis snd_conv)
  have cr: "ls w2 p = ls w1 p" if "hk_Create env q w1 = (e, w2)" for q w1 w2 e p
    using con that unfolding hk_contract_def by (metis snd_conv)
  define sshDir where "sshDir = path_Join [home, ''.ssh'']"
  define p where "p = path_Join [sshDir, ''known_hosts'']"
  have p: "knownHostsPath_of home = p" by (simp add: knownHostsPath_of_def p_def sshDir_def)
  obtain e1 w1 where m: "hk_MkdirAll env sshDir w = (e1, w1)" by fastforce
  define missing where "missing = (case hk_Stat env p w1 of
    Some err \<Rightarrow> errors_Is err ErrNotExist | None \<Rightarrow> False)"
  obtain e2 w2 where c: "(if missing then hk_Create env p w1 else (None, w1)) = (e2, w2)" by fastforce
  have w: "ls w1 q = ls w q" "ls w2 q = ls w q" for q
    using mk [OF m, of q] cr [of p w1 e2 w2 q] c by (simp_all split: if_splits)
  have "tofuCallback env True w = (case e1 of
      Some err \<Rightarrow> (Inl (errorf_w ''cannot create ~/.ssh directory'' err), w1)
    | None \<Rightarrow> (case e2 of
        Some err \<Rightarrow> (Inl (errorf_w ''cannot create known_hosts file'' err), w2)
      | None \<Rightarrow> (case hk_New env p w2 of
          Inl err \<Rightarrow> (Inl (errorf_w ''cannot read known_hosts'' err), w2)
        | Inr db \<Rightarrow> (Inr (Tofu p db), w2))))"
    unfolding tofuCallback_def Let_def home [rule_format] not_True_eq_False if_False sum.case
      sshDir_def [symmetric] p_def [symmetric] m prod.case missing_def [symmetric] c ..
  then show ?thesis
    using run w new [of p w2] unfolding p by (cases e1; cases e2; cases "hk_New env p w2") auto
qed

text \<open>What one presentation does to the file, and what acceptance means.\<close>

lemma present_effect:
  assumes con: "hk_contract ls es env" and home: "\<forall>w. hk_UserHomeDir env w = Inr home"
    and run: "present env (h, k) w = (err, w')"
  defines "s \<equiv> ls w (knownHostsPath_of home)" and "s' \<equiv> ls w' (knownHostsPath_of home)"
    and "n \<equiv> hk_Normalize env h"
  shows "s' = s \<or> (s' = insert (n, k) s \<and> (\<forall>k'. (n, k') \<in> s \<longrightarrow> pk_Type k' \<noteq> pk_Type k))"
    and "err = None \<Longrightarrow> (n, k') \<in> s \<Longrightarrow> pk_Type k' = pk_Type k \<Longrightarrow> (n, k) \<in> s"
proof -
  obtain r w1 where t: "tofuCallback env True w = (r, w1)" by fastforce
  note T = tofuCallback_reads [OF con home t]
  let ?p = "knownHostsPath_of home"
  have app: "ls w2 ?p = ls w1 ?p \<or> ls w2 ?p = insert (n, k) (ls w1 ?p)"
    if "appendKnownHost env ?p h k w1 = (e, w2)" for e w2
    using con [unfolded hk_contract_def, THEN conjunct2, THEN conjunct2, THEN conjunct1, rule_format,
        where p = ?p and h = n and k = k and w = w1] that
    by (cases e) (simp_all add: appendKnownHost_def n_def)
  have "(s' = s \<or> (s' = insert (n, k) s \<and> (\<forall>k'. (n, k') \<in> s \<longrightarrow> pk_Type k' \<noteq> pk_Type k))) \<and>
      (err = None \<longrightarrow> (\<forall>k'. (n, k') \<in> s \<longrightarrow> pk_Type k' = pk_Type k \<longrightarrow> (n, k) \<in> s))"
  proof (cases r)
    case (Inl e)
    then show ?thesis using run t T by (auto simp: present_def s_def s'_def)
  next
    case (Inr cb)
    then obtain db where db: "cb = Tofu ?p db" "es db = ls w ?p" using T by blast
    have run': "verify env (Tofu ?p db) h k w1 = (err, w')" using run t Inr db by (simp add: present_def)
    have chk: "case hk_check env db h k of KnownOk \<Rightarrow> (n, k) \<in> s
      | KeyErr ks \<Rightarrow> (n, k) \<notin> s \<and> set ks = {k'. (n, k') \<in> s} | KnownErr _ \<Rightarrow> True"
      using con [unfolded hk_contract_def, THEN conjunct2, THEN conjunct1, rule_format,
        where db = db and h = h and k = k]
      unfolding n_def s_def db(2) .
    have s1: "ls w1 ?p = s" using T by (simp add: s_def)
    have acc: "s' = s \<or> s' = insert (n, k) s" if "(None, snd (appendKnownHost env ?p h k w1)) = (err, w')"
      using app [of _ w'] that s1 unfolding s'_def by (metis prod.collapse snd_conv)
    show ?thesis
    proof (cases "hk_check env db h k")
      case KnownOk
      then show ?thesis using run' chk s1 by (auto simp: s'_def)
    next
      case (KeyErr ks)
      then have ks: "set ks = {k'. (n, k') \<in> s}" using chk by simp
      show ?thesis
      proof (cases "\<exists>k' \<in> set ks. pk_Type k' = pk_Type k")
        case True
        then have "ks \<noteq> []" by auto
        then show ?thesis using run' KeyErr True s1 by (auto simp: sameTypeMismatch_iff s'_def)
      next
        case False
        then have "(None, snd (appendKnownHost env ?p h k w1)) = (err, w')"
          using run' KeyErr by (auto simp: sameTypeMismatch_iff split: if_splits)
        from acc [OF this] show ?thesis using False ks by auto
      qed
    next
      case (KnownErr e)
      then show ?thesis using run' s1 by (auto simp: s'_def)
    qed
  qed
  then show "s' = s \<or> (s' = insert (n, k) s \<and> (\<forall>k'. (n, k') \<in> s \<longrightarrow> pk_Type k' \<noteq> pk_Type k))"
    and "err = None \<Longrightarrow> (n, k') \<in> s \<Longrightarrow> pk_Type k' = pk_Type k \<Longrightarrow> (n, k) \<in> s" by blast+
qed

lemma presents_keep:
  assumes con: "hk_contract ls es env" and home: "\<forall>w. hk_UserHomeDir env w = Inr home"
  shows "single (ls w (knownHostsPath_of home)) \<Longrightarrow>
    single (ls (fold (\<lambda>hk w. snd (present env hk w)) hks w) (knownHostsPath_of home)) \<and>
    ls w (knownHostsPath_of home) \<subseteq> ls (fold (\<lambda>hk w. snd (present env hk w)) hks w) (knownHostsPath_of home)"
proof (induction hks arbitrary: w)
  case (Cons hk hks)
  obtain h k where hk: "hk = (h, k)" by fastforce
  obtain err w' where p: "present env (h, k) w = (err, w')" by fastforce
  note E = present_effect(1) [OF con home p]
  have "single (ls w' (knownHostsPath_of home))"
    using E Cons.prems unfolding single_def by (metis insert_iff prod.inject)
  from Cons.IH [OF this] show ?case using E hk p by auto
qed simp

section \<open>The property\<close>

text \<open>
  C17: Trust on first use. Once a key of a host has been accepted and is in
  \<open>~/.ssh/known_hosts\<close>, then after any further connections, to any hosts and with any keys,
  one after the other, the only key of that type that is ever accepted for that host is the
  same key; an attacker who comes later is refused, and nothing he presents changes that.
  (A key of another type is accepted and added, and so is any key of the same host when the
  line could not be written, which the program only warns about.)
\<close>

theorem first_key_is_pinned:
  assumes con: "hk_contract ls es env" and home: "\<forall>w. hk_UserHomeDir env w = Inr home"
    and start: "single (ls w (knownHostsPath_of home))"
    and first: "present env (h, k) w = (None, w1)"
      "(hk_Normalize env h, k) \<in> ls w1 (knownHostsPath_of home)"
    and later: "w2 = fold (\<lambda>hk w. snd (present env hk w)) hks w1"
      "present env (h', k') w2 = (None, w3)"
      "hk_Normalize env h' = hk_Normalize env h" "pk_Type k' = pk_Type k"
  shows "k' = k"
proof -
  have "single (ls w1 (knownHostsPath_of home))"
    using presents_keep [OF con home start, of "[(h, k)]"] first(1) by simp
  from presents_keep [OF con home this, of hks]
  have w2: "single (ls w2 (knownHostsPath_of home))" "(hk_Normalize env h, k) \<in> ls w2 (knownHostsPath_of home)"
    using first(2) later(1) by auto
  then have "(hk_Normalize env h', k') \<in> ls w2 (knownHostsPath_of home)"
    using present_effect(2) [OF con home later(2), of k] later(3,4) by simp
  then show ?thesis using w2 later(3,4) unfolding single_def by metis
qed

section \<open>A run\<close>

text \<open>A file that is the list of its lines; a line holds its three parts with every character marked.\<close>

fun marked :: "string \<Rightarrow> string" where
  "marked [] = ''.''"
| "marked (c # cs) = CHR ''-'' # c # marked cs"

fun unmark :: "string \<Rightarrow> string \<times> string" where
  "unmark (m # c # cs) = (if m = CHR ''-'' then (let (a, b) = unmark cs in (c # a, b)) else ([], c # cs))"
| "unmark cs = ([], [])"

definition kh_line :: "string list \<Rightarrow> pubkey \<Rightarrow> string" where
  "kh_line hs k = marked (hd hs) @ marked (pk_Type k) @ marked (pk_Key k)"

definition kh_read :: "string \<Rightarrow> string \<times> pubkey" where
  "kh_read l = (let (h, l) = unmark l; (t, l) = unmark l; (b, l) = unmark l
    in (h, \<lparr>pk_Type = t, pk_Key = b\<rparr>))"

definition kh_check :: "(string \<times> pubkey) list \<Rightarrow> string \<Rightarrow> pubkey \<Rightarrow> known" where
  "kh_check db h k = (if (h, k) \<in> set db then KnownOk
     else KeyErr (map snd (filter (\<lambda>x. fst x = h) db)))"

definition kh_env :: "((string \<times> pubkey) list, string list) hk_env" where
  "kh_env = \<lparr>hk_UserHomeDir = (\<lambda>w. Inr ''/home/u''), hk_MkdirAll = (\<lambda>p w. (None, w)),
     hk_Stat = (\<lambda>p w. Some (Sentinel ErrNotExist)), hk_Create = (\<lambda>p w. (None, w)),
     hk_New = (\<lambda>p w. Inr (map kh_read w)), hk_check = kh_check, hk_Normalize = (\<lambda>h. h),
     hk_Line = kh_line, hk_Append = (\<lambda>p l w. (None, w @ [l]))\<rparr>"

lemma unmark_marked: "unmark (marked s @ c # cs) = (s, c # cs)" "unmark (marked s) = (s, [])"
  by (induction s) auto

lemma marked_Cons: "\<exists>c cs. marked s = c # cs"
  by (cases s) auto

lemma kh_read_line: "kh_read (kh_line [h] k) = (h, k)"
proof -
  obtain c cs d ds where m: "marked (pk_Type k) = c # cs" "marked (pk_Key k) = d # ds"
    using marked_Cons by metis
  have "unmark (marked h @ c # cs @ d # ds) = (h, (c # cs) @ d # ds)" by (simp add: unmark_marked)
  moreover have "unmark ((c # cs) @ d # ds) = (pk_Type k, d # ds)"
    using unmark_marked(1) [of "pk_Type k" d ds] m by simp
  moreover have "unmark (d # ds) = (pk_Key k, [])"
    using unmark_marked(2) [of "pk_Key k"] m by simp
  ultimately show ?thesis by (simp add: kh_read_def kh_line_def m Let_def)
qed

lemma kh_contract: "hk_contract (\<lambda>w p. set (map kh_read w)) set kh_env"
  by (auto simp: hk_contract_def kh_env_def kh_check_def kh_read_line intro: rev_image_eqI)

text \<open>The host's key is accepted twice; the one another party presents in between is not.\<close>

definition kh_key :: "string \<Rightarrow> pubkey" where
  "kh_key b = \<lparr>pk_Type = ''ed25519'', pk_Key = b\<rparr>"

lemma kh_runs:
  "present kh_env (''h'', kh_key ''A'') [] = (None, [kh_line [''h''] (kh_key ''A'')])"
  "fst (present kh_env (''h'', kh_key ''B'') [kh_line [''h''] (kh_key ''A'')]) \<noteq> None"
  "fst (present kh_env (''h'', kh_key ''A'') (fold (\<lambda>hk w. snd (present kh_env hk w))
     [(''h'', kh_key ''B'')] [kh_line [''h''] (kh_key ''A'')])) = None"
  by code_simp+

theorem first_key_is_pinned_witness:
  "\<exists>k' w3. present kh_env (''h'', k') (fold (\<lambda>hk w. snd (present kh_env hk w))
     [(''h'', kh_key ''B'')] [kh_line [''h''] (kh_key ''A'')]) = (None, w3) \<and> k' = kh_key ''A''"
proof -
  have home: "\<forall>w. hk_UserHomeDir kh_env w = Inr ''/home/u''" by (simp add: kh_env_def)
  have start: "single (set (map kh_read []))" by (simp add: single_def)
  have mem: "(hk_Normalize kh_env ''h'', kh_key ''A'') \<in> set (map kh_read [kh_line [''h''] (kh_key ''A'')])"
    by (simp add: kh_env_def kh_read_line)
  obtain w3 where w3: "present kh_env (''h'', kh_key ''A'') (fold (\<lambda>hk w. snd (present kh_env hk w))
     [(''h'', kh_key ''B'')] [kh_line [''h''] (kh_key ''A'')]) = (None, w3)"
    using kh_runs(3) by (metis prod.collapse)
  have "kh_key ''A'' = kh_key ''A''"
    by (rule first_key_is_pinned [OF kh_contract home start kh_runs(1) mem refl w3 refl refl])
  then show ?thesis using w3 by blast
qed

end
