(* ===== verification/Ssh_Auth.thy ===== *)
theory Ssh_Auth
  imports Host_Key
begin

text \<open>
  internal/transfer/sshauth.go: which signers an SFTP connection authenticates with. The key
  formats (package \<open>ssh\<close>) and the agent's protocol (package \<open>agent\<close>) are parameters. \<open>'g\<close>
  is a signer, \<open>'a\<close> an agent client, \<open>'w\<close> the outside.
\<close>

text \<open>
  What \<open>ssh.ParsePrivateKey\<close> returns: a signer, an error in which there is a
  \<open>*PassphraseMissingError\<close> with this \<open>PublicKey\<close> field, or another error.
\<close>

datatype 'g parsed = Parsed 'g | PassphraseMissing "pubkey option" | ParseErr goerr

record ('g, 'a, 'w) sa_env =
  sa_GOOS :: string
  sa_Getenv :: "string \<Rightarrow> string"
  sa_ReadFile :: "string \<Rightarrow> 'w \<Rightarrow> string res"
  sa_ParsePrivateKey :: "string \<Rightarrow> 'g parsed"
  sa_ParseAuthorizedKey :: "string \<Rightarrow> pubkey option"
  sa_PublicKey :: "'g \<Rightarrow> pubkey"
  sa_Marshal :: "pubkey \<Rightarrow> string"
  sa_DialAgent :: "string \<Rightarrow> 'w \<Rightarrow> 'a res \<times> 'w"
  sa_CloseAgent :: "'a \<Rightarrow> 'w \<Rightarrow> 'w"
  sa_Signers :: "'a \<Rightarrow> 'w \<Rightarrow> 'g list res \<times> 'w"

definition sshAddHint :: "('g, 'a, 'w) sa_env \<Rightarrow> string \<Rightarrow> string" where
  "sshAddHint env keyPath =
    (if sa_GOOS env = ''darwin'' then ''ssh-add --apple-use-keychain '' @ keyPath
     else ''ssh-add '' @ keyPath)"

text \<open>The loop over the agent's signers.\<close>

fun find_signer :: "('g, 'a, 'w) sa_env \<Rightarrow> pubkey \<Rightarrow> 'g list \<Rightarrow> 'g option" where
  "find_signer env pub [] = None"
| "find_signer env pub (s # ss) =
    (if sa_Marshal env (sa_PublicKey env s) = sa_Marshal env pub then Some s else find_signer env pub ss)"

definition no_public_error :: "string \<Rightarrow> goerr" where
  "no_public_error keyPath = ErrorString (''SSH key '' @ keyPath @
     '' is passphrase-protected and has no '' @ keyPath @ ''.pub to match against ssh-agent'')"

definition not_loaded_error :: "('g, 'a, 'w) sa_env \<Rightarrow> string \<Rightarrow> goerr" where
  "not_loaded_error env keyPath = ErrorString (''SSH key '' @ keyPath @
     '' is passphrase-protected and not loaded in ssh-agent '' @ [CHR 0xE2, CHR 0x80, CHR 0x94] @
     '' load it with: '' @ sshAddHint env keyPath)"

text \<open>The public half of an encrypted key: in the key file, or in the file next to it.\<close>

definition public_half ::
  "('g, 'a, 'w) sa_env \<Rightarrow> string \<Rightarrow> pubkey option \<Rightarrow> 'w \<Rightarrow> pubkey option" where
  "public_half env keyPath missing w =
    (case missing of
       Some pub \<Rightarrow> Some pub
     | None \<Rightarrow> (case sa_ReadFile env (keyPath @ ''.pub'') w of
                  Inr pubBytes \<Rightarrow> sa_ParseAuthorizedKey env pubBytes
                | Inl _ \<Rightarrow> None))"

definition sshKeySigners ::
  "('g, 'a, 'w) sa_env \<Rightarrow> string \<Rightarrow> 'a option \<Rightarrow> 'w \<Rightarrow> 'g list res \<times> 'w" where
  "sshKeySigners env keyPath ag w =
    (case sa_ReadFile env keyPath w of
       Inl err \<Rightarrow> (Inl (ErrorString (''SSH key not found: '' @ keyPath)), w)
     | Inr keyBytes \<Rightarrow>
         (case sa_ParsePrivateKey env keyBytes of
            Parsed signer \<Rightarrow> (Inr [signer], w)
          | ParseErr err \<Rightarrow> (Inl (errorf_w (''cannot parse SSH key '' @ keyPath) err), w)
          | PassphraseMissing missing \<Rightarrow>
              (case public_half env keyPath missing w of
                 None \<Rightarrow> (Inl (no_public_error keyPath), w)
               | Some pub \<Rightarrow>
                   (let (agentSigners, w) =
                      (case ag of None \<Rightarrow> (Inr [], w) | Some a \<Rightarrow> sa_Signers env a w)
                    in case agentSigners of
                         Inl aerr \<Rightarrow> (Inl (not_loaded_error env keyPath), w)
                       | Inr ss \<Rightarrow>
                           (case find_signer env pub ss of
                              Some s \<Rightarrow> (Inr [s], w)
                            | None \<Rightarrow> (Inl (not_loaded_error env keyPath), w))))))"

text \<open>\<open>dialAgent\<close>: the agent, if there is one; closing it is a no-op otherwise.\<close>

definition dialAgent :: "('g, 'a, 'w) sa_env \<Rightarrow> 'w \<Rightarrow> 'a option \<times> 'w" where
  "dialAgent env w =
    (let sock = sa_Getenv env ''SSH_AUTH_SOCK'' in
     if sock = '''' then (None, w)
     else (case sa_DialAgent env sock w of
             (Inl err, w) \<Rightarrow> (None, w)
           | (Inr a, w) \<Rightarrow> (Some a, w)))"

definition closeAgent :: "('g, 'a, 'w) sa_env \<Rightarrow> 'a option \<Rightarrow> 'w \<Rightarrow> 'w" where
  "closeAgent env ag w = (case ag of None \<Rightarrow> w | Some a \<Rightarrow> sa_CloseAgent env a w)"

section \<open>Lemmas\<close>

lemma find_signer_Some:
  "find_signer env pub ss = Some s \<Longrightarrow>
    s \<in> set ss \<and> sa_Marshal env (sa_PublicKey env s) = sa_Marshal env pub"
  by (induction ss) (auto split: if_splits)

lemma find_signer_None:
  "find_signer env pub ss = None \<longleftrightarrow>
    (\<forall>s \<in> set ss. sa_Marshal env (sa_PublicKey env s) \<noteq> sa_Marshal env pub)"
  by (induction ss) auto

text \<open>
  Whatever the agent holds, at most one key is offered to a server: the key in the file, or
  the agent's signer with the public half of the encrypted one.
\<close>

lemma one_signer:
  assumes "sshKeySigners env keyPath ag w = (Inr ss, w')"
  shows "\<exists>s. ss = [s] \<and> (\<exists>bytes. sa_ReadFile env keyPath w = Inr bytes \<and>
    (sa_ParsePrivateKey env bytes = Parsed s \<or>
     (\<exists>missing pub. sa_ParsePrivateKey env bytes = PassphraseMissing missing \<and>
        public_half env keyPath missing w = Some pub \<and>
        sa_Marshal env (sa_PublicKey env s) = sa_Marshal env pub)))"
  using assms
  by (auto simp: sshKeySigners_def Let_def split: sum.splits parsed.splits option.splits prod.splits
      dest: find_signer_Some)

end
