(* ===== verification/Sftp_Connect.thy ===== *)
theory Sftp_Connect
  imports Sftp_Atomic Ssh_Auth Config
begin

text \<open>
  \<open>Connect\<close> and \<open>Close\<close> of the SFTP client (internal/transfer/sftp.go): the TCP connection,
  the SSH client on it and the primary SFTP session on that are opened in this order and
  closed in the opposite one. The calls of \<open>net\<close> and \<open>ssh\<close> are the fields of \<open>sftp_dial\<close>.
\<close>

datatype 'g authMethod = PublicKeys "'g list" | PasswordAuth string

text \<open>The fields of \<open>ssh.ClientConfig\<close> that differ between connections.\<close>

record ('g, 'db) sshConfig =
  sg_User :: string
  sg_Auth :: "'g authMethod"
  sg_HostKeyCallback :: "'db callback"

record ('s, 'f, 'l, 't, 'x, 'g, 'a, 'db) sftp_dial =
  sd_env :: "('s, 'f, 'l, 't, 'x) sftp_env"
  sd_hk :: "('db, 'x) hk_env"
  sd_sa :: "('g, 'a, 'x) sa_env"
  sd_Dial :: "string \<Rightarrow> 'x \<Rightarrow> goerr option \<times> 'x"
  sd_CloseConn :: "(goerr option, 'x) net_call"
  sd_NewClientConn :: "string \<Rightarrow> ('g, 'db) sshConfig \<Rightarrow> (goerr option, 'x) net_call"
  sd_ServerVersion :: "'x \<Rightarrow> string"
  sd_CloseSsh :: "(goerr option, 'x) net_call"

text \<open>\<open>net.JoinHostPort\<close> (of the package's documentation).\<close>

definition JoinHostPort :: "string \<Rightarrow> string \<Rightarrow> string" where
  "JoinHostPort host port =
    (if CHR '':'' \<in> set host then ''['' @ host @ '']:'' @ port else host @ '':'' @ port)"

definition profile_addr :: "Profile \<Rightarrow> string" where
  "profile_addr p = JoinHostPort (p_Host p) (show_int (p_Port p))"

section \<open>Close\<close>

text \<open>One layer: its error counts if it is the first, and it is gone.\<close>

definition closing :: "(goerr option, 'x) net_call \<Rightarrow> goerr option \<Rightarrow> ('s, 'x) sftp \<Rightarrow>
    goerr option \<times> ('s, 'x) sftp" where
  "closing call firstErr c =
    (let (err, c) = remote call c in (if err \<noteq> None \<and> firstErr = None then err else firstErr, c))"

definition close_xfer :: "('s, 'f, 'l, 't, 'x, 'g, 'a, 'db) sftp_dial \<Rightarrow> ('s, 'x) sftp \<Rightarrow> ('s, 'x) sftp" where
  "close_xfer d c =
    (case sc_xfer c of
       None \<Rightarrow> c
     | Some p \<Rightarrow>
         (fold (\<lambda>s c. snd (remote (ss_Close (sd_env d) s) c)) (fst (closeAll p)) c)\<lparr>sc_xfer := None\<rparr>)"

definition sftp_Close :: "('s, 'f, 'l, 't, 'x, 'g, 'a, 'db) sftp_dial \<Rightarrow> ('s, 'x) sftp \<Rightarrow>
    goerr option \<times> ('s, 'x) sftp" where
  "sftp_Close d c =
    (let c = close_xfer d c;
         (err, c) = (case sc_sftp c of
            None \<Rightarrow> (None, c)
          | Some s \<Rightarrow> (let (err, c) = closing (ss_Close (sd_env d) s) None c in (err, c\<lparr>sc_sftp := None\<rparr>)));
         (err, c) = (if sc_ssh c
            then (let (err, c) = closing (sd_CloseSsh d) err c in (err, c\<lparr>sc_ssh := False\<rparr>))
            else (err, c))
     in if sc_conn c
        then (let (err, c) = closing (sd_CloseConn d) err c in (err, c\<lparr>sc_conn := False\<rparr>))
        else (err, c))"

section \<open>Connect\<close>

text \<open>\<open>c.conn.Close(); c.conn = nil; return wrapError("connect", err)\<close>\<close>

definition drop_conn :: "('s, 'f, 'l, 't, 'x, 'g, 'a, 'db) sftp_dial \<Rightarrow> goerr \<Rightarrow> ('s, 'x) sftp \<Rightarrow>
    goerr option \<times> ('s, 'x) sftp" where
  "drop_conn d err c =
    (let (_, c) = remote (sd_CloseConn d) c in (wrapError ''connect'' (Some err), c\<lparr>sc_conn := False\<rparr>))"

text \<open>Part 4: the primary session, and on success the pool for the extra ones.\<close>

definition open_primary :: "('s, 'f, 'l, 't, 'x, 'g, 'a, 'db) sftp_dial \<Rightarrow> ('s, 'x) sftp \<Rightarrow>
    goerr option \<times> ('s, 'x) sftp" where
  "open_primary d c =
    (let c = c\<lparr>sc_packetSize := sftpPacketSize (sd_ServerVersion d (sc_out c))\<rparr> in
     case remote (se_NewClient (sd_env d) (sftpOptions c)) c of
       (Inl err, c) \<Rightarrow>
         (let (_, c) = remote (sd_CloseSsh d) c in drop_conn d err (c\<lparr>sc_ssh := False\<rparr>))
     | (Inr s, c) \<Rightarrow>
         (None, c\<lparr>sc_sftp := Some s, sc_xferDisabled := False, sc_largeSlots := Some 0,
                  sc_xfer := Some (newConnPool (int MaxConcurrentLargeTransfers))\<rparr>))"

text \<open>Part 3, with the authentication methods and the host key callback made.\<close>

definition ssh_handshake :: "('s, 'f, 'l, 't, 'x, 'g, 'a, 'db) sftp_dial \<Rightarrow> Profile \<Rightarrow> 'g authMethod \<Rightarrow>
    ('s, 'x) sftp \<Rightarrow> goerr option \<times> ('s, 'x) sftp" where
  "ssh_handshake d profile auth c =
    (let verifyHostKey = (case p_VerifyHostKey profile of None \<Rightarrow> True | Some v \<Rightarrow> v) in
     case locally (tofuCallback (sd_hk d) verifyHostKey) c of
       (Inl err, c) \<Rightarrow> drop_conn d err c
     | (Inr cb, c) \<Rightarrow>
         (case remote (sd_NewClientConn d (profile_addr profile)
                 \<lparr>sg_User = p_Username profile, sg_Auth = auth, sg_HostKeyCallback = cb\<rparr>) c of
            (Some err, c) \<Rightarrow> drop_conn d err c
          | (None, c) \<Rightarrow> open_primary d (c\<lparr>sc_ssh := True\<rparr>)))"

text \<open>Part 2; the agent is closed when \<open>Connect\<close> returns.\<close>

definition connect_body :: "('s, 'f, 'l, 't, 'x, 'g, 'a, 'db) sftp_dial \<Rightarrow> Profile \<Rightarrow>
    ('s, 'x) sftp \<Rightarrow> goerr option \<times> ('s, 'x) sftp" where
  "connect_body d profile c =
    (if p_SSHKey profile \<noteq> '''' then
       (let (ag, c) = locally (dialAgent (sd_sa d)) c;
            (err, c) = (case locally (sshKeySigners (sd_sa d) (p_SSHKey profile) ag) c of
                          (Inl err, c) \<Rightarrow> drop_conn d err c
                        | (Inr signers, c) \<Rightarrow> ssh_handshake d profile (PublicKeys signers) c)
        in (err, c\<lparr>sc_out := closeAgent (sd_sa d) ag (sc_out c)\<rparr>))
     else ssh_handshake d profile (PasswordAuth (p_Password profile)) c)"

definition sftp_Connect :: "('s, 'f, 'l, 't, 'x, 'g, 'a, 'db) sftp_dial \<Rightarrow> Profile \<Rightarrow>
    ('s, 'x) sftp \<Rightarrow> goerr option \<times> ('s, 'x) sftp" where
  "sftp_Connect d profile c =
    (let c = (if sc_sftp c \<noteq> None \<or> sc_ssh c \<or> sc_conn c then snd (sftp_Close d c) else c) in
     case locally (sd_Dial d (profile_addr profile)) c of
       (Some err, c) \<Rightarrow> (wrapError ''connect'' (Some err), c)
     | (None, c) \<Rightarrow>
         within (sd_env d) DialTimeout (connect_body d profile)
           (c\<lparr>sc_conn := True, sc_deadlines := newDeadlineTracker\<rparr>))"

section \<open>What the calls promise\<close>

text \<open>
  \<open>up x\<close>: a TCP connection this client has dialled is open. Dialling promises something only
  while there is none; the SSH layer may close the connection below it but opens none.
\<close>

definition leaves_up :: "('x \<Rightarrow> bool) \<Rightarrow> ('x \<Rightarrow> 'a \<times> 'x) \<Rightarrow> bool" where
  "leaves_up up f \<longleftrightarrow> (\<forall>x. up (snd (f x)) = up x)"

definition dial_contract :: "('x \<Rightarrow> bool) \<Rightarrow> ('s, 'f, 'l, 't, 'x, 'g, 'a, 'db) sftp_dial \<Rightarrow> bool" where
  "dial_contract up d \<longleftrightarrow>
    (\<forall>a x. \<not> up x \<longrightarrow> up (snd (sd_Dial d a x)) = (fst (sd_Dial d a x) = None)) \<and>
    (\<forall>t x. \<not> up (snd (sd_CloseConn d t x))) \<and>
    (\<forall>t x. up (snd (sd_CloseSsh d t x)) \<longrightarrow> up x) \<and>
    (\<forall>s t x. up (snd (ss_Close (sd_env d) s t x)) \<longrightarrow> up x) \<and>
    (\<forall>a g t x. fst (sd_NewClientConn d a g t x) = None \<longrightarrow> up (snd (sd_NewClientConn d a g t x)) = up x) \<and>
    (\<forall>n t. leaves_up up (se_NewClient (sd_env d) n t)) \<and>
    (\<forall>b. leaves_up up (tofuCallback (sd_hk d) b)) \<and>
    leaves_up up (dialAgent (sd_sa d)) \<and> (\<forall>p ag. leaves_up up (sshKeySigners (sd_sa d) p ag)) \<and>
    (\<forall>ag x. up (closeAgent (sd_sa d) ag x) = up x)"

definition layers :: "('s, 'x) sftp \<Rightarrow> bool" where
  "layers c \<longleftrightarrow> (sc_sftp c \<noteq> None \<longrightarrow> sc_ssh c) \<and> (sc_ssh c \<longrightarrow> sc_conn c) \<and>
     (sc_xfer c \<noteq> None \<longrightarrow> sc_sftp c \<noteq> None)"

definition disconnected :: "('s, 'x) sftp \<Rightarrow> bool" where
  "disconnected c \<longleftrightarrow> \<not> sc_conn c \<and> \<not> sc_ssh c \<and> sc_sftp c = None \<and> sc_xfer c = None"

text \<open>Everything \<open>Connect\<close> sets up is there and fresh, and the handshake's deadline is off again.\<close>

definition connected :: "('s, 'x) sftp \<Rightarrow> bool" where
  "connected c \<longleftrightarrow> sc_conn c \<and> sc_ssh c \<and> sc_sftp c \<noteq> None \<and>
     sc_xfer c = Some (newConnPool (int MaxConcurrentLargeTransfers)) \<and> sc_largeSlots c = Some 0 \<and>
     \<not> sc_xferDisabled c \<and> sc_packetSize c \<in> {defaultSFTPPacketSize, openSSHPacketSize} \<and>
     dt_conn (sc_deadlines c) = 0 \<and> dt_active (sc_deadlines c) = []"

section \<open>Lemmas\<close>

lemma remote_keeps:
  "remote f c = (a, c') \<Longrightarrow> sc_conn c' = sc_conn c \<and> sc_deadlines c' = sc_deadlines c \<and>
    sc_ssh c' = sc_ssh c \<and> sc_sftp c' = sc_sftp c \<and> sc_xfer c' = sc_xfer c \<and>
    sc_xferDisabled c' = sc_xferDisabled c \<and> sc_largeSlots c' = sc_largeSlots c \<and>
    sc_packetSize c' = sc_packetSize c \<and> sc_out c' = snd (f (dt_conn (sc_deadlines c)) (sc_out c)) \<and>
    a = fst (f (dt_conn (sc_deadlines c)) (sc_out c))"
  by (auto simp: remote_def Let_def split: prod.splits)

lemma locally_keeps_rest:
  "locally f c = (a, c') \<Longrightarrow> c' = c\<lparr>sc_out := snd (f (sc_out c))\<rparr> \<and> a = fst (f (sc_out c))"
  by (auto simp: locally_def Let_def split: prod.splits)

lemma dial_contractD:
  assumes "dial_contract up d"
  shows "\<not> up x \<Longrightarrow> up (snd (sd_Dial d a x)) \<longleftrightarrow> fst (sd_Dial d a x) = None"
    "\<not> up (snd (sd_CloseConn d t x))" "up (snd (sd_CloseSsh d t x)) \<Longrightarrow> up x"
    "up (snd (ss_Close (sd_env d) s t x)) \<Longrightarrow> up x"
    "fst (sd_NewClientConn d a g t x) = None \<Longrightarrow> up (snd (sd_NewClientConn d a g t x)) = up x"
    "up (snd (se_NewClient (sd_env d) n t x)) = up x" "up (snd (tofuCallback (sd_hk d) b x)) = up x"
    "up (snd (dialAgent (sd_sa d) x)) = up x" "up (snd (sshKeySigners (sd_sa d) p ag x)) = up x"
    "up (closeAgent (sd_sa d) ag x) = up x"
proof -
  note c = assms [unfolded dial_contract_def leaves_up_def]
  show "\<not> up x \<Longrightarrow> up (snd (sd_Dial d a x)) \<longleftrightarrow> fst (sd_Dial d a x) = None" using c [THEN conjunct1] by blast
  note c = c [THEN conjunct2]
  show "\<not> up (snd (sd_CloseConn d t x))" using c [THEN conjunct1] by blast
  note c = c [THEN conjunct2]
  show "up (snd (sd_CloseSsh d t x)) \<Longrightarrow> up x" using c [THEN conjunct1] by blast
  note c = c [THEN conjunct2]
  show "up (snd (ss_Close (sd_env d) s t x)) \<Longrightarrow> up x" using c [THEN conjunct1] by blast
  note c = c [THEN conjunct2]
  show "fst (sd_NewClientConn d a g t x) = None \<Longrightarrow> up (snd (sd_NewClientConn d a g t x)) = up x"
    using c [THEN conjunct1] by blast
  note c = c [THEN conjunct2]
  show "up (snd (se_NewClient (sd_env d) n t x)) = up x" using c [THEN conjunct1] by simp
  note c = c [THEN conjunct2]
  show "up (snd (tofuCallback (sd_hk d) b x)) = up x" using c [THEN conjunct1] by simp
  note c = c [THEN conjunct2]
  show "up (snd (dialAgent (sd_sa d) x)) = up x" using c [THEN conjunct1] by simp
  note c = c [THEN conjunct2]
  show "up (snd (sshKeySigners (sd_sa d) p ag x)) = up x" using c [THEN conjunct1] by simp
  show "up (closeAgent (sd_sa d) ag x) = up x" using c [THEN conjunct2] by simp
qed

text \<open>\<open>open_conn up c\<close>: the state in which the handshake starts.\<close>

definition open_conn :: "('x \<Rightarrow> bool) \<Rightarrow> ('s, 'x) sftp \<Rightarrow> bool" where
  "open_conn up c \<longleftrightarrow> sc_conn c \<and> up (sc_out c) \<and> sc_sftp c = None \<and> sc_xfer c = None"

text \<open>What a part of \<open>Connect\<close> leaves, apart from the deadline, which it does not touch.\<close>

definition dial_result :: "('x \<Rightarrow> bool) \<Rightarrow> deadlineTracker \<Rightarrow> goerr option \<Rightarrow> ('s, 'x) sftp \<Rightarrow> bool" where
  "dial_result up t err c \<longleftrightarrow> sc_deadlines c = t \<and>
    (if err = None
     then up (sc_out c) \<and> sc_conn c \<and> sc_ssh c \<and> sc_sftp c \<noteq> None \<and>
       sc_xfer c = Some (newConnPool (int MaxConcurrentLargeTransfers)) \<and> sc_largeSlots c = Some 0 \<and>
       \<not> sc_xferDisabled c \<and> sc_packetSize c \<in> {defaultSFTPPacketSize, openSSHPacketSize}
     else \<not> up (sc_out c) \<and> disconnected c)"

lemma drop_conn_result:
  assumes "dial_contract up d" "sc_sftp c = None" "sc_xfer c = None" "\<not> sc_ssh c"
    and "drop_conn d e c = (err, c')"
  shows "dial_result up (sc_deadlines c) err c'"
proof -
  obtain a c1 where r: "remote (sd_CloseConn d) c = (a, c1)" by fastforce
  have "err \<noteq> None" "c' = c1\<lparr>sc_conn := False\<rparr>"
    using assms(5) r wrapError_Some [of "''connect''" e] by (auto simp: drop_conn_def)
  then show ?thesis
    using remote_keeps [OF r] assms dial_contractD(2) [OF assms(1)]
    by (auto simp: dial_result_def disconnected_def)
qed

lemma open_primary_result:
  assumes con: "dial_contract up d" and c: "open_conn up c" "sc_ssh c"
    and run: "open_primary d c = (err, c')"
  shows "dial_result up (sc_deadlines c) err c'"
proof -
  define c0 where "c0 = c\<lparr>sc_packetSize := sftpPacketSize (sd_ServerVersion d (sc_out c))\<rparr>"
  obtain r c1 where r: "remote (se_NewClient (sd_env d) (sftpOptions c0)) c0 = (r, c1)" by fastforce
  note K = remote_keeps [OF r]
  show ?thesis
  proof (cases r)
    case (Inl e)
    obtain a c2 where s: "remote (sd_CloseSsh d) c1 = (a, c2)" by fastforce
    have "drop_conn d e (c2\<lparr>sc_ssh := False\<rparr>) = (err, c')"
      using run r Inl s by (simp add: open_primary_def c0_def)
    then show ?thesis
      using drop_conn_result [OF con, of "c2\<lparr>sc_ssh := False\<rparr>" e err c'] remote_keeps [OF s] K c
      by (simp add: c0_def open_conn_def)
  next
    case (Inr s)
    then show ?thesis
      using run r K c dial_contractD(6) [OF con]
      by (auto simp: open_primary_def c0_def dial_result_def open_conn_def sftpPacketSize_def)
  qed
qed

lemma ssh_handshake_result:
  assumes con: "dial_contract up d" and c: "open_conn up c" "\<not> sc_ssh c"
    and run: "ssh_handshake d profile auth c = (err, c')"
  shows "dial_result up (sc_deadlines c) err c'"
proof -
  let ?v = "case p_VerifyHostKey profile of None \<Rightarrow> True | Some v \<Rightarrow> v"
  obtain r c1 where t: "locally (tofuCallback (sd_hk d) ?v) c = (r, c1)" by fastforce
  have c1: "c1 = c\<lparr>sc_out := snd (tofuCallback (sd_hk d) ?v (sc_out c))\<rparr>"
    using locally_keeps_rest [OF t] by simp
  have up1: "up (sc_out c1)" using c dial_contractD(7) [OF con] by (simp add: c1 open_conn_def)
  show ?thesis
  proof (cases r)
    case (Inl e)
    then have "drop_conn d e c1 = (err, c')" using run t by (simp add: ssh_handshake_def)
    then show ?thesis using drop_conn_result [OF con, of c1 e err c'] c by (simp add: c1 open_conn_def)
  next
    case (Inr cb)
    obtain e c2 where n: "remote (sd_NewClientConn d (profile_addr profile)
        \<lparr>sg_User = p_Username profile, sg_Auth = auth, sg_HostKeyCallback = cb\<rparr>) c1 = (e, c2)"
      by fastforce
    note K = remote_keeps [OF n]
    show ?thesis
    proof (cases e)
      case None
      have up2: "up (sc_out c2)" using K None up1 dial_contractD(5) [OF con] by metis
      have "open_primary d (c2\<lparr>sc_ssh := True\<rparr>) = (err, c')"
        using run t Inr n None by (simp add: ssh_handshake_def)
      from open_primary_result [OF con _ _ this] show ?thesis
        using K up2 c by (simp add: c1 open_conn_def)
    next
      case (Some er)
      then have "drop_conn d er c2 = (err, c')" using run t Inr n by (simp add: ssh_handshake_def)
      then show ?thesis using drop_conn_result [OF con, of c2 er err c'] K c by (simp add: c1 open_conn_def)
    qed
  qed
qed

lemma connect_body_result:
  assumes con: "dial_contract up d" and c: "open_conn up c" "\<not> sc_ssh c"
    and run: "connect_body d profile c = (err, c')"
  shows "dial_result up (sc_deadlines c) err c'"
proof (cases "p_SSHKey profile = ''''")
  case True
  then have "ssh_handshake d profile (PasswordAuth (p_Password profile)) c = (err, c')"
    using run by (simp add: connect_body_def)
  then show ?thesis by (rule ssh_handshake_result [OF con c])
next
  case False
  obtain ag c1 where a: "locally (dialAgent (sd_sa d)) c = (ag, c1)" by fastforce
  obtain r c2 where k: "locally (sshKeySigners (sd_sa d) (p_SSHKey profile) ag) c1 = (r, c2)" by fastforce
  obtain e c3 where b: "(case r of Inl err \<Rightarrow> drop_conn d err c2
    | Inr signers \<Rightarrow> ssh_handshake d profile (PublicKeys signers) c2) = (e, c3)" by fastforce
  have res: "err = e" "c' = c3\<lparr>sc_out := closeAgent (sd_sa d) ag (sc_out c3)\<rparr>"
    using run False a k b by (cases r; simp add: connect_body_def)+
  have out: "sc_out c1 = snd (dialAgent (sd_sa d) (sc_out c))"
    "sc_out c2 = snd (sshKeySigners (sd_sa d) (p_SSHKey profile) ag (sc_out c1))"
    and same: "c2 = c\<lparr>sc_out := sc_out c2\<rparr>"
    using locally_keeps_rest [OF a] locally_keeps_rest [OF k] by simp_all
  have up2: "up (sc_out c2)"
    using c(1) dial_contractD(8,9) [OF con] by (simp add: out open_conn_def)
  have fields: "sc_conn c2" "\<not> sc_ssh c2" "sc_sftp c2 = None" "sc_xfer c2 = None"
    "sc_deadlines c2 = sc_deadlines c"
    using c same by (metis (no_types, lifting) open_conn_def sftp.select_convs sftp.update_convs(9) sftp.surjective)+
  have "dial_result up (sc_deadlines c2) e c3"
  proof (cases r)
    case (Inl x)
    then have "drop_conn d x c2 = (e, c3)" using b by simp
    then show ?thesis using drop_conn_result [OF con] fields by blast
  next
    case (Inr signers)
    then have "ssh_handshake d profile (PublicKeys signers) c2 = (e, c3)" using b by simp
    from ssh_handshake_result [OF con _ _ this] show ?thesis using up2 fields by (simp add: open_conn_def)
  qed
  then show ?thesis
    using fields dial_contractD(10) [OF con] by (auto simp: res dial_result_def disconnected_def)
qed

lemma fold_remote_keeps:
  assumes "\<And>s t x. up (snd (f s t x)) \<Longrightarrow> up x"
  shows "case fold (\<lambda>s c. snd (remote (f s) c)) xs c of c' \<Rightarrow>
    sc_conn c' = sc_conn c \<and> sc_ssh c' = sc_ssh c \<and> sc_sftp c' = sc_sftp c \<and>
    (up (sc_out c') \<longrightarrow> up (sc_out c))"
proof (induction xs arbitrary: c)
  case (Cons s xs)
  obtain a c1 where r: "remote (f s) c = (a, c1)" by fastforce
  then show ?case using Cons.IH [of c1] remote_keeps [OF r] assms(1) by auto
qed simp

lemma closing_keeps:
  assumes "closing call e c = (e', c')"
  shows "sc_conn c' = sc_conn c \<and> sc_ssh c' = sc_ssh c \<and> sc_sftp c' = sc_sftp c \<and> sc_xfer c' = sc_xfer c \<and>
    sc_out c' = snd (call (dt_conn (sc_deadlines c)) (sc_out c))"
proof -
  obtain a c1 where r: "remote call c = (a, c1)" by fastforce
  then show ?thesis using assms remote_keeps [OF r] by (auto simp: closing_def)
qed

lemma close_xfer_keeps:
  assumes con: "dial_contract up d"
  shows "sc_conn (close_xfer d c) = sc_conn c \<and> sc_ssh (close_xfer d c) = sc_ssh c \<and>
    sc_sftp (close_xfer d c) = sc_sftp c \<and> sc_xfer (close_xfer d c) = None \<and>
    (up (sc_out (close_xfer d c)) \<longrightarrow> up (sc_out c))"
proof (cases "sc_xfer c")
  case (Some p)
  then show ?thesis
    using fold_remote_keeps [of up "ss_Close (sd_env d)" "fst (closeAll p)" c] dial_contractD(4) [OF con]
    by (simp add: close_xfer_def)
qed (simp add: close_xfer_def)

lemma sftp_Close_result:
  assumes con: "dial_contract up d" and run: "sftp_Close d c = (err, c')"
    and up: "up (sc_out c) \<longrightarrow> sc_conn c"
  shows "disconnected c' \<and> \<not> up (sc_out c')"
proof -
  note X = close_xfer_keeps [OF con, of c]
  define c1 where "c1 = close_xfer d c"
  obtain e2 c2 where s2: "(case sc_sftp c1 of None \<Rightarrow> (None, c1)
    | Some s \<Rightarrow> (let (err, c) = closing (ss_Close (sd_env d) s) None c1 in (err, c\<lparr>sc_sftp := None\<rparr>))) = (e2, c2)"
    by fastforce
  obtain e3 c3 where s3: "(if sc_ssh c2
    then (let (err, c) = closing (sd_CloseSsh d) e2 c2 in (err, c\<lparr>sc_ssh := False\<rparr>)) else (e2, c2)) = (e3, c3)"
    by fastforce
  have c2: "sc_sftp c2 = None \<and> sc_xfer c2 = None \<and> sc_conn c2 = sc_conn c \<and> sc_ssh c2 = sc_ssh c \<and>
    (up (sc_out c2) \<longrightarrow> up (sc_out c))"
  proof (cases "sc_sftp c1")
    case None
    then show ?thesis using s2 X by (auto simp: c1_def)
  next
    case (Some s)
    obtain e q where q: "closing (ss_Close (sd_env d) s) None c1 = (e, q)" by fastforce
    then have "c2 = q\<lparr>sc_sftp := None\<rparr>" using s2 Some by simp
    moreover have "up (sc_out q) \<longrightarrow> up (sc_out c1)"
      using closing_keeps [OF q] dial_contractD(4) [OF con] by metis
    ultimately show ?thesis using closing_keeps [OF q] X by (simp add: c1_def)
  qed
  have c3: "sc_sftp c3 = None \<and> sc_xfer c3 = None \<and> \<not> sc_ssh c3 \<and> sc_conn c3 = sc_conn c \<and>
    (up (sc_out c3) \<longrightarrow> up (sc_out c))"
  proof (cases "sc_ssh c2")
    case False
    then show ?thesis using s3 c2 by auto
  next
    case True
    obtain e q where q: "closing (sd_CloseSsh d) e2 c2 = (e, q)" by fastforce
    then have "c3 = q\<lparr>sc_ssh := False\<rparr>" using s3 True by simp
    moreover have "up (sc_out q) \<longrightarrow> up (sc_out c2)"
      using closing_keeps [OF q] dial_contractD(3) [OF con] by metis
    ultimately show ?thesis using closing_keeps [OF q] c2 by simp
  qed
  have c': "(err, c') = (if sc_conn c3
    then (let (err, c) = closing (sd_CloseConn d) e3 c3 in (err, c\<lparr>sc_conn := False\<rparr>)) else (e3, c3))"
    using run unfolding sftp_Close_def Let_def c1_def [symmetric] s2 [unfolded Let_def] prod.case
      s3 [unfolded Let_def] by (rule sym)
  show ?thesis
  proof (cases "sc_conn c3")
    case True
    obtain e4 c4 where q: "closing (sd_CloseConn d) e3 c3 = (e4, c4)" by fastforce
    then have "c' = c4\<lparr>sc_conn := False\<rparr>" using c' True by simp
    then show ?thesis
      using closing_keeps [OF q] c3 dial_contractD(2) [OF con] by (simp add: disconnected_def)
  next
    case False
    then show ?thesis using c' c3 up by (auto simp: disconnected_def)
  qed
qed

section \<open>The properties\<close>

lemma fresh_begin_end:
  assumes "dt_begin now n newDeadlineTracker = (k, t)"
  shows "dt_conn (dt_end k t) = 0 \<and> dt_active (dt_end k t) = []"
  using assms by (auto simp: dt_begin_def newDeadlineTracker_def Let_def dt_end_def dt_apply_def)

text \<open>
  C16: \<open>Connect\<close> sets up every layer or none. Called in any state whose layers fit (nothing
  is open that the client has forgotten), it returns nil exactly with the TCP connection,
  the SSH client, the primary session and a fresh pool of extra sessions in place, no
  transfer slot taken and no deadline left on the connection by the handshake; whatever
  call fails, every layer is gone again and no TCP connection stays open. An old connection
  is closed first.
\<close>

theorem sftp_Connect_all_or_nothing:
  assumes con: "dial_contract up d" and up: "up (sc_out c) = sc_conn c" and lay: "layers c"
    and run: "sftp_Connect d profile c = (err, c')"
  shows "layers c' \<and> up (sc_out c') = sc_conn c' \<and>
    (err = None \<longrightarrow> connected c') \<and> (err \<noteq> None \<longrightarrow> disconnected c')"
proof -
  define c0 where "c0 = (if sc_sftp c \<noteq> None \<or> sc_ssh c \<or> sc_conn c then snd (sftp_Close d c) else c)"
  have c0: "disconnected c0 \<and> \<not> up (sc_out c0)"
  proof (cases "sc_sftp c \<noteq> None \<or> sc_ssh c \<or> sc_conn c")
    case True
    then show ?thesis using sftp_Close_result [OF con, of c "fst (sftp_Close d c)" c0] up by (simp add: c0_def)
  next
    case False
    then show ?thesis using lay up by (auto simp: c0_def layers_def disconnected_def)
  qed
  obtain e c1 where dial: "locally (sd_Dial d (profile_addr profile)) c0 = (e, c1)" by fastforce
  have c1: "c1 = c0\<lparr>sc_out := snd (sd_Dial d (profile_addr profile) (sc_out c0))\<rparr>"
    "e = fst (sd_Dial d (profile_addr profile) (sc_out c0))"
    using locally_keeps_rest [OF dial] by simp_all
  have up1: "up (sc_out c1) \<longleftrightarrow> e = None" using c0 dial_contractD(1) [OF con] by (simp add: c1)
  show ?thesis
  proof (cases e)
    case (Some er)
    then have "err \<noteq> None" "c' = c1"
      using run dial wrapError_Some [of "''connect''" er]
      unfolding sftp_Connect_def Let_def c0_def [symmetric] by auto
    then show ?thesis using c0 up1 Some by (auto simp: c1 disconnected_def layers_def)
  next
    case None
    define c2 where "c2 = c1\<lparr>sc_conn := True, sc_deadlines := newDeadlineTracker\<rparr>"
    obtain k t where b: "dt_begin (se_now (sd_env d) (sc_out c2)) DialTimeout newDeadlineTracker = (k, t)"
      by fastforce
    obtain e3 c3 where body: "connect_body d profile (c2\<lparr>sc_deadlines := t\<rparr>) = (e3, c3)" by fastforce
    have "within (sd_env d) DialTimeout (connect_body d profile) c2 = (err, c')"
      using run dial None unfolding sftp_Connect_def Let_def c0_def [symmetric] c2_def by simp
    then have res: "err = e3" "c' = c3\<lparr>sc_deadlines := dt_end k (sc_deadlines c3)\<rparr>"
      using b body by (auto simp: within_def c2_def)
    have "open_conn up (c2\<lparr>sc_deadlines := t\<rparr>)" "\<not> sc_ssh (c2\<lparr>sc_deadlines := t\<rparr>)"
      using c0 up1 None by (simp_all add: open_conn_def c2_def c1 disconnected_def)
    from connect_body_result [OF con this body] have "dial_result up t e3 c3" by simp
    then show ?thesis
      using fresh_begin_end [OF b]
      by (cases e3) (auto simp: res dial_result_def connected_def layers_def disconnected_def)
  qed
qed

text \<open>What every call on the way to the handshake keeps, \<open>Connect\<close> keeps up to there.\<close>

definition calls_keep :: "('x \<Rightarrow> bool) \<Rightarrow> ('s, 'f, 'l, 't, 'x, 'g, 'a, 'db) sftp_dial \<Rightarrow> bool" where
  "calls_keep I d \<longleftrightarrow> (\<forall>a. keeps I (sd_Dial d a)) \<and> (\<forall>t. keeps I (sd_CloseConn d t)) \<and>
     (\<forall>t. keeps I (sd_CloseSsh d t)) \<and> (\<forall>s t. keeps I (ss_Close (sd_env d) s t)) \<and>
     keeps I (dialAgent (sd_sa d)) \<and> (\<forall>p ag. keeps I (sshKeySigners (sd_sa d) p ag))"

lemma remote_keep: "(\<And>t. keeps I (f t)) \<Longrightarrow> I (sc_out c) \<Longrightarrow> I (sc_out (snd (remote f c)))"
  by (simp add: remote_def keeps_def case_prod_beta)

lemma closing_keep: "(\<And>t. keeps I (f t)) \<Longrightarrow> I (sc_out c) \<Longrightarrow> I (sc_out (snd (closing f e c)))"
  by (simp add: closing_def case_prod_beta remote_keep)

lemma fold_keep:
  "(\<And>s t. keeps I (f s t)) \<Longrightarrow> I (sc_out c) \<Longrightarrow> I (sc_out (fold (\<lambda>s c. snd (remote (f s) c)) xs c))"
  by (induction xs arbitrary: c) (simp_all add: remote_keep)

lemma sftp_Close_keep:
  assumes "calls_keep I d" "I (sc_out c)"
  shows "I (sc_out (snd (sftp_Close d c)))"
proof -
  note k = assms(1) [unfolded calls_keep_def]
  have "keeps I (sd_CloseConn d t)" "keeps I (sd_CloseSsh d t)" "keeps I (ss_Close (sd_env d) s t)" for s t
    using k by blast+
  note [simp] = closing_keep [where I = I and f = "sd_CloseConn d", OF this(1)]
    closing_keep [where I = I and f = "sd_CloseSsh d", OF this(2)]
    closing_keep [where I = I and f = "ss_Close (sd_env d) s" for s, OF this(3)]
    fold_keep [where I = I and f = "ss_Close (sd_env d)", OF this(3)]
  have "I (sc_out (close_xfer d c))" using assms(2) by (simp add: close_xfer_def split: option.split)
  then show ?thesis by (simp add: sftp_Close_def Let_def case_prod_beta split: option.split)
qed

text \<open>Every way to drop the connection is an error, so \<open>Connect\<close> is refused where its parts are.\<close>

lemma drop_conn_error: "fst (drop_conn d e c) \<noteq> None"
  using wrapError_Some [of "''connect''" e] by (simp add: drop_conn_def split: prod.split)

text \<open>
  With \<open>known_hosts\<close> in the state \<open>S\<close>, which has another key of this type for the host, the
  handshake is refused; then so is what comes after the TCP connection.
\<close>

lemma handshake_refused:
  fixes d :: "('s, 'f, 'l, 't, 'x, 'g, 'a, 'db) sftp_dial" and c :: "('s, 'x) sftp"
  assumes con: "hk_contract ls es (sd_hk d)" and home: "\<forall>w. hk_UserHomeDir (sd_hk d) w = Inr home"
    and ssh: "\<And>a g t x. fst (sd_NewClientConn d a g t x) = None \<Longrightarrow>
      fst (verify (sd_hk d) (sg_HostKeyCallback g) a skey x) = None"
    and verify: "p_VerifyHostKey profile \<noteq> Some False"
    and pinned: "(hk_Normalize (sd_hk d) (profile_addr profile), k) \<in> ls (sc_out c) (knownHostsPath_of home)"
      "(hk_Normalize (sd_hk d) (profile_addr profile), skey) \<notin> ls (sc_out c) (knownHostsPath_of home)"
      "pk_Type k = pk_Type skey"
  shows "fst (ssh_handshake d profile auth c) \<noteq> None"
proof -
  have v: "(case p_VerifyHostKey profile of None \<Rightarrow> True | Some v \<Rightarrow> v) = True"
    using verify by (auto split: option.split)
  obtain r c1 where t: "locally (tofuCallback (sd_hk d) True) c = (r, c1)" by fastforce
  have r: "tofuCallback (sd_hk d) True (sc_out c) = (r, sc_out c1)" using locally_out [OF t] .
  show ?thesis
  proof (cases r)
    case (Inl e)
    then show ?thesis using t drop_conn_error by (simp add: ssh_handshake_def v)
  next
    case (Inr cb)
    let ?g = "\<lparr>sg_User = p_Username profile, sg_Auth = auth, sg_HostKeyCallback = cb\<rparr>"
    obtain e c2 where n: "remote (sd_NewClientConn d (profile_addr profile) ?g) c1 = (e, c2)" by fastforce
    have "e \<noteq> None"
    proof
      assume "e = None"
      then have "fst (verify (sd_hk d) cb (profile_addr profile) skey (sc_out c1)) = None"
        using ssh [of "profile_addr profile" ?g] remote_keeps [OF n] by simp
      then have "fst (present (sd_hk d) (profile_addr profile, skey) (sc_out c)) = None"
        using r Inr by (simp add: present_def)
      then show False
        using present_effect(2) [OF con home, of "profile_addr profile" skey "sc_out c"] pinned
        by (metis prod.collapse)
    qed
    then show ?thesis using t Inr n drop_conn_error by (auto simp: ssh_handshake_def v)
  qed
qed

lemma connect_body_refused:
  fixes d :: "('s, 'f, 'l, 't, 'x, 'g, 'a, 'db) sftp_dial" and c :: "('s, 'x) sftp"
  assumes "calls_keep I d" "I (sc_out c)"
    and "\<And>auth (q :: ('s, 'x) sftp). I (sc_out q) \<Longrightarrow> fst (ssh_handshake d profile auth q) \<noteq> None"
  shows "fst (connect_body d profile c) \<noteq> None"
proof -
  obtain ag q1 where a: "locally (dialAgent (sd_sa d)) c = (ag, q1)" by fastforce
  obtain r q2 where k: "locally (sshKeySigners (sd_sa d) (p_SSHKey profile) ag) q1 = (r, q2)" by fastforce
  have "I (sc_out q2)"
    using assms(1,2) locally_keeps_rest [OF a] locally_keeps_rest [OF k] by (simp add: calls_keep_def keeps_def)
  then show ?thesis
    using assms(2,3) drop_conn_error
    by (auto simp: connect_body_def a k case_prod_beta Let_def split: sum.split)
qed

lemma sftp_Connect_refused:
  fixes d :: "('s, 'f, 'l, 't, 'x, 'g, 'a, 'db) sftp_dial" and c :: "('s, 'x) sftp"
  assumes "calls_keep I d" "I (sc_out c)"
    and "\<And>auth (q :: ('s, 'x) sftp). I (sc_out q) \<Longrightarrow> fst (ssh_handshake d profile auth q) \<noteq> None"
  shows "fst (sftp_Connect d profile c) \<noteq> None"
proof -
  note body = connect_body_refused [OF assms(1) _ assms(3)]
  define c0 where "c0 = (if sc_sftp c \<noteq> None \<or> sc_ssh c \<or> sc_conn c then snd (sftp_Close d c) else c)"
  have "I (sc_out c0)" using sftp_Close_keep [OF assms(1,2)] assms(2) by (simp add: c0_def)
  moreover obtain e c1 where dial: "locally (sd_Dial d (profile_addr profile)) c0 = (e, c1)" by fastforce
  ultimately have "I (sc_out c1)"
    using assms(1) locally_keeps_rest [OF dial] by (simp add: calls_keep_def keeps_def)
  then show ?thesis
    using body dial wrapError_Some unfolding sftp_Connect_def Let_def c0_def [symmetric]
    by (cases e) (auto simp: within_def case_prod_beta Let_def)
qed

text \<open>
  C7: A server whose key has changed is never connected to. \<open>ssh.NewClientConn\<close> succeeds only
  if the host key callback has accepted the key the server proved (\<open>skey\<close>). If
  \<open>known_hosts\<close> has a key of the same type for the host, and not this one, \<open>Connect\<close> fails,
  with a password as with a key, whatever connection it had before.
\<close>

theorem changed_host_key_refused:
  fixes d :: "('s, 'f, 'l, 't, 'x, 'g, 'a, 'db) sftp_dial" and c :: "('s, 'x) sftp"
  assumes con: "hk_contract ls es (sd_hk d)" and home: "\<forall>w. hk_UserHomeDir (sd_hk d) w = Inr home"
    and quiet: "\<And>s. calls_keep (\<lambda>x. ls x (knownHostsPath_of home) = s) d"
    and ssh: "\<And>a g t x. fst (sd_NewClientConn d a g t x) = None \<Longrightarrow>
      fst (verify (sd_hk d) (sg_HostKeyCallback g) a skey x) = None"
    and verify: "p_VerifyHostKey profile \<noteq> Some False"
    and pinned: "(hk_Normalize (sd_hk d) (profile_addr profile), k) \<in> ls (sc_out c) (knownHostsPath_of home)"
      "(hk_Normalize (sd_hk d) (profile_addr profile), skey) \<notin> ls (sc_out c) (knownHostsPath_of home)"
      "pk_Type k = pk_Type skey"
  shows "fst (sftp_Connect d profile c) \<noteq> None"
proof (rule sftp_Connect_refused)
  show "calls_keep (\<lambda>x. ls x (knownHostsPath_of home) = ls (sc_out c) (knownHostsPath_of home)) d" by (rule quiet)
  fix auth and q :: "('s, 'x) sftp"
  assume "ls (sc_out q) (knownHostsPath_of home) = ls (sc_out c) (knownHostsPath_of home)"
  then show "fst (ssh_handshake d profile auth q) \<noteq> None"
    using pinned by (intro handshake_refused [OF con home ssh verify, where k = k]) simp_all
qed simp

end
