(* ===== verification/Sftp_Client.thy ===== *)
theory Sftp_Client
  imports Sftp_Connect
begin

text \<open>
  The SFTP client as a \<open>RemoteClient\<close>: its connection, metadata and directory operations.
  Uploads and downloads, which need what other goroutines do meanwhile (\<open>Sftp_Transfer\<close>),
  are those of \<open>base\<close>. It keeps the promise the remote scan rests on.
\<close>

definition sftp_SupportsConcurrentRequests :: bool where
  "sftp_SupportsConcurrentRequests = True"

definition sftp_client :: "('s, 'x) sftp RemoteClient \<Rightarrow>
    ('s, 'f, 'l, 't, 'x, 'g, 'a, 'db) sftp_dial \<Rightarrow> Profile \<Rightarrow> ('s, 'x) sftp RemoteClient" where
  "sftp_client base d profile = base
    \<lparr>rc_Connect := sftp_Connect d profile, rc_Close := sftp_Close d,
     rc_IsAlive := sftp_IsAlive (sd_env d),
     rc_Stat := (\<lambda>p. sftp_Stat p (sd_env d)), rc_ReadDir := (\<lambda>p. sftp_ReadDir p (sd_env d)),
     rc_Mkdir := (\<lambda>p. sftp_Mkdir p (sd_env d)), rc_MkdirAll := (\<lambda>p. sftp_MkdirAll p (sd_env d)),
     rc_Remove := (\<lambda>p. sftp_Remove p (sd_env d)), rc_RemoveDir := (\<lambda>p. sftp_RemoveDir p (sd_env d)),
     rc_Chmod := (\<lambda>p m. sftp_Chmod p m (sd_env d)),
     rc_Concurrent := Some sftp_SupportsConcurrentRequests\<rparr>"

lemma kept_entries_safe: "safe_items (map (\<lambda>e. fileInfoToRemote e '''') (filter keep_entry es))"
  by (simp add: safe_items_def list_all_iff keep_entry_def fileInfoToRemote_def)

lemma sftp_ReadDir_safe: "safe_result (fst (sftp_ReadDir p env c))"
  by (simp add: sftp_ReadDir_def within_def case_prod_beta Let_def safe_result_def kept_entries_safe
      split: sum.split)

interpretation sftp_scan: safe_listing "sftp_client base d profile"
  by unfold_locales (simp add: sftp_client_def sftp_ReadDir_safe)

text \<open>
  C23: Whatever a server answers to the SFTP client, and in whatever order the directory
  listings of a scan come back, the scan only ever holds paths made of plain components,
  each path once: no entry of a listing can name something outside the directory it was
  listed in (\<open>..\<close>, an absolute name, a name with a separator in it), and symbolic links
  are not in it.
\<close>

theorem sftp_scan_contained:
  assumes "walkRemote (sftp_client base d profile) dm sched root patterns c = Some ((entries, err), c')"
  shows "distinct_keys entries \<and> (\<forall>k \<in> fst ` set entries. plain_key k)"
  using sftp_scan.walkRemote_good [OF assms] by (simp add: good_entries_def)

end
