(* ===== verification/Connect_Example.thy ===== *)
theory Connect_Example
  imports Sftp_Client Sftp_Mkdir
begin

text \<open>
  Runs of the SFTP client's \<open>Connect\<close>: a world that is the list of the lines of
  \<open>known_hosts\<close>, with the line \<open>UP\<close> in it while a TCP connection is open.
\<close>

definition hosts_of :: "string list \<Rightarrow> (string \<times> pubkey) list" where
  "hosts_of w = map kh_read (filter (\<lambda>l. l \<noteq> ''UP'') w)"

definition ce_hk :: "((string \<times> pubkey) list, string list) hk_env" where
  "ce_hk = kh_env\<lparr>hk_New := (\<lambda>p w. Inr (hosts_of w))\<rparr>"

definition ce_sa :: "(string, unit, string list) sa_env" where
  "ce_sa = \<lparr>sa_GOOS = ''linux'', sa_Getenv = (\<lambda>v. ''''), sa_ReadFile = (\<lambda>p w. Inr p),
     sa_ParsePrivateKey = Parsed, sa_ParseAuthorizedKey = (\<lambda>b. None), sa_PublicKey = kh_key,
     sa_Marshal = pk_Key, sa_DialAgent = (\<lambda>a w. (Inr (), w)), sa_CloseAgent = (\<lambda>a w. w),
     sa_Signers = (\<lambda>a w. (Inr [], w))\<rparr>"

text \<open>A server with the key \<open>k\<close> that accepts every user.\<close>

definition ce_dial :: "pubkey \<Rightarrow>
    (nat, nat, nat, nat, string list, string, unit, (string \<times> pubkey) list) sftp_dial" where
  "ce_dial k =
    \<lparr>sd_env = md_env KDir, sd_hk = ce_hk, sd_sa = ce_sa,
     sd_Dial = (\<lambda>a w. (None, ''UP'' # w)),
     sd_CloseConn = (\<lambda>t w. (None, filter (\<lambda>l. l \<noteq> ''UP'') w)),
     sd_NewClientConn = (\<lambda>a g t w. verify ce_hk (sg_HostKeyCallback g) a k w),
     sd_ServerVersion = (\<lambda>w. ''SSH-2.0-OpenSSH_9.6''), sd_CloseSsh = (\<lambda>t w. (None, w))\<rparr>"

definition ce_profile :: Profile where
  "ce_profile = \<lparr>p_Host = ''h'', p_Username = ''u'', p_Password = ''p'', p_SSHKey = '''', p_Port = 22,
     p_Protocol = ''sftp'', p_RemotePath = ''/'', p_Context = ''/c'', p_AutoSync = False,
     p_AutoSyncDebounce = 0, p_AutoSyncDeletes = False, p_VerifyHostKey = None,
     p_FTPConnections = 0, p_TLSCACert = ''''\<rparr>"

definition ce_client :: "string list \<Rightarrow> (nat, string list) sftp" where
  "ce_client x = \<lparr>sc_conn = False, sc_deadlines = newDeadlineTracker, sc_ssh = False,
     sc_sftp = None, sc_xfer = None, sc_xferDisabled = False, sc_largeSlots = None,
     sc_packetSize = 0, sc_out = x\<rparr>"

lemma kh_line_not_up: "kh_line hs k \<noteq> ''UP''"
  by (cases "hd hs") (simp_all add: kh_line_def)

lemma ce_tofu: "snd (tofuCallback ce_hk b x) = x"
  by (simp add: tofuCallback_def ce_hk_def kh_env_def Let_def split: option.split)

lemma ce_signers: "snd (sshKeySigners ce_sa p ag x) = x" "dialAgent ce_sa x = (None, x)"
    "closeAgent ce_sa ag x = x"
  by (simp_all add: sshKeySigners_def ce_sa_def dialAgent_def closeAgent_def split: option.split)

lemma ce_verify_up: "''UP'' \<in> set (snd (verify ce_hk cb a k x)) \<longleftrightarrow> ''UP'' \<in> set x"
  using kh_line_not_up [of "[a]" k]
  by (cases cb) (auto simp: ce_hk_def kh_env_def appendKnownHost_def split: known.split)

lemma ce_dial_contract: "dial_contract (\<lambda>x. ''UP'' \<in> set x) (ce_dial k)"
  unfolding dial_contract_def leaves_up_def
  by (simp add: ce_dial_def ce_tofu ce_signers ce_verify_up md_env_def)

lemma ce_run: "fst (sftp_Connect (ce_dial (kh_key ''A'')) ce_profile (ce_client [])) = None"
  by code_simp

text \<open>The first connection to a host is made, and all its layers with it.\<close>

theorem sftp_Connect_all_or_nothing_witness:
  "\<exists>c. sftp_Connect (ce_dial (kh_key ''A'')) ce_profile (ce_client []) = (None, c) \<and> connected c \<and>
     ''UP'' \<in> set (sc_out c)"
proof -
  obtain c where c: "sftp_Connect (ce_dial (kh_key ''A'')) ce_profile (ce_client []) = (None, c)"
    using ce_run by (metis prod.collapse)
  have up: "(''UP'' \<in> set (sc_out (ce_client []))) = sc_conn (ce_client [])" and lay: "layers (ce_client [])"
    by (simp_all add: ce_client_def layers_def)
  from sftp_Connect_all_or_nothing [OF ce_dial_contract up lay c] show ?thesis
    using c by (auto simp: connected_def)
qed

lemma ce_hk_contract: "hk_contract (\<lambda>w p. set (hosts_of w)) set ce_hk"
  using kh_line_not_up
  by (auto simp: hk_contract_def ce_hk_def kh_env_def kh_check_def kh_read_line hosts_of_def intro: rev_image_eqI)

lemma hosts_of_quiet: "hosts_of (''UP'' # w) = hosts_of w" "hosts_of (filter (\<lambda>l. l \<noteq> ''UP'') w) = hosts_of w"
  by (simp_all add: hosts_of_def)

text \<open>The host is known with key \<open>A\<close>; another server that answers for it is refused.\<close>

theorem changed_host_key_refused_witness:
  "fst (sftp_Connect (ce_dial (kh_key ''B'')) ce_profile
     (ce_client [kh_line [''h:22''] (kh_key ''A'')])) \<noteq> None"
proof (rule changed_host_key_refused [where ls = "\<lambda>w p. set (hosts_of w)" and es = set and home = "''/home/u''"
      and skey = "kh_key ''B''" and k = "kh_key ''A''"])
  show "hk_contract (\<lambda>w p. set (hosts_of w)) set (sd_hk (ce_dial (kh_key ''B'')))"
    using ce_hk_contract by (simp add: ce_dial_def)
  show "\<forall>w. hk_UserHomeDir (sd_hk (ce_dial (kh_key ''B''))) w = Inr ''/home/u''"
    by (simp add: ce_dial_def ce_hk_def kh_env_def)
  show "calls_keep (\<lambda>x. set (hosts_of x) = s) (ce_dial (kh_key ''B''))" for s
    unfolding calls_keep_def keeps_def
    by (simp add: ce_dial_def hosts_of_quiet ce_signers md_env_def)
  show "fst (verify (sd_hk (ce_dial (kh_key ''B''))) (sg_HostKeyCallback g) a (kh_key ''B'') x) = None"
    if "fst (sd_NewClientConn (ce_dial (kh_key ''B'')) a g t x) = None" for a g t x
    using that by (simp add: ce_dial_def)
  show "p_VerifyHostKey ce_profile \<noteq> Some False" by (simp add: ce_profile_def)
  have addr: "hk_Normalize (sd_hk (ce_dial (kh_key ''B''))) (profile_addr ce_profile) = ''h:22''" by code_simp
  have hosts: "set (hosts_of (sc_out (ce_client [kh_line [''h:22''] (kh_key ''A'')]))) = {(''h:22'', kh_key ''A'')}"
    using kh_line_not_up by (simp add: hosts_of_def ce_client_def kh_read_line)
  show "(hk_Normalize (sd_hk (ce_dial (kh_key ''B''))) (profile_addr ce_profile), kh_key ''A'')
      \<in> set (hosts_of (sc_out (ce_client [kh_line [''h:22''] (kh_key ''A'')])))"
    unfolding addr hosts by simp
  show "(hk_Normalize (sd_hk (ce_dial (kh_key ''B''))) (profile_addr ce_profile), kh_key ''B'')
      \<notin> set (hosts_of (sc_out (ce_client [kh_line [''h:22''] (kh_key ''A'')])))"
    unfolding addr hosts by (simp add: kh_key_def)
  show "pk_Type (kh_key ''A'') = pk_Type (kh_key ''B'')" by (simp add: kh_key_def)
qed

text \<open>A server that answers every listing with a file, a link, and a name that leads out.\<close>

definition ce_names :: "FileInfo list" where
  "ce_names = [md_info KRegular ''a'', md_info KSymlink ''l'', (md_info KRegular '''')\<lparr>fi_Name := ''../x''\<rparr>]"

definition ce_listing ::
  "(nat, nat, nat, nat, string list, string, unit, (string \<times> pubkey) list) sftp_dial" where
  "ce_listing = (ce_dial (kh_key ''A''))
     \<lparr>sd_env := (md_env KDir)\<lparr>ss_ReadDir := (\<lambda>s p t x. (Inr ce_names, x))\<rparr>\<rparr>"

definition ce_base :: "(nat, string list) sftp RemoteClient" where
  "ce_base = \<lparr>rc_Connect = Pair None, rc_Close = Pair None, rc_IsAlive = Pair True,
     rc_Stat = (\<lambda>p. Pair (Inl (Sentinel ErrNotExist))), rc_ReadDir = (\<lambda>p. Pair (Inr [])),
     rc_Upload = (\<lambda>l r. Pair None), rc_UploadResume = (\<lambda>l r. Pair None), rc_Download = (\<lambda>l r. Pair None),
     rc_Mkdir = (\<lambda>p. Pair None), rc_MkdirAll = (\<lambda>p. Pair None), rc_Remove = (\<lambda>p. Pair None),
     rc_RemoveDir = (\<lambda>p. Pair None), rc_Chmod = (\<lambda>p m. Pair None), rc_Concurrent = None,
     rc_DownloadKnown = None\<rparr>"

definition ce_scan where
  "ce_scan = walkRemote (sftp_client ce_base ce_listing ce_profile) (\<lambda>p s. False)
     [WList 0, WMerge 0] ''/r'' [] (md_client [])"

lemma ce_scan_run: "map_option (\<lambda>r. map fst (fst (fst r))) ce_scan = Some [''a'']"
  by code_simp

theorem sftp_scan_contained_witness:
  "\<exists>entries err c. ce_scan = Some ((entries, err), c) \<and> map fst entries = [''a''] \<and>
     list_all plain_key (map fst entries)"
proof -
  obtain entries err c where r: "ce_scan = Some ((entries, err), c)" "map fst entries = [''a'']"
    using ce_scan_run by (cases ce_scan) auto
  then have "\<forall>k \<in> fst ` set entries. plain_key k"
    using sftp_scan_contained [where base = ce_base and d = ce_listing and profile = ce_profile
        and entries = entries and err = err and c' = c] by (simp add: ce_scan_def)
  then have "list_all plain_key (map fst entries)" by (simp add: list_all_iff)
  then show ?thesis using r by (intro exI [of _ entries] exI [of _ err] exI [of _ c] conjI)
qed

end
