(* ===== verification/Ftp_Session.thy ===== *)
theory Ftp_Session
  imports Sftp_Connect
begin

text \<open>
  internal/transfer/ftpsession.go: one FTP control connection with the data connections
  that the FTP library dials through it, and the deadline they all get. \<open>'k\<close> is a TCP
  socket, \<open>'x\<close> the world. The library (\<open>jlaffaye/ftp\<close>) is a parameter: \<open>lib_Dial\<close> is given
  the session's \<open>dial\<close>, which it may call; further calls of \<open>dial\<close> are events of the
  session.
\<close>

text \<open>\<open>fs_ServerConn\<close>, \<open>fs_tls\<close>: the pointer is not nil. A zero deadline is none.\<close>

record 'k ftpSession =
  fs_ServerConn :: bool
  fs_tls :: bool
  fs_control :: "'k option"
  fs_data :: "'k list"
  fs_deadline :: gotime

text \<open>What \<open>dial\<close> returns as a \<open>net.Conn\<close>: the socket, or a TLS client on it.\<close>

datatype 'k netConn = RawConn 'k | TlsConn 'k

type_synonym ('k, 'x) dialFunc = "string \<Rightarrow> 'k ftpSession \<Rightarrow> 'x \<Rightarrow> 'k netConn res \<times> 'k ftpSession \<times> 'x"

record ('k, 'x) fs_env =
  fe_Now :: "'x \<Rightarrow> gotime"
  fe_DialTCP :: "string \<Rightarrow> 'x \<Rightarrow> 'k res \<times> 'x"
  fe_SetDeadline :: "'k \<Rightarrow> gotime \<Rightarrow> 'x \<Rightarrow> 'x"
  fe_CloseSock :: "'k \<Rightarrow> 'x \<Rightarrow> 'x"
  lib_Dial :: "('k, 'x) dialFunc \<Rightarrow> string \<Rightarrow> 'k ftpSession \<Rightarrow> 'x \<Rightarrow> goerr option \<times> 'k ftpSession \<times> 'x"
  lib_Login :: "'k \<Rightarrow> string \<Rightarrow> string \<Rightarrow> (goerr option, 'x) net_call"
  lib_Quit :: "'k \<Rightarrow> (goerr option, 'x) net_call"

definition session_dial :: "('k, 'x) fs_env \<Rightarrow> ('k, 'x) dialFunc" where
  "session_dial env address s x =
    (case fe_DialTCP env address x of
       (Inl err, x) \<Rightarrow> (Inl err, s, x)
     | (Inr raw, x) \<Rightarrow>
         (let x = (if fs_deadline s \<noteq> 0 then fe_SetDeadline env raw (fs_deadline s) x else x)
          in if fs_control s = None then (Inr (RawConn raw), s\<lparr>fs_control := Some raw\<rparr>, x)
             else (let s = s\<lparr>fs_data := fs_data s @ [raw]\<rparr>
                   in (Inr (if fs_tls s then TlsConn raw else RawConn raw), s, x))))"

definition set_deadlines :: "('k, 'x) fs_env \<Rightarrow> 'k list \<Rightarrow> gotime \<Rightarrow> 'x \<Rightarrow> 'x" where
  "set_deadlines env ks t x = fold (\<lambda>k. fe_SetDeadline env k t) ks x"

definition control_list :: "'k ftpSession \<Rightarrow> 'k list" where
  "control_list s = (case fs_control s of None \<Rightarrow> [] | Some k \<Rightarrow> [k])"

definition session_begin :: "('k, 'x) fs_env \<Rightarrow> duration \<Rightarrow> 'k ftpSession \<Rightarrow> 'x \<Rightarrow> 'k ftpSession \<times> 'x" where
  "session_begin env d s x =
    (let deadline = fe_Now env x + d
     in (s\<lparr>fs_deadline := deadline\<rparr>,
         set_deadlines env (fs_data s) deadline (set_deadlines env (control_list s) deadline x)))"

definition session_end :: "('k, 'x) fs_env \<Rightarrow> 'k ftpSession \<Rightarrow> 'x \<Rightarrow> 'k ftpSession \<times> 'x" where
  "session_end env s x =
    (s\<lparr>fs_deadline := 0, fs_data := []\<rparr>, set_deadlines env (control_list s) 0 x)"

definition closeRaw :: "('k, 'x) fs_env \<Rightarrow> 'k ftpSession \<Rightarrow> 'x \<Rightarrow> 'x" where
  "closeRaw env s x = fold (fe_CloseSock env) (fs_data s) (fold (fe_CloseSock env) (control_list s) x)"

definition session_close :: "('k, 'x) fs_env \<Rightarrow> 'k ftpSession \<Rightarrow> 'x \<Rightarrow> 'x" where
  "session_close env s x =
    (if \<not> fs_ServerConn s then closeRaw env s x
     else (let (s, x) = session_begin env AliveTimeout s x;
               (_, x) = lib_Quit env (the (fs_control s)) (fs_deadline s) x
           in closeRaw env s x))"

text \<open>\<open>dialFTPSession\<close>; \<open>tls\<close> says whether there is a TLS configuration.\<close>

definition new_session :: "bool \<Rightarrow> 'k ftpSession" where
  "new_session tls = \<lparr>fs_ServerConn = False, fs_tls = tls, fs_control = None, fs_data = [], fs_deadline = 0\<rparr>"

definition dialFTPSession :: "('k, 'x) fs_env \<Rightarrow> string \<Rightarrow> string \<Rightarrow> string \<Rightarrow> bool \<Rightarrow> 'x \<Rightarrow>
    'k ftpSession res \<times> 'x" where
  "dialFTPSession env addr user pass tls x =
    (let (s, x) = session_begin env (DialTimeout + OperationTimeout) (new_session tls) x
     in case lib_Dial env (session_dial env) addr s x of
          (Some err, s, x) \<Rightarrow> (Inl err, closeRaw env s x)
        | (None, s, x) \<Rightarrow>
            (let s = s\<lparr>fs_ServerConn := True\<rparr>
             in case lib_Login env (the (fs_control s)) user pass (fs_deadline s) x of
                  (Some err, x) \<Rightarrow> (Inl err, snd (lib_Quit env (the (fs_control s)) (fs_deadline s) x))
                | (None, x) \<Rightarrow> (let (s, x) = session_end env s x in (Inr s, x))))"

section \<open>A session at work\<close>

text \<open>
  The client begins and ends operations, the library dials. \<open>se_handed\<close>: the connections
  \<open>dial\<close> has handed out, in order.
\<close>

datatype se_event = SBegin duration | SEnd | SDial string

record ('k, 'x) se_sys =
  se_sess :: "'k ftpSession"
  se_world :: 'x
  se_handed :: "'k netConn list"

fun se_next :: "('k, 'x) fs_env \<Rightarrow> se_event \<Rightarrow> ('k, 'x) se_sys \<Rightarrow> ('k, 'x) se_sys" where
  "se_next env (SBegin d) st =
     (let (s, x) = session_begin env d (se_sess st) (se_world st)
      in st\<lparr>se_sess := s, se_world := x\<rparr>)"
| "se_next env SEnd st =
     (let (s, x) = session_end env (se_sess st) (se_world st)
      in st\<lparr>se_sess := s, se_world := x\<rparr>)"
| "se_next env (SDial a) st =
     (case session_dial env a (se_sess st) (se_world st) of
        (Inl err, s, x) \<Rightarrow> st\<lparr>se_sess := s, se_world := x\<rparr>
      | (Inr n, s, x) \<Rightarrow> st\<lparr>se_sess := s, se_world := x, se_handed := se_handed st @ [n]\<rparr>)"

definition se_init :: "bool \<Rightarrow> 'x \<Rightarrow> ('k, 'x) se_sys" where
  "se_init tls x = \<lparr>se_sess = new_session tls, se_world = x, se_handed = []\<rparr>"

section \<open>What the sockets promise\<close>

text \<open>
  \<open>dl x k\<close>: the deadline of the socket \<open>k\<close>, \<open>used x\<close>: the sockets there have been. A new
  socket is none of them and has no deadline.
\<close>

definition sock_contract :: "('x \<Rightarrow> 'k \<Rightarrow> gotime) \<Rightarrow> ('x \<Rightarrow> 'k set) \<Rightarrow> ('k, 'x) fs_env \<Rightarrow> bool" where
  "sock_contract dl used env \<longleftrightarrow>
    (\<forall>a x. case fe_DialTCP env a x of
       (Inl _, x') \<Rightarrow> dl x' = dl x \<and> used x' = used x
     | (Inr k, x') \<Rightarrow> k \<notin> used x \<and> used x' = insert k (used x) \<and> dl x' = (dl x)(k := 0)) \<and>
    (\<forall>k t x. dl (fe_SetDeadline env k t x) = (dl x)(k := t) \<and> used (fe_SetDeadline env k t x) = used x)"

definition socks :: "'k ftpSession \<Rightarrow> 'k set" where
  "socks s = set (control_list s) \<union> set (fs_data s)"

text \<open>All the session's sockets have its deadline.\<close>

definition se_inv :: "('x \<Rightarrow> 'k \<Rightarrow> gotime) \<Rightarrow> ('x \<Rightarrow> 'k set) \<Rightarrow> 'k ftpSession \<Rightarrow> 'x \<Rightarrow> bool" where
  "se_inv dl used s x \<longleftrightarrow> socks s \<subseteq> used x \<and> (\<forall>k \<in> socks s. dl x k = fs_deadline s) \<and>
     (fs_control s = None \<longrightarrow> fs_data s = [])"

lemma set_deadlines_dl:
  assumes "sock_contract dl used env"
  shows "dl (set_deadlines env ks t x) = (\<lambda>k. if k \<in> set ks then t else dl x k)"
    "used (set_deadlines env ks t x) = used x"
proof -
  have "dl (set_deadlines env ks t x) = (\<lambda>k. if k \<in> set ks then t else dl x k) \<and>
      used (set_deadlines env ks t x) = used x"
  proof (induction ks arbitrary: x)
    case (Cons k ks)
    then show ?case
      using assms Cons.IH [of "fe_SetDeadline env k t x"]
      by (auto simp: set_deadlines_def sock_contract_def fun_eq_iff)
  qed (simp add: set_deadlines_def)
  then show "dl (set_deadlines env ks t x) = (\<lambda>k. if k \<in> set ks then t else dl x k)"
    "used (set_deadlines env ks t x) = used x" by simp_all
qed

lemma control_list_upd [simp]:
  "control_list (s\<lparr>fs_deadline := t\<rparr>) = control_list s" "control_list (s\<lparr>fs_data := ks\<rparr>) = control_list s"
  "control_list (s\<lparr>fs_deadline := t, fs_data := ks\<rparr>) = control_list s"
  by (simp_all add: control_list_def)

lemma socks_upd [simp]:
  "socks (s\<lparr>fs_deadline := t\<rparr>) = socks s"
  "socks (s\<lparr>fs_deadline := t, fs_data := []\<rparr>) = set (control_list s)"
  "socks (s\<lparr>fs_data := fs_data s @ [k]\<rparr>) = insert k (socks s)"
  "fs_control s = None \<Longrightarrow> socks (s\<lparr>fs_control := Some k\<rparr>) = insert k (socks s)"
  by (auto simp: socks_def control_list_def)

lemma session_begin_inv:
  "sock_contract dl used env \<Longrightarrow> se_inv dl used s x \<Longrightarrow> session_begin env d s x = (s', x') \<Longrightarrow>
    se_inv dl used s' x'"
  by (auto simp: session_begin_def Let_def se_inv_def set_deadlines_dl socks_def)

lemma session_end_inv:
  "sock_contract dl used env \<Longrightarrow> se_inv dl used s x \<Longrightarrow> session_end env s x = (s', x') \<Longrightarrow>
    se_inv dl used s' x'"
  by (auto simp: session_end_def se_inv_def set_deadlines_dl socks_def)

lemma session_dial_inv:
  assumes con: "sock_contract dl used env" and inv: "se_inv dl used s x"
    and run: "session_dial env a s x = (r, s', x')"
  shows "se_inv dl used s' x'"
proof -
  obtain q x1 where d: "fe_DialTCP env a x = (q, x1)" by fastforce
  note c = con [unfolded sock_contract_def, THEN conjunct1, rule_format, where a = a and x = x]
  have set1: "dl (fe_SetDeadline env k t y) = (dl y)(k := t)" "used (fe_SetDeadline env k t y) = used y" for k t y
    using con by (simp_all add: sock_contract_def)
  show ?thesis
  proof (cases q)
    case (Inl e)
    then show ?thesis using run inv c d by (simp add: session_dial_def se_inv_def)
  next
    case (Inr k)
    define x2 where "x2 = (if fs_deadline s \<noteq> 0 then fe_SetDeadline env k (fs_deadline s) x1 else x1)"
    have k: "k \<notin> used x" "used x2 = insert k (used x)" "dl x2 = (dl x)(k := fs_deadline s)"
      using c d Inr set1 by (auto simp: x2_def)
    have "x' = x2" "s' = (if fs_control s = None then s\<lparr>fs_control := Some k\<rparr> else s\<lparr>fs_data := fs_data s @ [k]\<rparr>)"
      using run d Inr by (auto simp: session_dial_def x2_def Let_def split: if_splits)
    then show ?thesis using inv k by (auto simp: se_inv_def)
  qed
qed

definition is_tls :: "'k netConn \<Rightarrow> bool" where
  "is_tls n = (case n of TlsConn _ \<Rightarrow> True | RawConn _ \<Rightarrow> False)"

text \<open>The connections handed out: the control connection first, then the data connections.\<close>

definition handed_ok :: "'k ftpSession \<Rightarrow> 'k netConn list \<Rightarrow> bool" where
  "handed_ok s ns \<longleftrightarrow> (fs_control s = None \<longrightarrow> ns = []) \<and> (fs_tls s \<longrightarrow> list_all is_tls (tl ns))"

lemma se_next_inv:
  assumes con: "sock_contract dl used env"
    and inv: "se_inv dl used (se_sess st) (se_world st)" "handed_ok (se_sess st) (se_handed st)"
  shows "se_inv dl used (se_sess (se_next env ev st)) (se_world (se_next env ev st)) \<and>
    handed_ok (se_sess (se_next env ev st)) (se_handed (se_next env ev st)) \<and>
    fs_tls (se_sess (se_next env ev st)) = fs_tls (se_sess st)"
proof (cases ev)
  case (SBegin d)
  obtain s x where r: "session_begin env d (se_sess st) (se_world st) = (s, x)" by fastforce
  then show ?thesis
    using session_begin_inv [OF con inv(1) r] inv(2) SBegin
    by (auto simp: handed_ok_def session_begin_def Let_def)
next
  case SEnd
  obtain s x where r: "session_end env (se_sess st) (se_world st) = (s, x)" by fastforce
  then show ?thesis
    using session_end_inv [OF con inv(1) r] inv(2) SEnd by (auto simp: handed_ok_def session_end_def)
next
  case (SDial a)
  obtain r s x where d: "session_dial env a (se_sess st) (se_world st) = (r, s, x)"
    by (metis prod.exhaust)
  have "fs_tls s = fs_tls (se_sess st) \<and>
      (case r of Inl _ \<Rightarrow> s = se_sess st | Inr n \<Rightarrow> fs_control s \<noteq> None \<and>
        (fs_control (se_sess st) \<noteq> None \<longrightarrow> fs_tls s \<longrightarrow> is_tls n))"
    using d by (auto simp: session_dial_def Let_def is_tls_def split: prod.splits sum.splits if_splits)
  then show ?thesis
    using session_dial_inv [OF con inv(1) d] inv(2) SDial d
    by (cases r; cases "se_handed st") (auto simp: handed_ok_def)
qed

lemma se_run_inv:
  assumes con: "sock_contract dl used env"
  shows "se_inv dl used (se_sess st) (se_world st) \<Longrightarrow> handed_ok (se_sess st) (se_handed st) \<Longrightarrow>
    case fold (se_next env) evs st of st' \<Rightarrow> se_inv dl used (se_sess st') (se_world st') \<and>
      handed_ok (se_sess st') (se_handed st') \<and> fs_tls (se_sess st') = fs_tls (se_sess st)"
proof (induction evs arbitrary: st)
  case (Cons ev evs)
  from se_next_inv [OF con Cons.prems, of ev] show ?case
    using Cons.IH [of "se_next env ev st"] by simp
qed simp

section \<open>The property\<close>

text \<open>
  C8: An FTP session never leaves a socket unguarded. After any sequence of operations that
  begin, extend or end, and of connections the library dials in between, the control
  connection and every data connection of the current operation have exactly the deadline
  of that operation (none when it is idle), whenever they were dialled; and of an FTPS
  session every connection after the control connection has been handed to the library as
  a TLS client, so no file contents cross the network in the clear.
\<close>

theorem ftp_session_guarded:
  assumes con: "sock_contract dl used env"
    and st: "st = fold (se_next env) evs (se_init tls x)"
  shows "(\<forall>k \<in> socks (se_sess st). dl (se_world st) k = fs_deadline (se_sess st)) \<and>
    (tls \<longrightarrow> list_all is_tls (tl (se_handed st)))"
proof -
  have "se_inv dl used (se_sess (se_init tls x)) (se_world (se_init tls x))"
    "handed_ok (se_sess (se_init tls x)) (se_handed (se_init tls x))"
    by (simp_all add: se_init_def se_inv_def socks_def control_list_def new_session_def handed_ok_def)
  from se_run_inv [OF con this, of evs] show ?thesis
    unfolding st [symmetric] se_inv_def handed_ok_def by (simp add: se_init_def new_session_def)
qed

text \<open>A run: sockets are numbered; a world is the number of the next and their deadlines.\<close>

definition num_env :: "(nat, nat \<times> (nat \<Rightarrow> gotime)) fs_env" where
  "num_env = \<lparr>fe_Now = (\<lambda>x. 1000), fe_DialTCP = (\<lambda>a x. (Inr (fst x), (Suc (fst x), (snd x)(fst x := 0)))),
     fe_SetDeadline = (\<lambda>k t x. (fst x, (snd x)(k := t))), fe_CloseSock = (\<lambda>k x. x),
     lib_Dial = (\<lambda>f a s x. (None, snd (f a s x))), lib_Login = (\<lambda>k u p t x. (None, x)),
     lib_Quit = (\<lambda>k t x. (None, x))\<rparr>"

lemma num_contract: "sock_contract snd (\<lambda>x. {..<fst x}) num_env"
  by (auto simp: sock_contract_def num_env_def)

theorem ftp_session_guarded_witness:
  "\<exists>st. st = fold (se_next num_env) [SBegin 10, SDial ''c'', SDial ''d'', SBegin 500] (se_init True (0, \<lambda>k. 0)) \<and>
     socks (se_sess st) = {0, 1} \<and> snd (se_world st) 1 = 1500 \<and> list_all is_tls (tl (se_handed st))"
proof -
  define st where "st = fold (se_next num_env) [SBegin 10, SDial ''c'', SDial ''d'', SBegin 500]
    (se_init True (0, \<lambda>k. 0))"
  have "socks (se_sess st) = {0, 1}" "fs_deadline (se_sess st) = 1500"
    by (simp_all add: st_def se_init_def new_session_def session_begin_def session_dial_def num_env_def
        Let_def socks_def control_list_def set_deadlines_def insert_commute)
  then show ?thesis
    using ftp_session_guarded [OF num_contract st_def] st_def by auto
qed

end
