(* ===== verification/Ftp_Times.thy ===== *)
theory Ftp_Times
  imports Mirror_Diff
begin

text \<open>
  The times in FTP listings (internal/transfer/ftp.go): their precision, and the offset of
  the server's clock from UTC, worked out from one file.
\<close>

text \<open>\<open>Duration.Round\<close> of package time: half away from zero, saturating.\<close>

definition go_rem :: "int \<Rightarrow> int \<Rightarrow> int" where
  "go_rem a b = a - go_div a b * b"

definition Duration_Round :: "duration \<Rightarrow> duration \<Rightarrow> duration" where
  "Duration_Round d m =
    (if m \<le> 0 then d
     else let r = go_rem d m in
       if d < 0 then
         (let r = - r in
          if r + r < m then d + r
          else (let d1 = int64 (d - m + r) in if d1 < d then d1 else minDuration))
       else if r + r < m then d - r
       else (let d1 = int64 (d + m - r) in if d1 > d then d1 else maxDuration))"

definition listTimePrecision :: "gotime \<Rightarrow> bool \<Rightarrow> gotime \<Rightarrow> duration" where
  "listTimePrecision t preciseTimes now =
    (if preciseTimes then 0
     else if time_Sub now t > 150 * (24 * Hour) then 24 * Hour
     else Minute)"

definition listOffsetFrom :: "gotime \<Rightarrow> gotime \<Rightarrow> duration option" where
  "listOffsetFrom listed mdtm =
    (let offset = Duration_Round (time_Sub listed mdtm) (15 * Minute)
     in if offset < - (14 * Hour) \<or> offset > 14 * Hour then None else Some offset)"

section \<open>Rounding\<close>

lemma go_rem_nonneg: "0 \<le> a \<Longrightarrow> 0 < b \<Longrightarrow> go_rem a b = a mod b"
  by (simp add: go_rem_def go_div_nonneg minus_div_mult_eq_mod)

lemma go_rem_neg: "a < 0 \<Longrightarrow> 0 < b \<Longrightarrow> go_rem a b = - ((- a) mod b)"
  by (simp add: go_rem_def go_div_def minus_div_mult_eq_mod [symmetric])

text \<open>A value less than half a step away from a multiple is rounded to it.\<close>

lemma Duration_Round_near:
  assumes m: "0 < m" and d: "d = m * k + e" "2 * \<bar>e\<bar> < m"
    and small: "int64_range (d - m)" "int64_range (d + m)"
  shows "Duration_Round d m = m * k"
proof (cases "d < 0")
  case True
  define r where "r = (- d) mod m"
  have rem: "go_rem d m = - r" using go_rem_neg [OF True m] by (simp add: r_def)
  have r: "0 \<le> r" "r < m" using m by (simp_all add: r_def)
  show ?thesis
  proof (cases "0 \<le> e")
    case True
    show ?thesis
    proof (cases "e = 0")
      case True
      then have "r = 0" using d by (simp add: r_def)
      moreover have "d = m * k" using d(1) True by simp
      ultimately show ?thesis using m \<open>d < 0\<close> unfolding Duration_Round_def rem Let_def by simp
    next
      case False
      have "- d = m * (- k - 1) + (m - e)" using d by (simp add: algebra_simps)
      then have "r = m - e" unfolding r_def using d(2) False True m by (intro int_mod_pos_eq) auto
      then have r': "\<not> r + r < m" "d - m + r = m * k" using d True by auto
      have "int64_range (m * k)"
        using small d False True m by (auto simp: int64_range_def)
      then have "int64 (d - m + r) = m * k" "m * k < d"
        unfolding r'(2) using d(1) False True by (simp_all add: int64_id)
      then show ?thesis using r'(1) m \<open>d < 0\<close> by (simp add: Duration_Round_def rem Let_def)
    qed
  next
    case False
    have "- d = m * (- k) + (- e)" using d by (simp add: algebra_simps)
    then have "r = - e" unfolding r_def by (rule int_mod_pos_eq) (use d(2) False in auto)
    moreover from this have "r + r < m" "d + r = m * k" using d False by auto
    ultimately show ?thesis using m \<open>d < 0\<close> by (simp add: Duration_Round_def rem Let_def)
  qed
next
  case False
  have rem: "go_rem d m = d mod m" using go_rem_nonneg [of d m] False m by simp
  show ?thesis
  proof (cases "0 \<le> e")
    case True
    then have "d mod m = e" using d m by (intro int_mod_pos_eq) auto
    then show ?thesis using rem m False d True by (simp add: Duration_Round_def Let_def)
  next
    case neg: False
    have "d = m * (k - 1) + (m + e)" using d by (simp add: algebra_simps)
    then have r: "d mod m = m + e" using d(2) neg m by (intro int_mod_pos_eq) auto
    have "int64_range (m * k)" using small d neg m by (auto simp: int64_range_def)
    then show ?thesis
      using rem r m False d neg by (simp add: Duration_Round_def Let_def int64_id)
  qed
qed

text \<open>The result is a multiple, at most half a step away, unless it saturates.\<close>

lemma int64_step:
  assumes "int64_range d"
  shows "0 \<le> x - d \<Longrightarrow> x - d < 2 ^ 63 \<Longrightarrow> d < int64 x \<Longrightarrow> int64 x = x"
    and "0 \<le> d - x \<Longrightarrow> d - x < 2 ^ 63 \<Longrightarrow> int64 x < d \<Longrightarrow> int64 x = x"
proof -
  show "int64 x = x" if "0 \<le> x - d" "x - d < 2 ^ 63" "d < int64 x"
  proof (cases "x < 2 ^ 63")
    case True
    then show ?thesis using assms that by (simp add: int64_id int64_range_def)
  next
    case False
    have "(x + 2 ^ 63) mod 2 ^ 64 = x - 2 ^ 63"
      using False assms that by (intro int_mod_pos_eq [where q = 1]) (auto simp: int64_range_def)
    then show ?thesis using that False assms by (simp add: int64_def int64_range_def)
  qed
  show "int64 x = x" if "0 \<le> d - x" "d - x < 2 ^ 63" "int64 x < d"
  proof (cases "- (2 ^ 63) \<le> x")
    case True
    then show ?thesis using assms that by (simp add: int64_id int64_range_def)
  next
    case False
    have "(x + 2 ^ 63) mod 2 ^ 64 = x + 2 ^ 63 + 2 ^ 64"
      using False assms that by (intro int_mod_pos_eq [where q = "- 1"]) (auto simp: int64_range_def)
    then show ?thesis using that False assms by (simp add: int64_def int64_range_def)
  qed
qed

lemma go_rem_step:
  assumes "0 < m"
  shows "\<exists>q. d = m * q + go_rem d m"
  by (rule exI [of _ "go_div d m"]) (simp add: go_rem_def)

lemma Duration_Round_sound:
  assumes m: "0 < m" "m < 2 ^ 63" and d: "int64_range d" "Duration_Round d m = res"
    and res: "res \<noteq> minDuration" "res \<noteq> maxDuration"
  shows "(\<exists>k. res = m * k) \<and> 2 * \<bar>d - res\<bar> \<le> m"
proof -
  obtain q where q: "d = m * q + go_rem d m" using go_rem_step [OF m(1)] by blast
  show ?thesis
  proof (cases "d < 0")
    case True
    define r where "r = - go_rem d m"
    have r: "0 \<le> r" "r < m" using go_rem_neg [OF True m(1)] m by (simp_all add: r_def)
    show ?thesis
    proof (cases "r + r < m")
      case True
      then have "res = m * q" using d(2) m \<open>d < 0\<close> q by (simp add: Duration_Round_def Let_def r_def)
      then show ?thesis using q r True by (auto simp: r_def)
    next
      case False
      then have eq: "res = int64 (d - m + r)" "int64 (d - m + r) < d"
        using d(2) m \<open>d < 0\<close> res(1) by (auto simp: Duration_Round_def Let_def r_def split: if_splits)
      then have "res = d - m + r" using int64_step(2) [OF d(1), of "d - m + r"] r m(2) by simp
      moreover from this have "\<exists>k. res = m * k"
        using q by (intro exI [of _ "q - 1"]) (simp add: r_def algebra_simps)
      ultimately show ?thesis using r False by simp
    qed
  next
    case False
    define r where "r = go_rem d m"
    have r: "0 \<le> r" "r < m" using go_rem_nonneg [of d m] False m by (simp_all add: r_def)
    show ?thesis
    proof (cases "r + r < m")
      case True
      then have "res = m * q" using d(2) m False q by (simp add: Duration_Round_def Let_def r_def)
      then show ?thesis using q r True by (auto simp: r_def)
    next
      case half: False
      then have eq: "res = int64 (d + m - r)" "d < int64 (d + m - r)"
        using d(2) m False res(2) by (auto simp: Duration_Round_def Let_def r_def split: if_splits)
      then have "res = d + m - r" using int64_step(1) [OF d(1), of "d + m - r"] r m(2) by simp
      moreover from this have "\<exists>k. res = m * k"
        using q by (intro exI [of _ "q + 1"]) (simp add: r_def algebra_simps)
      ultimately show ?thesis using r half by simp
    qed
  qed
qed

section \<open>The offset\<close>

lemma listOffsetFrom_near:
  assumes off: "off = 15 * Minute * k" "\<bar>off\<bar> \<le> 14 * Hour"
    and mdtm: "mdtm \<le> t" "t < mdtm + Second"
    and listed: "listed \<le> t + off" "t + off < listed + Minute"
  shows "listOffsetFrom listed mdtm = Some off"
proof -
  define e where "e = listed - mdtm - off"
  have e: "\<bar>e\<bar> \<le> Minute" using mdtm listed by (auto simp: e_def)
  have "time_Sub listed mdtm = 15 * Minute * k + e"
    using e off by (simp add: time_Sub_def e_def minDuration_def maxDuration_def)
  moreover have "Duration_Round (15 * Minute * k + e) (15 * Minute) = 15 * Minute * k"
    using e off by (intro Duration_Round_near [where e = e]) (auto simp: int64_range_def)
  moreover have "- (14 * Hour) \<le> 15 * Minute * k" "15 * Minute * k \<le> 14 * Hour" using off by linarith+
  ultimately show ?thesis using off(1) by (simp only: listOffsetFrom_def Let_def) simp
qed

lemma listOffsetFrom_sound:
  assumes "listOffsetFrom listed mdtm = Some off"
  shows "(\<exists>k. off = 15 * Minute * k) \<and> \<bar>off\<bar> \<le> 14 * Hour \<and>
    2 * \<bar>time_Sub listed mdtm - off\<bar> \<le> 15 * Minute"
proof -
  have off: "Duration_Round (time_Sub listed mdtm) (15 * Minute) = off" "\<bar>off\<bar> \<le> 14 * Hour"
    using assms by (auto simp: listOffsetFrom_def Let_def split: if_splits)
  have "int64_range (time_Sub listed mdtm)"
    by (auto simp: time_Sub_def int64_range_def minDuration_def maxDuration_def)
  then show ?thesis
    using Duration_Round_sound [OF _ _ _ off(1)] off(2)
    by (auto simp: minDuration_def maxDuration_def)
qed

end
