(* ===== verification/Ftp.thy ===== *)
theory Ftp
  imports Ftp_Session Ftp_Times Atomic
begin

text \<open>
  internal/transfer/ftp.go: the FTP client, its pool of sessions, and its metadata and
  directory operations. \<open>'k\<close> is a control connection, \<open>'r\<close> the reader of a download, \<open>'l\<close>
  an open local file, \<open>'t\<close> a temporary file, \<open>'x\<close> the world. A command of the library is
  given the control connection and the deadline it has at that time. As for SFTP, what
  other goroutines of the client do while this one waits for a session or dials is a list;
  when it is used up the operation has not returned.
\<close>

datatype EntryType = EntryTypeFile | EntryTypeFolder | EntryTypeLink

text \<open>The size is a uint64.\<close>

record Entry =
  en_Name :: string
  en_Type :: EntryType
  en_Size :: int
  en_Time :: gotime

type_synonym ('k, 'a, 'x) command = "'k \<Rightarrow> ('a, 'x) net_call"

record ('k, 'r, 'l, 't, 'x) ftp_env =
  fe_sess :: "('k, 'x) fs_env"
  fe_ReadFile :: "string \<Rightarrow> 'x \<Rightarrow> string res"
  fe_AppendCertsFromPEM :: "string \<Rightarrow> bool"
  fl_NoOp :: "('k, goerr option, 'x) command"
  fl_GetEntry :: "string \<Rightarrow> ('k, Entry res, 'x) command"
  fl_List :: "string \<Rightarrow> ('k, Entry list res, 'x) command"
  fl_FileSize :: "string \<Rightarrow> ('k, int res, 'x) command"
  fl_GetTime :: "string \<Rightarrow> ('k, gotime res, 'x) command"
  fl_IsTimePreciseInList :: "'k \<Rightarrow> bool"
  fl_IsGetTimeSupported :: "'k \<Rightarrow> bool"
  fl_IsSetTimeSupported :: "'k \<Rightarrow> bool"
  fl_SetTime :: "string \<Rightarrow> gotime \<Rightarrow> ('k, goerr option, 'x) command"
  fl_Stor :: "string \<Rightarrow> 'l \<Rightarrow> ('k, goerr option, 'x) command"
  fl_StorFrom :: "string \<Rightarrow> 'l \<Rightarrow> int \<Rightarrow> ('k, goerr option, 'x) command"
  fl_Delete :: "string \<Rightarrow> ('k, goerr option, 'x) command"
  fl_Rename :: "string \<Rightarrow> string \<Rightarrow> ('k, goerr option, 'x) command"
  fl_Retr :: "string \<Rightarrow> ('k, 'r res, 'x) command"
  fl_CloseResp :: "'r \<Rightarrow> (goerr option, 'x) net_call"
  fl_MakeDir :: "string \<Rightarrow> ('k, goerr option, 'x) command"
  fl_RemoveDir :: "string \<Rightarrow> ('k, goerr option, 'x) command"
  fl_CurrentDir :: "('k, string res, 'x) command"
  fl_ChangeDir :: "string \<Rightarrow> ('k, goerr option, 'x) command"
  fo_Open :: "string \<Rightarrow> 'x \<Rightarrow> 'l res \<times> 'x"
  fo_Stat :: "'l \<Rightarrow> 'x \<Rightarrow> FileInfo res"
  fo_Seek :: "'l \<Rightarrow> int \<Rightarrow> 'x \<Rightarrow> goerr option \<times> 'x"
  fo_Close :: "'l \<Rightarrow> 'x \<Rightarrow> 'x"
  fo_MkdirAll :: "string \<Rightarrow> 'x \<Rightarrow> goerr option \<times> 'x"
  fo_os :: "gotime \<Rightarrow> ('t, 'r, 'x) local_os"

text \<open>
  \<open>fc_conn\<close> is the session the operation holds, the local variable \<open>conn\<close>. A TLS
  configuration is only ever passed on: \<open>fc_tlsConfig\<close> says whether there is one.
\<close>

record ('k, 'x) ftp =
  fc_pool :: "'k ftpSession connPool option"
  fc_tlsConfig :: bool
  fc_listOffset :: duration
  fc_listOffsetKnown :: bool
  fc_listOffsetTries :: int
  fc_conn :: "'k ftpSession"
  fc_out :: 'x

type_synonym ('k, 'x) ftp_others = "(('k, 'x) ftp \<Rightarrow> ('k, 'x) ftp) list"

definition control :: "'k ftpSession \<Rightarrow> 'k" where
  "control s = the (fs_control s)"

definition cmd :: "('k, 'a, 'x) command \<Rightarrow> ('k, 'x) ftp \<Rightarrow> 'a \<times> ('k, 'x) ftp" where
  "cmd f c =
    (let (a, x) = f (control (fc_conn c)) (fs_deadline (fc_conn c)) (fc_out c) in (a, c\<lparr>fc_out := x\<rparr>))"

definition on_disk :: "('x \<Rightarrow> 'a \<times> 'x) \<Rightarrow> ('k, 'x) ftp \<Rightarrow> 'a \<times> ('k, 'x) ftp" where
  "on_disk f c = (let (a, x) = f (fc_out c) in (a, c\<lparr>fc_out := x\<rparr>))"

definition conn_begin :: "('k, 'r, 'l, 't, 'x) ftp_env \<Rightarrow> duration \<Rightarrow> ('k, 'x) ftp \<Rightarrow> ('k, 'x) ftp" where
  "conn_begin env d c =
    (let (s, x) = session_begin (fe_sess env) d (fc_conn c) (fc_out c) in c\<lparr>fc_conn := s, fc_out := x\<rparr>)"

definition conn_end :: "('k, 'r, 'l, 't, 'x) ftp_env \<Rightarrow> ('k, 'x) ftp \<Rightarrow> ('k, 'x) ftp" where
  "conn_end env c =
    (let (s, x) = session_end (fe_sess env) (fc_conn c) (fc_out c) in c\<lparr>fc_conn := s, fc_out := x\<rparr>)"

section \<open>Sessions\<close>

text \<open>\<open>ftpTLSConfig\<close>: only its errors depend on more than the profile.\<close>

definition ftpTLSConfig :: "('k, 'r, 'l, 't, 'x) ftp_env \<Rightarrow> Profile \<Rightarrow> 'x \<Rightarrow> goerr option" where
  "ftpTLSConfig env profile x =
    (if p_TLSCACert profile \<noteq> '''' then
       (case fe_ReadFile env (p_TLSCACert profile) x of
          Inl err \<Rightarrow> Some (errorf_w ''cannot read tlsCACert'' err)
        | Inr pem \<Rightarrow>
            if \<not> fe_AppendCertsFromPEM env pem
            then Some (ErrorString (''tlsCACert '' @ p_TLSCACert profile @ '' contains no PEM certificates''))
            else None)
     else None)"

definition ftp_dial :: "('k, 'r, 'l, 't, 'x) ftp_env \<Rightarrow> Profile \<Rightarrow> ('k, 'x) ftp \<Rightarrow>
    'k ftpSession res \<times> ('k, 'x) ftp" where
  "ftp_dial env profile c =
    on_disk (dialFTPSession (fe_sess env) (profile_addr profile) (p_Username profile)
       (p_Password profile) (fc_tlsConfig c)) c"

definition close_session :: "('k, 'r, 'l, 't, 'x) ftp_env \<Rightarrow> 'k ftpSession \<Rightarrow> ('k, 'x) ftp \<Rightarrow> ('k, 'x) ftp" where
  "close_session env s c = c\<lparr>fc_out := session_close (fe_sess env) s (fc_out c)\<rparr>"

definition ftp_Close :: "('k, 'r, 'l, 't, 'x) ftp_env \<Rightarrow> ('k, 'x) ftp \<Rightarrow> goerr option \<times> ('k, 'x) ftp" where
  "ftp_Close env c =
    (case fc_pool c of
       None \<Rightarrow> (None, c)
     | Some p \<Rightarrow> (None, (fold (close_session env) (fst (closeAll p)) c)\<lparr>fc_pool := None\<rparr>))"

definition ftp_Connect :: "('k, 'r, 'l, 't, 'x) ftp_env \<Rightarrow> Profile \<Rightarrow> ('k, 'x) ftp \<Rightarrow>
    goerr option \<times> ('k, 'x) ftp" where
  "ftp_Connect env profile c =
    (let c = (if fc_pool c \<noteq> None then snd (ftp_Close env c) else c);
         c = c\<lparr>fc_tlsConfig := False\<rparr>;
         ftps = (p_Protocol profile = ''ftps'')
     in case (if ftps then ftpTLSConfig env profile (fc_out c) else None) of
          Some err \<Rightarrow> (wrapError ''connect'' (Some err), c)
        | None \<Rightarrow>
            (case ftp_dial env profile (c\<lparr>fc_tlsConfig := ftps\<rparr>) of
               (Inl err, c) \<Rightarrow> (wrapError ''connect'' (Some err), c)
             | (Inr conn, c) \<Rightarrow>
                 (None, c\<lparr>fc_pool := Some (seed conn (newConnPool (max (p_FTPConnections profile) 1))),
                          fc_listOffset := 0, fc_listOffsetKnown := False, fc_listOffsetTries := 0\<rparr>)))"

text \<open>\<open>c.pool.acquire()\<close>: the rounds of \<open>Conn_Pool\<close>, with \<open>c.dial\<close>.\<close>

fun ftp_acquire :: "('k, 'r, 'l, 't, 'x) ftp_env \<Rightarrow> Profile \<Rightarrow> ('k, 'x) ftp_others \<Rightarrow> bool \<Rightarrow>
    ('k, 'x) ftp \<Rightarrow> ('k ftpSession res \<times> ('k, 'x) ftp) option"
and ftp_round :: "('k, 'r, 'l, 't, 'x) ftp_env \<Rightarrow> Profile \<Rightarrow> ('k, 'x) ftp_others \<Rightarrow> bool \<Rightarrow>
    'k ftpSession acq \<times> 'k ftpSession connPool \<Rightarrow> ('k, 'x) ftp \<Rightarrow>
    ('k ftpSession res \<times> ('k, 'x) ftp) option" where
  "ftp_acquire env pr gs waited c = ftp_round env pr gs waited (acquire_try waited (the (fc_pool c))) c"
| "ftp_round env pr gs waited (Got s, p) c = Some (Inr s, c\<lparr>fc_pool := Some p\<rparr>)"
| "ftp_round env pr gs waited (AcqFail e, p) c = Some (Inl e, c\<lparr>fc_pool := Some p\<rparr>)"
| "ftp_round env pr [] waited (StartDial, p) c = None"
| "ftp_round env pr (g # gs) waited (StartDial, p) c =
     (let (r, c) = ftp_dial env pr (c\<lparr>fc_pool := Some p\<rparr>); c = g c
      in case dial_done r (the (fc_pool c)) of
           (DGot s, p) \<Rightarrow> Some (Inr s, c\<lparr>fc_pool := Some p\<rparr>)
         | (DLate s, p) \<Rightarrow> Some (Inl (Sentinel errPoolClosed), close_session env s (c\<lparr>fc_pool := Some p\<rparr>))
         | (DFail e, p) \<Rightarrow> Some (Inl e, c\<lparr>fc_pool := Some p\<rparr>)
         | (DRetry _, p) \<Rightarrow> ftp_acquire env pr gs waited (c\<lparr>fc_pool := Some p\<rparr>))"
| "ftp_round env pr [] waited (WaitCond, p) c = None"
| "ftp_round env pr (g # gs) waited (WaitCond, p) c =
     ftp_acquire env pr gs True (g (c\<lparr>fc_pool := Some p\<rparr>))"

text \<open>\<open>c.pool.release(conn, broken)\<close>\<close>

definition put_back :: "('k, 'r, 'l, 't, 'x) ftp_env \<Rightarrow> bool \<Rightarrow> ('k, 'x) ftp \<Rightarrow> ('k, 'x) ftp" where
  "put_back env broken c =
    (case release (fc_conn c) broken (the (fc_pool c)) of
       (closed, p) \<Rightarrow>
         (let c = c\<lparr>fc_pool := Some p\<rparr> in if closed then close_session env (fc_conn c) c else c))"

text \<open>The error of a Go function that returns a value and an error.\<close>

definition err_of :: "'a res \<Rightarrow> goerr option" where
  "err_of r = (case r of Inl e \<Rightarrow> Some e | Inr _ \<Rightarrow> None)"

definition withConn :: "('k, 'r, 'l, 't, 'x) ftp_env \<Rightarrow> Profile \<Rightarrow> ('k, 'x) ftp_others \<Rightarrow> string \<Rightarrow>
    duration \<Rightarrow> (('k, 'x) ftp \<Rightarrow> 'a res \<times> ('k, 'x) ftp) \<Rightarrow> ('k, 'x) ftp \<Rightarrow>
    ('a res \<times> ('k, 'x) ftp) option" where
  "withConn env pr gs op timeout fn c =
    (if fc_pool c = None then Some (Inl (wrap_err op (Sentinel errPoolClosed)), c)
     else (case ftp_acquire env pr gs False c of
             None \<Rightarrow> None
           | Some (Inl err, c) \<Rightarrow> Some (Inl (wrap_err op err), c)
           | Some (Inr conn, c) \<Rightarrow>
               (let c = conn_begin env timeout (c\<lparr>fc_conn := conn\<rparr>);
                    (r, c) = fn c;
                    c = conn_end env c
                in Some (r, put_back env (sessionBroken (err_of r)) c))))"

definition ftp_IsAlive :: "('k, 'r, 'l, 't, 'x) ftp_env \<Rightarrow> ('k, 'x) ftp \<Rightarrow> bool \<times> ('k, 'x) ftp" where
  "ftp_IsAlive env c =
    (case fc_pool c of
       None \<Rightarrow> (False, c)
     | Some p \<Rightarrow>
         (case tryAcquireIdle p of
            ((None, busy), p) \<Rightarrow> (busy, c\<lparr>fc_pool := Some p\<rparr>)
          | ((Some conn, _), p) \<Rightarrow>
              (let c = conn_begin env AliveTimeout (c\<lparr>fc_pool := Some p, fc_conn := conn\<rparr>);
                   (err, c) = cmd (fl_NoOp env) c;
                   c = conn_end env c
               in (err = None, put_back env (err \<noteq> None) c))))"

definition ftp_SupportsConcurrentRequests :: "Profile \<Rightarrow> bool" where
  "ftp_SupportsConcurrentRequests profile \<longleftrightarrow> p_FTPConnections profile > 1"

section \<open>Listings\<close>

definition now_of :: "('k, 'r, 'l, 't, 'x) ftp_env \<Rightarrow> ('k, 'x) ftp \<Rightarrow> gotime" where
  "now_of env c = fe_Now (fe_sess env) (fc_out c)"

definition toRemote :: "('k, 'r, 'l, 't, 'x) ftp_env \<Rightarrow> ('k, 'x) ftp \<Rightarrow> Entry \<Rightarrow> RemoteFileInfo" where
  "toRemote env c entry =
    (let precise = fl_IsTimePreciseInList env (control (fc_conn c));
         mtime = (if \<not> precise then en_Time entry - fc_listOffset c else en_Time entry)
     in \<lparr>ri_Name = en_Name entry, ri_Path = '''', ri_Size = int64 (en_Size entry), ri_ModTime = mtime,
         ri_IsDir = (en_Type entry = EntryTypeFolder), ri_Mode = (KRegular, 0),
         ri_ModTimePrecision = listTimePrecision mtime precise (now_of env c)\<rparr>)"

definition maxListOffsetTries :: int where "maxListOffsetTries = 3"

definition detectListOffset :: "('k, 'r, 'l, 't, 'x) ftp_env \<Rightarrow> string \<Rightarrow> Entry \<Rightarrow> ('k, 'x) ftp \<Rightarrow>
    bool \<times> ('k, 'x) ftp" where
  "detectListOffset env remotePath entry c =
    (if fc_listOffsetKnown c then (True, c)
     else if fl_IsTimePreciseInList env (control (fc_conn c)) \<or>
             \<not> fl_IsGetTimeSupported env (control (fc_conn c))
       then (True, c\<lparr>fc_listOffsetKnown := True\<rparr>)
     else if en_Type entry \<noteq> EntryTypeFile \<or> fc_listOffsetTries c \<ge> maxListOffsetTries \<or>
             listTimePrecision (en_Time entry) False (now_of env c + 14 * Hour) \<noteq> Minute
       then (False, c)
     else
       (case cmd (fl_GetTime env remotePath) (c\<lparr>fc_listOffsetTries := fc_listOffsetTries c + 1\<rparr>) of
          (Inl err, c) \<Rightarrow> (False, c)
        | (Inr mdtm, c) \<Rightarrow>
            (case listOffsetFrom (en_Time entry) mdtm of
               None \<Rightarrow> (False, c)
             | Some offset \<Rightarrow> (True, c\<lparr>fc_listOffset := offset, fc_listOffsetKnown := True\<rparr>))))"

definition ftp_Stat :: "string \<Rightarrow> ('k, 'r, 'l, 't, 'x) ftp_env \<Rightarrow> Profile \<Rightarrow> ('k, 'x) ftp_others \<Rightarrow>
    ('k, 'x) ftp \<Rightarrow> (RemoteFileInfo res \<times> ('k, 'x) ftp) option" where
  "ftp_Stat remotePath env pr gs =
    withConn env pr gs ''stat'' OperationTimeout (\<lambda>c.
      case cmd (fl_GetEntry env remotePath) c of
        (Inl err, c) \<Rightarrow> (Inl (wrap_err ''stat'' err), c)
      | (Inr entry, c) \<Rightarrow>
          (let c = snd (detectListOffset env remotePath entry c) in (Inr (toRemote env c entry), c)))"

text \<open>The two loops of \<open>ReadDir\<close>.\<close>

fun detect_loop :: "('k, 'r, 'l, 't, 'x) ftp_env \<Rightarrow> string \<Rightarrow> Entry list \<Rightarrow> ('k, 'x) ftp \<Rightarrow> ('k, 'x) ftp" where
  "detect_loop env remotePath [] c = c"
| "detect_loop env remotePath (entry # entries) c =
    (case detectListOffset env (RemotePath [remotePath, en_Name entry]) entry c of
       (True, c) \<Rightarrow> c
     | (False, c) \<Rightarrow> detect_loop env remotePath entries c)"

definition listed_entry :: "Entry \<Rightarrow> bool" where
  "listed_entry entry \<longleftrightarrow> en_Type entry \<noteq> EntryTypeLink \<and> isSafeEntryName (en_Name entry)"

definition ftp_ReadDir :: "string \<Rightarrow> ('k, 'r, 'l, 't, 'x) ftp_env \<Rightarrow> Profile \<Rightarrow> ('k, 'x) ftp_others \<Rightarrow>
    ('k, 'x) ftp \<Rightarrow> (RemoteFileInfo list res \<times> ('k, 'x) ftp) option" where
  "ftp_ReadDir remotePath env pr gs =
    withConn env pr gs ''readdir'' ReadDirTimeout (\<lambda>c.
      case cmd (fl_List env remotePath) c of
        (Inl err, c) \<Rightarrow> (Inl (wrap_err ''readdir'' err), c)
      | (Inr entries, c) \<Rightarrow>
          (let c = detect_loop env remotePath entries c
           in (Inr (map (toRemote env c) (filter listed_entry entries)), c)))"

end
