(* ===== verification/Ftp_Transfer.thy ===== *)
theory Ftp_Transfer
  imports Ftp
begin

text \<open>
  internal/transfer/ftp.go: directories, uploads and downloads of the FTP client.
\<close>

definition unit_res :: "goerr option \<Rightarrow> unit res" where
  "unit_res err = (case err of None \<Rightarrow> Inr () | Some e \<Rightarrow> Inl e)"

text \<open>\<open>withConn\<close> around a function that returns only an error.\<close>

definition withConn_err :: "('k, 'r, 'l, 't, 'x) ftp_env \<Rightarrow> Profile \<Rightarrow> ('k, 'x) ftp_others \<Rightarrow> string \<Rightarrow>
    duration \<Rightarrow> (('k, 'x) ftp \<Rightarrow> goerr option \<times> ('k, 'x) ftp) \<Rightarrow> ('k, 'x) ftp \<Rightarrow>
    (goerr option \<times> ('k, 'x) ftp) option" where
  "withConn_err env pr gs op timeout fn c =
    map_option (map_prod err_of id)
      (withConn env pr gs op timeout (\<lambda>c. let (err, c) = fn c in (unit_res err, c)) c)"

section \<open>Directories\<close>

text \<open>The operations that are one command.\<close>

definition one_command :: "string \<Rightarrow> ('k, goerr option, 'x) command \<Rightarrow> ('k, 'r, 'l, 't, 'x) ftp_env \<Rightarrow>
    Profile \<Rightarrow> ('k, 'x) ftp_others \<Rightarrow> ('k, 'x) ftp \<Rightarrow> (goerr option \<times> ('k, 'x) ftp) option" where
  "one_command op f env pr gs =
    withConn_err env pr gs op OperationTimeout (\<lambda>c. let (err, c) = cmd f c in (wrapError op err, c))"

definition ftp_Mkdir where
  "ftp_Mkdir remotePath env pr gs = one_command ''mkdir'' (fl_MakeDir env remotePath) env pr gs"

definition ftp_Remove where
  "ftp_Remove remotePath env pr gs = one_command ''remove'' (fl_Delete env remotePath) env pr gs"

definition ftp_RemoveDir where
  "ftp_RemoveDir remotePath env pr gs = one_command ''rmdir'' (fl_RemoveDir env remotePath) env pr gs"

definition ftp_Chmod :: "string \<Rightarrow> nat \<Rightarrow> goerr option" where
  "ftp_Chmod remotePath mode = None"

definition restore_error :: "string \<Rightarrow> goerr \<Rightarrow> goerr" where
  "restore_error current restoreErr =
    errorf_w (''failed to restore working directory after checking '' @ current)
      (Wrapped (error_msg (Sentinel errBrokenSession) @ [CHR 0x0A] @ error_msg restoreErr)
         [Sentinel errBrokenSession, restoreErr])"

text \<open>After a refused \<open>MakeDir\<close>: is the directory there? The error that ends \<open>MkdirAll\<close>, or none.\<close>

definition check_dir :: "('k, 'r, 'l, 't, 'x) ftp_env \<Rightarrow> string \<Rightarrow> goerr \<Rightarrow> ('k, 'x) ftp \<Rightarrow>
    goerr option \<times> ('k, 'x) ftp" where
  "check_dir env current err c =
    (case cmd (fl_CurrentDir env) c of
       (Inl _, c) \<Rightarrow> (wrapError ''mkdir'' (Some err), c)
     | (Inr cwd, c) \<Rightarrow>
         (let (cdErr, c) = cmd (fl_ChangeDir env current) c
          in case cmd (fl_ChangeDir env cwd) c of
               (Some restoreErr, c) \<Rightarrow> (wrapError ''mkdir'' (Some (restore_error current restoreErr)), c)
             | (None, c) \<Rightarrow>
                 (if cdErr = None then None else wrapError ''mkdir'' (Some err), c)))"

fun ftp_components :: "('k, 'r, 'l, 't, 'x) ftp_env \<Rightarrow> string \<Rightarrow> string list \<Rightarrow> ('k, 'x) ftp \<Rightarrow>
    goerr option \<times> ('k, 'x) ftp" where
  "ftp_components env current [] c = (None, c)"
| "ftp_components env current (component # components) c =
    (if component = '''' then ftp_components env ''/'' components c
     else
       (let current = (if current = ''/'' then ''/'' @ component else current @ ''/'' @ component)
        in case cmd (fl_MakeDir env current) (conn_begin env OperationTimeout c) of
             (None, c) \<Rightarrow> ftp_components env current components c
           | (Some err, c) \<Rightarrow>
               if sessionBroken (Some err) then (wrapError ''mkdir'' (Some err), c)
               else (case check_dir env current err c of
                       (Some e, c) \<Rightarrow> (Some e, c)
                     | (None, c) \<Rightarrow> ftp_components env current components c)))"

definition mkdirall_body :: "('k, 'r, 'l, 't, 'x) ftp_env \<Rightarrow> string \<Rightarrow> ('k, 'x) ftp \<Rightarrow>
    goerr option \<times> ('k, 'x) ftp" where
  "mkdirall_body env remotePath c =
    (if fl_IsTimePreciseInList env (control (fc_conn c)) then
       (case cmd (fl_GetEntry env remotePath) c of
          (Inr entry, c) \<Rightarrow>
            if en_Type entry = EntryTypeFolder then (None, c)
            else ftp_components env '''' (Split CHR ''/'' remotePath) c
        | (Inl err, c) \<Rightarrow>
            if sessionBroken (Some err) then (wrapError ''mkdir'' (Some err), c)
            else ftp_components env '''' (Split CHR ''/'' remotePath) c)
     else ftp_components env '''' (Split CHR ''/'' remotePath) c)"

definition ftp_MkdirAll where
  "ftp_MkdirAll remotePath env pr gs =
    withConn_err env pr gs ''mkdir'' OperationTimeout (mkdirall_body env remotePath)"

section \<open>Upload\<close>

definition ftpReplace :: "('k, 'r, 'l, 't, 'x) ftp_env \<Rightarrow> string \<Rightarrow> string \<Rightarrow> ('k, 'x) ftp \<Rightarrow>
    goerr option \<times> ('k, 'x) ftp" where
  "ftpReplace env src dst c =
    (case cmd (fl_Rename env src dst) c of
       (None, c) \<Rightarrow> (None, c)
     | (Some err, c) \<Rightarrow>
         if sessionBroken (Some err) then (Some err, c)
         else cmd (fl_Rename env src dst) (snd (cmd (fl_Delete env dst) c)))"

definition ftp_resume_offset :: "('k, 'r, 'l, 't, 'x) ftp_env \<Rightarrow> string \<Rightarrow> FileInfo \<Rightarrow> bool \<Rightarrow>
    ('k, 'x) ftp \<Rightarrow> int \<times> ('k, 'x) ftp" where
  "ftp_resume_offset env partial localInfo resume c =
    (if resume then
       (case cmd (fl_FileSize env partial) c of
          (Inl _, c) \<Rightarrow> (0, c)
        | (Inr sz, c) \<Rightarrow>
            (case cmd (fl_GetTime env partial) c of
               (Inl _, c) \<Rightarrow> (0, c)
             | (Inr mtime, c) \<Rightarrow> (if canResumePartial sz mtime localInfo then sz else 0, c)))
     else (0, c))"

text \<open>Position the local file, then store: from an offset, or from the start.\<close>

definition store_from :: "('k, 'r, 'l, 't, 'x) ftp_env \<Rightarrow> string \<Rightarrow> 'l \<Rightarrow> int \<Rightarrow> ('k, 'x) ftp \<Rightarrow>
    goerr option \<times> ('k, 'x) ftp" where
  "store_from env partial l offset c =
    (case on_disk (fo_Seek env l offset) c of
       (Some e, c) \<Rightarrow> (Some e, c)
     | (None, c) \<Rightarrow> cmd (fl_StorFrom env partial l offset) c)"

definition store_whole :: "('k, 'r, 'l, 't, 'x) ftp_env \<Rightarrow> string \<Rightarrow> 'l \<Rightarrow> ('k, 'x) ftp \<Rightarrow>
    goerr option \<times> ('k, 'x) ftp" where
  "store_whole env partial l c =
    (case on_disk (fo_Seek env l 0) c of
       (Some e, c) \<Rightarrow> (Some e, c)
     | (None, c) \<Rightarrow> cmd (fl_Stor env partial l) c)"

text \<open>From the point where the data is in the partial: its time, and the swap.\<close>

definition finish_upload :: "('k, 'r, 'l, 't, 'x) ftp_env \<Rightarrow> string \<Rightarrow> string \<Rightarrow> FileInfo \<Rightarrow>
    ('k, 'x) ftp \<Rightarrow> goerr option \<times> ('k, 'x) ftp" where
  "finish_upload env op remotePath localInfo c =
    (let partial = remotePartialPath remotePath;
         c = (if fl_IsSetTimeSupported env (control (fc_conn c))
              then snd (cmd (fl_SetTime env partial (fi_ModTime localInfo)) c) else c)
     in case ftpReplace env partial remotePath c of
          (None, c) \<Rightarrow> (None, c)
        | (Some err, c) \<Rightarrow>
            (let c = (if \<not> sessionBroken (Some err) then snd (cmd (fl_Delete env partial) c) else c)
             in (wrapError op (Some err), c)))"

text \<open>The store from zero, also after a failed resume.\<close>

definition upload_whole :: "('k, 'r, 'l, 't, 'x) ftp_env \<Rightarrow> string \<Rightarrow> 'l \<Rightarrow> FileInfo \<Rightarrow> string \<Rightarrow> bool \<Rightarrow>
    ('k, 'x) ftp \<Rightarrow> goerr option \<times> ('k, 'x) ftp" where
  "upload_whole env op l localInfo remotePath resume c =
    (let partial = remotePartialPath remotePath in
     case store_whole env partial l c of
       (None, c) \<Rightarrow> finish_upload env op remotePath localInfo c
     | (Some err, c) \<Rightarrow>
         (let c = (if \<not> resume \<and> \<not> sessionBroken (Some err) then snd (cmd (fl_Delete env partial) c) else c)
          in (wrapError op (Some err), c)))"

definition upload_body :: "('k, 'r, 'l, 't, 'x) ftp_env \<Rightarrow> string \<Rightarrow> 'l \<Rightarrow> FileInfo \<Rightarrow> string \<Rightarrow> bool \<Rightarrow>
    ('k, 'x) ftp \<Rightarrow> goerr option \<times> ('k, 'x) ftp" where
  "upload_body env op l localInfo remotePath resume c =
    (let partial = remotePartialPath remotePath;
         (offset, c) = ftp_resume_offset env partial localInfo resume c
     in if offset > 0 then
          (case store_from env partial l offset c of
             (None, c) \<Rightarrow> finish_upload env op remotePath localInfo c
           | (Some err, c) \<Rightarrow>
               if sessionBroken (Some err) then (wrapError op (Some err), c)
               else upload_whole env op l localInfo remotePath resume c)
        else upload_whole env op l localInfo remotePath resume c)"

definition ftp_upload_op :: "bool \<Rightarrow> string" where
  "ftp_upload_op resume = (if resume then ''resume'' else ''upload'')"

definition ftp_upload :: "('k, 'r, 'l, 't, 'x) ftp_env \<Rightarrow> Profile \<Rightarrow> ('k, 'x) ftp_others \<Rightarrow>
    string \<Rightarrow> string \<Rightarrow> bool \<Rightarrow> ('k, 'x) ftp \<Rightarrow> (goerr option \<times> ('k, 'x) ftp) option" where
  "ftp_upload env pr gs localPath remotePath resume c =
    (let op = ftp_upload_op resume in
     case on_disk (fo_Open env localPath) c of
       (Inl err, c) \<Rightarrow> Some (wrapError op (Some err), c)
     | (Inr l, c) \<Rightarrow>
         (case fo_Stat env l (fc_out c) of
            Inl err \<Rightarrow> Some (wrapError op (Some err), c\<lparr>fc_out := fo_Close env l (fc_out c)\<rparr>)
          | Inr localInfo \<Rightarrow>
              (case withConn_err env pr gs op (TransferTimeout (fi_Size localInfo))
                      (upload_body env op l localInfo remotePath resume) c of
                 None \<Rightarrow> None
               | Some (err, c) \<Rightarrow> Some (err, c\<lparr>fc_out := fo_Close env l (fc_out c)\<rparr>))))"

definition ftp_Upload where
  "ftp_Upload env pr gs localPath remotePath = ftp_upload env pr gs localPath remotePath False"

definition ftp_UploadResume where
  "ftp_UploadResume env pr gs localPath remotePath = ftp_upload env pr gs localPath remotePath True"

section \<open>Download\<close>

text \<open>The time budget of a transfer and the file's time: known, looked up, or neither.\<close>

definition download_budget :: "('k, 'r, 'l, 't, 'x) ftp_env \<Rightarrow> string \<Rightarrow> (int \<times> gotime) option \<Rightarrow>
    ('k, 'x) ftp \<Rightarrow> gotime \<times> ('k, 'x) ftp" where
  "download_budget env remotePath known c =
    (case known of
       Some (sz, mtime) \<Rightarrow> (mtime, conn_begin env (TransferTimeout sz) c)
     | None \<Rightarrow>
         (case cmd (fl_GetEntry env remotePath) c of
            (Inr entry, c) \<Rightarrow>
              (let c = snd (detectListOffset env remotePath entry c)
               in (ri_ModTime (toRemote env c entry),
                   conn_begin env (TransferTimeout (int64 (en_Size entry))) c))
          | (Inl _, c) \<Rightarrow>
              (case cmd (fl_FileSize env remotePath) c of
                 (Inr sz, c) \<Rightarrow> (0, conn_begin env (TransferTimeout sz) c)
               | (Inl _, c) \<Rightarrow> (0, conn_begin env unknownSizeTransferTimeout c))))"

definition download_body :: "('k, 'r, 'l, 't, 'x) ftp_env \<Rightarrow> string \<Rightarrow> string \<Rightarrow> (int \<times> gotime) option \<Rightarrow>
    ('k, 'x) ftp \<Rightarrow> goerr option \<times> ('k, 'x) ftp" where
  "download_body env remotePath localPath known c =
    (let (mtime, c) = download_budget env remotePath known c in
     case cmd (fl_Retr env remotePath) c of
       (Inl err, c) \<Rightarrow> (wrapError ''download'' (Some err), c)
     | (Inr resp, c) \<Rightarrow>
         (let ((n, err), c) = cmd (\<lambda>k d. writeLocalAtomic (fo_os env d) localPath resp
                                           (Some (fl_CloseResp env resp d)) mtime) c;
              (_, c) = cmd (\<lambda>k. fl_CloseResp env resp) c
          in (wrapError ''download'' err, c)))"

definition ftp_download :: "('k, 'r, 'l, 't, 'x) ftp_env \<Rightarrow> Profile \<Rightarrow> ('k, 'x) ftp_others \<Rightarrow>
    string \<Rightarrow> string \<Rightarrow> (int \<times> gotime) option \<Rightarrow> ('k, 'x) ftp \<Rightarrow> (goerr option \<times> ('k, 'x) ftp) option" where
  "ftp_download env pr gs remotePath localPath known c =
    (case on_disk (fo_MkdirAll env (path_Dir localPath)) c of
       (Some err, c) \<Rightarrow> Some (wrapError ''download'' (Some err), c)
     | (None, c) \<Rightarrow>
         withConn_err env pr gs ''download'' OperationTimeout (download_body env remotePath localPath known) c)"

definition ftp_Download where
  "ftp_Download env pr gs remotePath localPath = ftp_download env pr gs remotePath localPath None"

definition ftp_DownloadKnown where
  "ftp_DownloadKnown env pr gs remotePath localPath sz mtime =
    ftp_download env pr gs remotePath localPath (Some (sz, mtime))"

end
