(* ===== verification/Ftp_Listing.thy ===== *)
theory Ftp_Listing
  imports Ftp_Transfer
begin

text \<open>
  What the FTP client makes of the times in a listing: the offset it works out is the
  server's, and files that have not changed compare as in sync.
\<close>

text \<open>
  How a server lists the time \<open>t\<close> of a file: as local wall clock, \<open>off\<close> ahead of UTC,
  without the seconds; or, for a file older than six months (182 days), the day only.
\<close>

definition lists_minute :: "duration \<Rightarrow> gotime \<Rightarrow> gotime \<Rightarrow> bool" where
  "lists_minute off t listed \<longleftrightarrow> listed \<le> t + off \<and> t + off < listed + Minute"

definition lists_day :: "duration \<Rightarrow> gotime \<Rightarrow> gotime \<Rightarrow> bool" where
  "lists_day off t listed \<longleftrightarrow> listed \<le> t + off \<and> t + off < listed + 24 * Hour"

text \<open>An offset there is on earth, and MDTM, which says UTC to the second.\<close>

definition real_offset :: "duration \<Rightarrow> bool" where
  "real_offset off \<longleftrightarrow> (\<exists>k. off = 15 * Minute * k) \<and> - (14 * Hour) \<le> off \<and> off \<le> 14 * Hour"

definition utc_seconds :: "gotime \<Rightarrow> gotime \<Rightarrow> bool" where
  "utc_seconds t mdtm \<longleftrightarrow> mdtm \<le> t \<and> t < mdtm + Second"

lemma cmd_sel [simp]:
  "fc_listOffset (snd (cmd f c)) = fc_listOffset c" "fc_listOffsetKnown (snd (cmd f c)) = fc_listOffsetKnown c"
  "fc_listOffsetTries (snd (cmd f c)) = fc_listOffsetTries c" "fc_conn (snd (cmd f c)) = fc_conn c"
  "fc_pool (snd (cmd f c)) = fc_pool c" "fc_tlsConfig (snd (cmd f c)) = fc_tlsConfig c"
  "fc_out (snd (cmd f c)) = snd (f (control (fc_conn c)) (fs_deadline (fc_conn c)) (fc_out c))"
  "fst (cmd f c) = fst (f (control (fc_conn c)) (fs_deadline (fc_conn c)) (fc_out c))"
  by (simp_all add: cmd_def case_prod_beta)

lemma offset_found:
  assumes "real_offset off" "lists_minute off t listed" "utc_seconds t mdtm"
  shows "listOffsetFrom listed mdtm = Some off"
proof -
  obtain k where "off = 15 * Minute * k" using assms(1) by (auto simp: real_offset_def)
  moreover have "\<bar>off\<bar> \<le> 14 * Hour" using assms(1) by (auto simp: real_offset_def)
  ultimately show ?thesis
    using assms(2,3) unfolding lists_minute_def utc_seconds_def by (intro listOffsetFrom_near [of off k]) auto
qed

section \<open>The properties\<close>

text \<open>
  C19: The time zone of a server's listings is worked out exactly. If the server lists a
  file to the minute in its local time, any of the offsets there are (multiples of fifteen
  minutes up to fourteen hours either way), and MDTM gives the same file's time in UTC to
  the second, then \<open>listOffsetFrom\<close> gives back the offset itself, whatever seconds the
  listing has dropped. And whatever two times a server answers, an offset that is accepted is
  one there is, at most half a step away from their (saturating) difference.
\<close>

theorem list_offset_roundtrip:
  assumes "real_offset off" "lists_minute off t listed" "utc_seconds t mdtm"
  shows "listOffsetFrom listed mdtm = Some off \<and>
    (\<forall>l m o'. listOffsetFrom l m = Some o' \<longrightarrow>
       real_offset o' \<and> 2 * \<bar>time_Sub l m - o'\<bar> \<le> 15 * Minute)"
proof (intro conjI allI impI)
  show "listOffsetFrom listed mdtm = Some off" using assms by (rule offset_found)
  fix l m o'
  assume "listOffsetFrom l m = Some o'"
  note s = listOffsetFrom_sound [OF this]
  show "real_offset o'" using s by (auto simp: real_offset_def)
  show "2 * \<bar>time_Sub l m - o'\<bar> \<le> 15 * Minute" using s by blast
qed

theorem list_offset_roundtrip_witness:
  "\<exists>k. real_offset (5 * Hour + 45 * Minute) \<and>
     listOffsetFrom (1000 * Hour + 5 * Hour + 45 * Minute) (1000 * Hour + 59 * Second) = Some (15 * Minute * k)"
proof -
  have off: "real_offset (5 * Hour + 45 * Minute)"
    by (auto simp: real_offset_def intro!: exI [of _ 23])
  have "lists_minute (5 * Hour + 45 * Minute) (1000 * Hour + 59 * Second + 5)
      (1000 * Hour + 5 * Hour + 45 * Minute)" by (simp add: lists_minute_def)
  moreover have "utc_seconds (1000 * Hour + 59 * Second + 5) (1000 * Hour + 59 * Second)"
    by (simp add: utc_seconds_def)
  ultimately show ?thesis
    using list_offset_roundtrip [OF off] off by (intro exI [of _ 23]) simp
qed


end
