(* ===== verification/Ftp_Atomic.thy ===== *)
theory Ftp_Atomic
  imports Ftp_Listing
begin

text \<open>
  What an FTP upload does to the files of the server, over a view of the world. \<open>uv_rd x p\<close>:
  the contents of the file \<open>p\<close> on the server; \<open>uv_local\<close>: the local files, which keep still;
  \<open>uv_bytes\<close> and \<open>uv_lpos\<close>: the contents and position of an open one.
\<close>

record ('l, 'x) up_view =
  uv_rd :: "'x \<Rightarrow> string \<Rightarrow> string option"
  uv_local :: "string \<Rightarrow> string"
  uv_bytes :: "'l \<Rightarrow> string"
  uv_lpos :: "'x \<Rightarrow> 'l \<Rightarrow> nat"

definition calm :: "('l, 'x) up_view \<Rightarrow> 'x \<Rightarrow> 'x \<Rightarrow> bool" where
  "calm v x x' \<longleftrightarrow> uv_rd v x' = uv_rd v x \<and> uv_lpos v x' = uv_lpos v x"

definition only_path :: "('l, 'x) up_view \<Rightarrow> string \<Rightarrow> 'x \<Rightarrow> 'x \<Rightarrow> bool" where
  "only_path v p x x' \<longleftrightarrow> (\<forall>q. q \<noteq> p \<longrightarrow> uv_rd v x' q = uv_rd v x q)"

text \<open>
  A completed store holds what was read from the local file, behind the offset's bytes if
  it restarted; a rename and a removal are done, or, with an error, possibly done.
\<close>

definition store_contract :: "('l, 'x) up_view \<Rightarrow> ('k, 'r, 'l, 't, 'x) ftp_env \<Rightarrow> bool" where
  "store_contract v env \<longleftrightarrow>
    (\<forall>p l k d x. case fl_Stor env p l k d x of (err, x') \<Rightarrow> only_path v p x x' \<and>
       (err = None \<longrightarrow> uv_rd v x' p = Some (drop (uv_lpos v x l) (uv_bytes v l)))) \<and>
    (\<forall>p l n k d x. case fl_StorFrom env p l n k d x of (err, x') \<Rightarrow> only_path v p x x' \<and>
       (\<forall>old. err = None \<longrightarrow> uv_rd v x p = Some old \<longrightarrow> int (length old) = n \<longrightarrow>
          uv_rd v x' p = Some (old @ drop (uv_lpos v x l) (uv_bytes v l)))) \<and>
    (\<forall>a b k d x. case fl_Rename env a b k d x of (err, x') \<Rightarrow>
       (uv_rd v x a \<noteq> None \<and> uv_rd v x' = (uv_rd v x)(a := None, b := uv_rd v x a)) \<or>
       (err \<noteq> None \<and> uv_rd v x' = uv_rd v x)) \<and>
    (\<forall>p k d x. case fl_Delete env p k d x of (err, x') \<Rightarrow>
       uv_rd v x' = (uv_rd v x)(p := None) \<or> uv_rd v x' = uv_rd v x) \<and>
    (\<forall>l n x. case fo_Seek env l n x of (err, x') \<Rightarrow>
       uv_rd v x' = uv_rd v x \<and> (err = None \<longrightarrow> uv_lpos v x' l = nat n))"

text \<open>The calls that only look, and those on the sockets.\<close>

definition calm_contract :: "('l, 'x) up_view \<Rightarrow> ('k, 'r, 'l, 't, 'x) ftp_env \<Rightarrow> bool" where
  "calm_contract v env \<longleftrightarrow>
    (\<forall>p k d x. calm v x (snd (fl_FileSize env p k d x))) \<and>
    (\<forall>p k d x. calm v x (snd (fl_GetTime env p k d x))) \<and>
    (\<forall>p t k d x. calm v x (snd (fl_SetTime env p t k d x))) \<and>
    (\<forall>k t x. calm v x (fe_SetDeadline (fe_sess env) k t x)) \<and>
    (\<forall>s x. calm v x (session_close (fe_sess env) s x)) \<and>
    (\<forall>a u p tls x. calm v x (snd (dialFTPSession (fe_sess env) a u p tls x))) \<and>
    (\<forall>p k d x n. fst (fl_FileSize env p k d x) = Inr n \<longrightarrow>
       (\<exists>c. uv_rd v x p = Some c \<and> n = int (length c))) \<and>
    (\<forall>p x. case fo_Open env p x of (r, x') \<Rightarrow>
       uv_rd v x' = uv_rd v x \<and> (\<forall>l. r = Inr l \<longrightarrow> uv_bytes v l = uv_local v p)) \<and>
    (\<forall>l x. case fo_Stat env l x of Inr info \<Rightarrow> fi_Size info = int (length (uv_bytes v l)) | Inl _ \<Rightarrow> True) \<and>
    (\<forall>l x. uv_rd v (fo_Close env l x) = uv_rd v x)"

definition others_calm :: "('l, 'x) up_view \<Rightarrow> ('k, 'x) ftp_others \<Rightarrow> bool" where
  "others_calm v gs \<longleftrightarrow> (\<forall>g \<in> set gs. \<forall>c. calm v (fc_out c) (fc_out (g c)))"

section \<open>Lemmas\<close>

lemma calm_refl [simp]: "calm v x x"
  by (simp add: calm_def)

lemma calm_trans: "calm v x y \<Longrightarrow> calm v y z \<Longrightarrow> calm v x z"
  by (simp add: calm_def)

lemma only_path_trans: "only_path v p x y \<Longrightarrow> only_path v p y z \<Longrightarrow> only_path v p x z"
  by (simp add: only_path_def)

lemma store_contractD:
  assumes "store_contract v env"
  shows
    "fl_Stor env p l k d x = (err, x') \<Longrightarrow> only_path v p x x' \<and>
       (err = None \<longrightarrow> uv_rd v x' p = Some (drop (uv_lpos v x l) (uv_bytes v l)))"
    "fl_StorFrom env p l n k d x = (err, x') \<Longrightarrow> only_path v p x x' \<and>
       (\<forall>old. err = None \<longrightarrow> uv_rd v x p = Some old \<longrightarrow> int (length old) = n \<longrightarrow>
          uv_rd v x' p = Some (old @ drop (uv_lpos v x l) (uv_bytes v l)))"
    "fl_Rename env p q k d x = (err, x') \<Longrightarrow>
       (uv_rd v x p \<noteq> None \<and> uv_rd v x' = (uv_rd v x)(p := None, q := uv_rd v x p)) \<or>
       (err \<noteq> None \<and> uv_rd v x' = uv_rd v x)"
    "uv_rd v (snd (fl_Delete env p k d x)) = (uv_rd v x)(p := None) \<or>
       uv_rd v (snd (fl_Delete env p k d x)) = uv_rd v x"
    "fo_Seek env l n x = (err, x') \<Longrightarrow>
       uv_rd v x' = uv_rd v x \<and> (err = None \<longrightarrow> uv_lpos v x' l = nat n)"
proof -
  note c = assms [unfolded store_contract_def]
  show "fl_Stor env p l k d x = (err, x') \<Longrightarrow> only_path v p x x' \<and>
       (err = None \<longrightarrow> uv_rd v x' p = Some (drop (uv_lpos v x l) (uv_bytes v l)))"
    using c [THEN conjunct1, rule_format, where p = p and l = l and k = k and d = d and x = x] by simp
  note c = c [THEN conjunct2]
  show "fl_StorFrom env p l n k d x = (err, x') \<Longrightarrow> only_path v p x x' \<and>
       (\<forall>old. err = None \<longrightarrow> uv_rd v x p = Some old \<longrightarrow> int (length old) = n \<longrightarrow>
          uv_rd v x' p = Some (old @ drop (uv_lpos v x l) (uv_bytes v l)))"
    using c [THEN conjunct1, THEN spec [where x = p], THEN spec [where x = l], THEN spec [where x = n],
        THEN spec [where x = k], THEN spec [where x = d], THEN spec [where x = x]] by simp
  note c = c [THEN conjunct2]
  show "fl_Rename env p q k d x = (err, x') \<Longrightarrow>
       (uv_rd v x p \<noteq> None \<and> uv_rd v x' = (uv_rd v x)(p := None, q := uv_rd v x p)) \<or>
       (err \<noteq> None \<and> uv_rd v x' = uv_rd v x)"
    using c [THEN conjunct1, THEN spec [where x = p], THEN spec [where x = q], THEN spec [where x = k],
        THEN spec [where x = d], THEN spec [where x = x]] by simp
  note c = c [THEN conjunct2]
  show "uv_rd v (snd (fl_Delete env p k d x)) = (uv_rd v x)(p := None) \<or>
       uv_rd v (snd (fl_Delete env p k d x)) = uv_rd v x"
    using c [THEN conjunct1, rule_format, where p = p and k = k and d = d and x = x]
    by (simp add: case_prod_beta)
  note c = c [THEN conjunct2]
  show "fo_Seek env l n x = (err, x') \<Longrightarrow>
       uv_rd v x' = uv_rd v x \<and> (err = None \<longrightarrow> uv_lpos v x' l = nat n)"
    using c [THEN spec [where x = l], THEN spec [where x = n], THEN spec [where x = x]] by simp
qed

lemma calm_contractD:
  assumes "calm_contract v env"
  shows "calm v x (snd (fl_FileSize env p k d x))" "calm v x (snd (fl_GetTime env p k d x))"
    "calm v x (snd (fl_SetTime env p t k d x))" "calm v x (fe_SetDeadline (fe_sess env) k t x)"
    "calm v x (session_close (fe_sess env) s x)" "calm v x (snd (dialFTPSession (fe_sess env) a u p tls x))"
    "fst (fl_FileSize env p k d x) = Inr n \<Longrightarrow> \<exists>c. uv_rd v x p = Some c \<and> n = int (length c)"
    "fo_Open env p x = (r, x') \<Longrightarrow>
       uv_rd v x' = uv_rd v x \<and> (\<forall>l. r = Inr l \<longrightarrow> uv_bytes v l = uv_local v p)"
    "fo_Stat env l x = Inr info \<Longrightarrow> fi_Size info = int (length (uv_bytes v l))"
    "uv_rd v (fo_Close env l x) = uv_rd v x"
proof -
  note c = assms [unfolded calm_contract_def]
  show "calm v x (snd (fl_FileSize env p k d x))" "calm v x (snd (fl_GetTime env p k d x))"
    "calm v x (snd (fl_SetTime env p t k d x))" "calm v x (fe_SetDeadline (fe_sess env) k t x)"
    "calm v x (session_close (fe_sess env) s x)" "calm v x (snd (dialFTPSession (fe_sess env) a u p tls x))"
    "uv_rd v (fo_Close env l x) = uv_rd v x"
    using c by simp_all
  note c = c [THEN conjunct2, THEN conjunct2, THEN conjunct2, THEN conjunct2, THEN conjunct2, THEN conjunct2]
  show "fst (fl_FileSize env p k d x) = Inr n \<Longrightarrow> \<exists>c. uv_rd v x p = Some c \<and> n = int (length c)"
    using c [THEN conjunct1] by blast
  note c = c [THEN conjunct2]
  show "fo_Open env p x = (r, x') \<Longrightarrow>
       uv_rd v x' = uv_rd v x \<and> (\<forall>l. r = Inr l \<longrightarrow> uv_bytes v l = uv_local v p)"
    using c [THEN conjunct1, rule_format, where p = p and x = x] by simp
  show "fo_Stat env l x = Inr info \<Longrightarrow> fi_Size info = int (length (uv_bytes v l))"
    using c [THEN conjunct2, THEN conjunct1, rule_format, where l = l and x = x] by simp
qed

lemma cmd_out: "cmd f c = (a, c') \<Longrightarrow>
    f (control (fc_conn c)) (fs_deadline (fc_conn c)) (fc_out c) = (a, fc_out c')"
  by (auto simp: cmd_def Let_def split: prod.splits)

lemma on_disk_out: "on_disk f c = (a, c') \<Longrightarrow> f (fc_out c) = (a, fc_out c')"
  by (auto simp: on_disk_def Let_def split: prod.splits)

lemma set_deadlines_calm:
  assumes "calm_contract v env"
  shows "calm v x (set_deadlines (fe_sess env) ks t x)"
proof (induction ks arbitrary: x)
  case (Cons k ks)
  from calm_trans [OF calm_contractD(4) [OF assms] Cons.IH] show ?case by (simp add: set_deadlines_def)
qed (simp add: set_deadlines_def)

lemma conn_calm:
  assumes "calm_contract v env"
  shows "calm v (fc_out c) (fc_out (conn_begin env d c))" "calm v (fc_out c) (fc_out (conn_end env c))"
proof -
  note s = set_deadlines_calm [OF assms]
  from calm_trans [OF s s] show "calm v (fc_out c) (fc_out (conn_begin env d c))"
    by (simp add: conn_begin_def session_begin_def Let_def)
  from s show "calm v (fc_out c) (fc_out (conn_end env c))" by (simp add: conn_end_def session_end_def)
qed

text \<open>Getting and returning a session touches no file.\<close>

lemma ftp_acquire_calm:
  assumes con: "calm_contract v env"
  shows "others_calm v gs \<Longrightarrow> ftp_acquire env pr gs waited c = Some (r, c') \<Longrightarrow>
    calm v (fc_out c) (fc_out c')"
proof (induction gs arbitrary: waited c)
  case Nil
  obtain a p where "acquire_try waited (the (fc_pool c)) = (a, p)" by fastforce
  then show ?case using Nil by (cases a) auto
next
  case (Cons g gs)
  obtain a p where ap: "acquire_try waited (the (fc_pool c)) = (a, p)" by fastforce
  have g: "calm v (fc_out d) (fc_out (g d))" for d using Cons.prems(1) by (simp add: others_calm_def)
  have gs: "others_calm v gs" using Cons.prems(1) by (simp add: others_calm_def)
  let ?c = "c\<lparr>fc_pool := Some p\<rparr>"
  show ?case
  proof (cases a)
    case StartDial
    obtain s c1 where r: "ftp_dial env pr ?c = (s, c1)" by fastforce
    have "calm v (fc_out ?c) (fc_out c1)"
      using calm_contractD(6) [OF con] on_disk_out [OF r [unfolded ftp_dial_def]] by (metis snd_conv)
    from calm_trans [OF this g] have c1: "calm v (fc_out c) (fc_out (g c1))" by simp
    obtain o1 p1 where dd: "dial_done s (the (fc_pool (g c1))) = (o1, p1)" by fastforce
    let ?d = "(g c1)\<lparr>fc_pool := Some p1\<rparr>"
    show ?thesis
    proof (cases o1)
      case (DLate s)
      then have "c' = close_session env s ?d"
        using Cons.prems(2) ap StartDial r dd by (simp add: Let_def)
      then have "calm v (fc_out ?d) (fc_out c')"
        using calm_contractD(5) [OF con] by (simp add: close_session_def)
      then show ?thesis using calm_trans [OF c1] by simp
    next
      case (DRetry k)
      then have "ftp_acquire env pr gs waited ?d = Some (r, c')"
        using Cons.prems(2) ap StartDial r dd by (simp add: Let_def)
      from Cons.IH [OF gs this] show ?thesis using calm_trans [OF c1] by simp
    qed (use Cons.prems(2) ap StartDial r dd c1 in \<open>auto simp: Let_def\<close>)
  next
    case WaitCond
    then have "ftp_acquire env pr gs True (g ?c) = Some (r, c')" using Cons.prems(2) ap by simp
    from calm_trans [OF g Cons.IH [OF gs this]] show ?thesis by simp
  qed (use Cons.prems(2) ap in auto)
qed

lemma put_back_calm: "calm_contract v env \<Longrightarrow> calm v (fc_out c) (fc_out (put_back env broken c))"
  by (simp add: put_back_def close_session_def case_prod_beta Let_def calm_contractD(5))

lemma withConn_err_calm:
  assumes con: "calm_contract v env" and gs: "others_calm v gs"
    and run: "withConn_err env pr gs op timeout fn c = Some (err, c')"
  shows "(err \<noteq> None \<and> calm v (fc_out c) (fc_out c')) \<or>
    (\<exists>ca cb. calm v (fc_out c) (fc_out ca) \<and> fn ca = (err, cb) \<and> calm v (fc_out cb) (fc_out c'))"
proof (cases "fc_pool c")
  case None
  then show ?thesis using run by (auto simp: withConn_err_def withConn_def err_of_def)
next
  case (Some p)
  then obtain r c1 where a: "ftp_acquire env pr gs False c = Some (r, c1)"
    using run by (auto simp: withConn_err_def withConn_def split: option.splits)
  have c1: "calm v (fc_out c) (fc_out c1)" by (rule ftp_acquire_calm [OF con gs a])
  show ?thesis
  proof (cases r)
    case (Inl e)
    then show ?thesis using run Some a c1 by (auto simp: withConn_err_def withConn_def err_of_def)
  next
    case (Inr s)
    define ca where "ca = conn_begin env timeout (c1\<lparr>fc_conn := s\<rparr>)"
    obtain e cb where fn: "fn ca = (e, cb)" by fastforce
    have "err_of (unit_res e) = e" by (simp add: err_of_def unit_res_def split: option.split)
    then have res: "err = e" "c' = put_back env (sessionBroken e) (conn_end env cb)"
      using run Some a Inr fn by (auto simp: withConn_err_def withConn_def ca_def [symmetric] Let_def)
    have "calm v (fc_out c) (fc_out ca)"
      using calm_trans [OF c1] conn_calm(1) [OF con, of "c1\<lparr>fc_conn := s\<rparr>"] by (simp add: ca_def)
    moreover have "calm v (fc_out cb) (fc_out c')"
      unfolding res by (rule calm_trans [OF conn_calm(2) [OF con] put_back_calm [OF con]])
    ultimately show ?thesis using fn res by blast
  qed
qed

text \<open>
  \<open>swapped v p q new err x x'\<close>: the live file \<open>p\<close> has \<open>new\<close> if there was no error, and its old
  contents, \<open>new\<close> or nothing otherwise; \<open>q\<close> is the partial.
\<close>

definition swapped :: "('l, 'x) up_view \<Rightarrow> string \<Rightarrow> string \<Rightarrow> string \<Rightarrow> goerr option \<Rightarrow> 'x \<Rightarrow> 'x \<Rightarrow> bool" where
  "swapped v p q new err x x' \<longleftrightarrow>
    (err = None \<longrightarrow> uv_rd v x' p = Some new) \<and> uv_rd v x' p \<in> {uv_rd v x p, Some new, None} \<and>
    (\<forall>r. r \<noteq> p \<longrightarrow> r \<noteq> q \<longrightarrow> uv_rd v x' r = uv_rd v x r)"

lemma swapped_after:
  "only_path v q x y \<Longrightarrow> p \<noteq> q \<Longrightarrow> swapped v p q new err y z \<Longrightarrow> swapped v p q new err x z"
  by (auto simp: swapped_def only_path_def)

lemma swapped_unsent: "only_path v q x y \<Longrightarrow> p \<noteq> q \<Longrightarrow> err \<noteq> None \<Longrightarrow> swapped v p q new err x y"
  by (auto simp: swapped_def only_path_def)

lemma only_path_calm: "calm v x y \<Longrightarrow> only_path v q x y"
  by (simp add: calm_def only_path_def)

lemma cmd_delete:
  assumes con: "store_contract v env" and "q = r \<or> uv_rd v (fc_out c) r = None"
  shows "only_path v q (fc_out c) (fc_out (snd (cmd (fl_Delete env r) c)))"
  using store_contractD(4) [OF con, of r "control (fc_conn c)" "fs_deadline (fc_conn c)" "fc_out c"] assms(2)
  by (auto simp: only_path_def)

lemma ftpReplace_rd:
  assumes con: "store_contract v env" and q: "uv_rd v (fc_out c) q = Some new" "p \<noteq> q"
    and run: "ftpReplace env q p c = (err, c')"
  shows "swapped v p q new err (fc_out c) (fc_out c')"
proof -
  obtain e1 c1 where r1: "cmd (fl_Rename env q p) c = (e1, c1)" by fastforce
  note R1 = store_contractD(3) [OF con cmd_out [OF r1]]
  show ?thesis
  proof (cases "e1 = None \<or> sessionBroken e1")
    case True
    then have "err = e1" "c' = c1" using run r1 by (cases e1; auto simp: ftpReplace_def)+
    then show ?thesis using R1 q by (auto simp: swapped_def)
  next
    case False
    define c2 where "c2 = snd (cmd (fl_Delete env p) c1)"
    obtain e3 c3 where r3: "cmd (fl_Rename env q p) c2 = (e3, c3)" by fastforce
    have "err = e3" "c' = c3" using run r1 False r3 by (cases e1; auto simp: ftpReplace_def c2_def)+
    moreover have "uv_rd v (fc_out c2) = (uv_rd v (fc_out c1))(p := None) \<or> uv_rd v (fc_out c2) = uv_rd v (fc_out c1)"
      using store_contractD(4) [OF con] by (simp add: c2_def)
    ultimately show ?thesis
      using R1 store_contractD(3) [OF con cmd_out [OF r3]] q by (auto simp: swapped_def split: if_splits)
  qed
qed

lemma swapped_deleted:
  assumes "store_contract v env" "swapped v p q new (Some e) x (fc_out c)" "p \<noteq> q"
  shows "swapped v p q new (wrapError op (Some e)) x (fc_out (snd (cmd (fl_Delete env q) c)))"
  using cmd_delete [OF assms(1), of q q c] assms(2,3) wrapError_Some_ex [of op e]
  by (auto simp: swapped_def only_path_def)

lemma finish_upload_rd:
  assumes con: "store_contract v env" "calm_contract v env"
    and q: "uv_rd v (fc_out c) (remotePartialPath p) = Some new"
    and run: "finish_upload env op p info c = (err, c')"
  shows "swapped v p (remotePartialPath p) new err (fc_out c) (fc_out c')"
proof -
  let ?q = "remotePartialPath p"
  define c1 where "c1 = (if fl_IsSetTimeSupported env (control (fc_conn c))
    then snd (cmd (fl_SetTime env ?q (fi_ModTime info)) c) else c)"
  have c1: "calm v (fc_out c) (fc_out c1)" using calm_contractD(3) [OF con(2)] by (simp add: c1_def)
  obtain e c2 where r: "ftpReplace env ?q p c1 = (e, c2)" by fastforce
  have "swapped v p ?q new e (fc_out c1) (fc_out c2)"
    using ftpReplace_rd [OF con(1) _ remotePartialPath_neq [symmetric] r] q c1 by (simp add: calm_def)
  then have s: "swapped v p ?q new e (fc_out c) (fc_out c2)"
    by (rule swapped_after [OF only_path_calm [OF c1] remotePartialPath_neq [symmetric]])
  note run = run [unfolded finish_upload_def Let_def c1_def [symmetric] r prod.case]
  show ?thesis
  proof (cases e)
    case None
    then show ?thesis using run s by simp
  next
    case (Some er)
    obtain w where w: "wrapError op (Some er) = Some w" using wrapError_Some_ex by blast
    have s2: "swapped v p ?q new (Some w) (fc_out c) (fc_out c2)" using s Some by (simp add: swapped_def)
    show ?thesis
      using run Some w s2 swapped_deleted [OF con(1) s [unfolded Some] remotePartialPath_neq [symmetric], of op]
      by (auto split: if_splits)
  qed
qed

lemma store_whole_rd:
  assumes con: "store_contract v env" and run: "store_whole env q l c = (err, c')"
  shows "only_path v q (fc_out c) (fc_out c') \<and> (err = None \<longrightarrow> uv_rd v (fc_out c') q = Some (uv_bytes v l))"
proof -
  obtain e c1 where s: "on_disk (fo_Seek env l 0) c = (e, c1)" by fastforce
  note S = store_contractD(5) [OF con on_disk_out [OF s]]
  show ?thesis
  proof (cases e)
    case None
    then have st: "cmd (fl_Stor env q l) c1 = (err, c')" using run s by (simp add: store_whole_def)
    show ?thesis using store_contractD(1) [OF con cmd_out [OF st]] S None by (simp add: only_path_def)
  next
    case (Some x)
    then show ?thesis using run s S by (auto simp: store_whole_def only_path_def)
  qed
qed

lemma upload_whole_rd:
  assumes con: "store_contract v env" "calm_contract v env"
    and run: "upload_whole env op l info p resume c = (err, c')"
  shows "swapped v p (remotePartialPath p) (uv_bytes v l) err (fc_out c) (fc_out c')"
proof -
  let ?q = "remotePartialPath p"
  note pq = remotePartialPath_neq [of p, symmetric]
  obtain e c1 where s: "store_whole env ?q l c = (e, c1)" by fastforce
  note S = store_whole_rd [OF con(1) s]
  show ?thesis
  proof (cases e)
    case None
    then have "finish_upload env op p info c1 = (err, c')" using run s by (simp add: upload_whole_def)
    then have "swapped v p ?q (uv_bytes v l) err (fc_out c1) (fc_out c')"
      using finish_upload_rd [OF con] S None by blast
    then show ?thesis by (rule swapped_after [OF S [THEN conjunct1] pq])
  next
    case (Some er)
    have err: "err = wrapError op (Some er)" "c' = c1 \<or> c' = snd (cmd (fl_Delete env ?q) c1)"
      using run s Some by (auto simp: upload_whole_def Let_def)
    have "only_path v ?q (fc_out c1) (fc_out c')"
      using err(2) cmd_delete [OF con(1), of ?q ?q c1] by (auto simp: only_path_def)
    from swapped_unsent [OF only_path_trans [OF S [THEN conjunct1] this] pq] show ?thesis
      using err(1) wrapError_Some_ex [of op er] by auto
  qed
qed

text \<open>The offset of a resume is the length of the partial that is there.\<close>

lemma ftp_resume_offset_ok:
  assumes con: "calm_contract v env" and run: "ftp_resume_offset env q info resume c = (n, c')"
  shows "calm v (fc_out c) (fc_out c') \<and> (0 < n \<longrightarrow> resume \<and> n \<le> fi_Size info \<and>
    (\<exists>part. uv_rd v (fc_out c) q = Some part \<and> int (length part) = n))"
proof (cases resume)
  case True
  obtain r c1 where f: "cmd (fl_FileSize env q) c = (r, c1)" by fastforce
  have "fc_out c1 = snd (fl_FileSize env q (control (fc_conn c)) (fs_deadline (fc_conn c)) (fc_out c))"
    using cmd_out [OF f] by simp
  then have c1: "calm v (fc_out c) (fc_out c1)" using calm_contractD(1) [OF con] by simp
  show ?thesis
  proof (cases r)
    case (Inl e)
    then show ?thesis using run True f c1 by (auto simp: ftp_resume_offset_def)
  next
    case (Inr sz)
    then have len: "\<exists>part. uv_rd v (fc_out c) q = Some part \<and> sz = int (length part)"
      using calm_contractD(7) [OF con] cmd_out [OF f] by (metis fst_conv)
    obtain t c2 where g: "cmd (fl_GetTime env q) c1 = (t, c2)" by fastforce
    have "fc_out c2 = snd (fl_GetTime env q (control (fc_conn c1)) (fs_deadline (fc_conn c1)) (fc_out c1))"
      using cmd_out [OF g] by simp
    then have c2: "calm v (fc_out c) (fc_out c2)"
      using calm_trans [OF c1] calm_contractD(2) [OF con] by simp
    have "c' = c2" "0 < n \<Longrightarrow> n = sz \<and> sz \<le> fi_Size info"
      using run True f Inr g
      by (auto simp: ftp_resume_offset_def canResumePartial_def split: sum.splits if_splits)
    then show ?thesis using c2 len True by auto
  qed
qed (use run in \<open>auto simp: ftp_resume_offset_def\<close>)

text \<open>
  What a successful upload leaves: the local file's contents, or, resumed, those of the
  partial that was there and the rest of the local file.
\<close>

definition ftp_contents :: "('l, 'x) up_view \<Rightarrow> bool \<Rightarrow> string \<Rightarrow> string option \<Rightarrow> string \<Rightarrow> bool" where
  "ftp_contents v resume bytes partial new \<longleftrightarrow>
     new = bytes \<or>
     (resume \<and> (\<exists>part. partial = Some part \<and> part \<noteq> '''' \<and> length part \<le> length bytes \<and>
        new = part @ drop (length part) bytes))"

lemma store_from_rd:
  assumes con: "store_contract v env" and run: "store_from env q l n c = (err, c')"
    and part: "uv_rd v (fc_out c) q = Some part" "int (length part) = n"
  shows "only_path v q (fc_out c) (fc_out c') \<and>
    (err = None \<longrightarrow> uv_rd v (fc_out c') q = Some (part @ drop (length part) (uv_bytes v l)))"
proof -
  obtain e c1 where s: "on_disk (fo_Seek env l n) c = (e, c1)" by fastforce
  note S = store_contractD(5) [OF con on_disk_out [OF s]]
  show ?thesis
  proof (cases e)
    case None
    then have st: "cmd (fl_StorFrom env q l n) c1 = (err, c')" using run s by (simp add: store_from_def)
    have "uv_lpos v (fc_out c1) l = length part" using S None part(2) by auto
    then show ?thesis
      using store_contractD(2) [OF con cmd_out [OF st]] S part by (simp add: only_path_def)
  next
    case (Some x)
    then show ?thesis using run s S by (auto simp: store_from_def only_path_def)
  qed
qed

lemma upload_body_rd:
  assumes con: "store_contract v env" "calm_contract v env"
    and len: "fi_Size info = int (length (uv_bytes v l))"
    and run: "upload_body env op l info p resume c = (err, c')"
  shows "\<exists>new. ftp_contents v resume (uv_bytes v l) (uv_rd v (fc_out c) (remotePartialPath p)) new \<and>
    swapped v p (remotePartialPath p) new err (fc_out c) (fc_out c')"
proof -
  let ?q = "remotePartialPath p"
  note pq = remotePartialPath_neq [of p, symmetric]
  obtain n c1 where o: "ftp_resume_offset env ?q info resume c = (n, c1)" by fastforce
  note O = ftp_resume_offset_ok [OF con(2) o]
  note run = run [unfolded upload_body_def Let_def o prod.case]
  have whole: ?thesis if "upload_whole env op l info p resume c2 = (err, c')"
    "only_path v ?q (fc_out c) (fc_out c2)" for c2
    using swapped_after [OF that(2) pq upload_whole_rd [OF con that(1)]] by (auto simp: ftp_contents_def)
  have calm1: "only_path v ?q (fc_out c) (fc_out c1)" using O [THEN conjunct1] by (rule only_path_calm)
  show ?thesis
  proof (cases "n > 0")
    case False
    then show ?thesis using run whole calm1 by simp
  next
    case True
    obtain part where part: "uv_rd v (fc_out c) ?q = Some part" "int (length part) = n" "resume"
      "n \<le> fi_Size info" using O True by blast
    then have "uv_rd v (fc_out c1) ?q = Some part" using O by (simp add: calm_def)
    obtain e c2 where s: "store_from env ?q l n c1 = (e, c2)" by fastforce
    note S = store_from_rd [OF con(1) s \<open>uv_rd v (fc_out c1) ?q = Some part\<close> part(2)]
    have c2: "only_path v ?q (fc_out c) (fc_out c2)" using only_path_trans [OF calm1] S by blast
    let ?new = "part @ drop (length part) (uv_bytes v l)"
    have new: "ftp_contents v resume (uv_bytes v l) (uv_rd v (fc_out c) ?q) ?new"
      using part len True by (auto simp: ftp_contents_def)
    show ?thesis
    proof (cases e)
      case None
      then have "finish_upload env op p info c2 = (err, c')" using run True s by simp
      from finish_upload_rd [OF con _ this] have "swapped v p ?q ?new err (fc_out c2) (fc_out c')"
        using S None by blast
      from swapped_after [OF c2 pq this] show ?thesis using new by blast
    next
      case (Some er)
      show ?thesis
      proof (cases "sessionBroken (Some er)")
        case True
        then have "err = wrapError op (Some er)" "c' = c2" using run \<open>n > 0\<close> s Some by auto
        then show ?thesis using new swapped_unsent [OF c2 pq] wrapError_Some_ex [of op er] by auto
      next
        case False
        then show ?thesis using run \<open>n > 0\<close> s Some whole c2 by simp
      qed
    qed
  qed
qed

section \<open>The property\<close>

text \<open>
  C5: An FTP upload replaces the live file whole or not at all. Whatever fails: when
  \<open>upload\<close> succeeds the live file has the contents of the local file, or, when the partial
  of an earlier attempt was continued with REST, those of the partial and the rest of the
  local file; when it fails the live file has its old contents or the complete new ones
  (the reply to a rename may be lost), or is missing, on a server that refused to rename
  over it; it is never cut short. No other file of the server but the partial beside it is
  touched. A resume that fails on a working connection falls back to a whole upload under
  the same promise.
\<close>

theorem ftp_upload_atomic:
  assumes con: "store_contract v env" "calm_contract v env" and gs: "others_calm v gs"
    and run: "ftp_upload env pr gs path p resume c = Some (err, c')"
  shows "\<exists>new. ftp_contents v resume (uv_local v path) (uv_rd v (fc_out c) (remotePartialPath p)) new \<and>
    (err = None \<longrightarrow> uv_rd v (fc_out c') p = Some new) \<and>
    uv_rd v (fc_out c') p \<in> {uv_rd v (fc_out c) p, Some new, None} \<and>
    (\<forall>r. r \<noteq> p \<longrightarrow> r \<noteq> remotePartialPath p \<longrightarrow> uv_rd v (fc_out c') r = uv_rd v (fc_out c) r)"
proof -
  let ?q = "remotePartialPath p"
  obtain r c1 where op: "on_disk (fo_Open env path) c = (r, c1)" by fastforce
  note O = calm_contractD(8) [OF con(2) on_disk_out [OF op]]
  have trivial: ?thesis if "err \<noteq> None" "uv_rd v (fc_out c') = uv_rd v (fc_out c)"
    by (rule exI [of _ "uv_local v path"]) (use that in \<open>auto simp: ftp_contents_def\<close>)
  show ?thesis
  proof (cases r)
    case (Inl e)
    then show ?thesis using run op O trivial wrapError_Some_ex by (auto simp: ftp_upload_def Let_def)
  next
    case (Inr l)
    show ?thesis
    proof (cases "fo_Stat env l (fc_out c1)")
      case (Inl e)
      then have "err \<noteq> None" "fc_out c' = fo_Close env l (fc_out c1)"
        using run op Inr wrapError_Some_ex [of "ftp_upload_op resume" e] by (auto simp: ftp_upload_def Let_def)
      then show ?thesis using trivial O calm_contractD(10) [OF con(2)] by simp
    next
      case info: (Inr info)
      obtain c2 where w: "withConn_err env pr gs (ftp_upload_op resume) (TransferTimeout (fi_Size info))
          (upload_body env (ftp_upload_op resume) l info p resume) c1 = Some (err, c2)"
        and c': "c' = c2\<lparr>fc_out := fo_Close env l (fc_out c2)\<rparr>"
        using run op Inr info by (auto simp: ftp_upload_def Let_def split: option.splits)
      have out: "uv_rd v (fc_out c') = uv_rd v (fc_out c2)" using c' calm_contractD(10) [OF con(2)] by simp
      consider "err \<noteq> None" "calm v (fc_out c1) (fc_out c2)"
        | ca cb where "calm v (fc_out c1) (fc_out ca)" "calm v (fc_out cb) (fc_out c2)"
          "upload_body env (ftp_upload_op resume) l info p resume ca = (err, cb)"
        using withConn_err_calm [OF con(2) gs w] by blast
      then show ?thesis
      proof cases
        case 1
        then show ?thesis using trivial O out by (simp add: calm_def)
      next
        case 2
        have "fi_Size info = int (length (uv_bytes v l))" by (rule calm_contractD(9) [OF con(2) info])
        from upload_body_rd [OF con this 2(3)] show ?thesis
          using 2 O out Inr by (simp add: calm_def swapped_def)
      qed
    qed
  qed
qed

end
