(* ===== verification/Ftp_Dirs.thy ===== *)
theory Ftp_Dirs
  imports Ftp_Listing
begin

text \<open>
  \<open>MkdirAll\<close> of the FTP client moves the session's working directory to find out whether a
  directory is there. It never leaves a session that goes rst into the pool in another
  directory. \<open>cwd x k\<close>: the working directory of the control connection \<open>k\<close>.
\<close>

definition stays :: "('x \<Rightarrow> 'k \<Rightarrow> string) \<Rightarrow> ('x \<Rightarrow> 'a \<times> 'x) \<Rightarrow> bool" where
  "stays cwd f \<longleftrightarrow> (\<forall>x. cwd (snd (f x)) = cwd x)"

text \<open>
  \<open>PWD\<close> answers the working directory, changing to a directory so answered goes there,
  and of the commands only \<open>CWD\<close> moves.
\<close>

definition cwd_contract :: "('x \<Rightarrow> 'k \<Rightarrow> string) \<Rightarrow> ('k, 'r, 'l, 't, 'x) ftp_env \<Rightarrow> bool" where
  "cwd_contract cwd env \<longleftrightarrow>
    (\<forall>p k d. stays cwd (fl_MakeDir env p k d)) \<and> (\<forall>p k d. stays cwd (fl_GetEntry env p k d)) \<and>
    (\<forall>k d. stays cwd (fl_CurrentDir env k d)) \<and>
    (\<forall>k t x. cwd (fe_SetDeadline (fe_sess env) k t x) = cwd x) \<and>
    (\<forall>k d x p. fst (fl_CurrentDir env k d x) = Inr p \<longrightarrow> p = cwd x k) \<and>
    (\<forall>k x k' d' y. fst (fl_ChangeDir env (cwd y k) k' d' x) = None \<longrightarrow>
       cwd (snd (fl_ChangeDir env (cwd y k) k' d' x)) k' = cwd y k)"

lemma cwd_contractD:
  assumes "cwd_contract cwd env"
  shows "cwd (snd (fl_MakeDir env p k d x)) = cwd x" "cwd (snd (fl_GetEntry env p k d x)) = cwd x"
    "cwd (snd (fl_CurrentDir env k d x)) = cwd x" "cwd (fe_SetDeadline (fe_sess env) k t x) = cwd x"
    "fst (fl_CurrentDir env k d x) = Inr p \<Longrightarrow> p = cwd x k"
    "fst (fl_ChangeDir env (cwd y k) k' d x) = None \<Longrightarrow>
      cwd (snd (fl_ChangeDir env (cwd y k) k' d x)) k' = cwd y k"
proof -
  note c = assms [unfolded cwd_contract_def stays_def]
  show "cwd (snd (fl_MakeDir env p k d x)) = cwd x" using c by simp
  show "cwd (snd (fl_GetEntry env p k d x)) = cwd x" using c by simp
  show "cwd (snd (fl_CurrentDir env k d x)) = cwd x" using c by simp
  show "cwd (fe_SetDeadline (fe_sess env) k t x) = cwd x" using c by simp
  note c = c [THEN conjunct2, THEN conjunct2, THEN conjunct2, THEN conjunct2]
  show "fst (fl_CurrentDir env k d x) = Inr p \<Longrightarrow> p = cwd x k" using c [THEN conjunct1] by blast
  show "fst (fl_ChangeDir env (cwd y k) k' d x) = None \<Longrightarrow>
      cwd (snd (fl_ChangeDir env (cwd y k) k' d x)) k' = cwd y k" using c [THEN conjunct2] by blast
qed

text \<open>\<open>home cwd c c'\<close>: the held session is still there and in the directory it was in.\<close>

definition home :: "('x \<Rightarrow> 'k \<Rightarrow> string) \<Rightarrow> ('k, 'x) ftp \<Rightarrow> ('k, 'x) ftp \<Rightarrow> bool" where
  "home cwd c c' \<longleftrightarrow> fs_control (fc_conn c') = fs_control (fc_conn c) \<and> fc_pool c' = fc_pool c \<and>
     cwd (fc_out c') (control (fc_conn c)) = cwd (fc_out c) (control (fc_conn c))"

lemma home_refl [simp]: "home cwd c c"
  by (simp add: home_def)

lemma home_trans: "home cwd a b \<Longrightarrow> home cwd b c \<Longrightarrow> home cwd a c"
  by (simp add: home_def control_def)

lemma set_deadlines_cwd:
  "cwd_contract cwd env \<Longrightarrow> cwd (set_deadlines (fe_sess env) ks t x) = cwd x"
  by (induction ks arbitrary: x) (simp_all add: set_deadlines_def cwd_contractD(4))

lemma conn_begin_sel [simp]:
  "fs_control (fc_conn (conn_begin env d c)) = fs_control (fc_conn c)"
  "fc_pool (conn_begin env d c) = fc_pool c" "fs_control (fc_conn (conn_end env c)) = fs_control (fc_conn c)"
  "fc_pool (conn_end env c) = fc_pool c" "fs_deadline (fc_conn (conn_end env c)) = 0"
  by (simp_all add: conn_begin_def session_begin_def conn_end_def session_end_def Let_def)

lemma conn_home:
  "cwd_contract cwd env \<Longrightarrow> home cwd c (conn_begin env d c)"
  "cwd_contract cwd env \<Longrightarrow> home cwd c (conn_end env c)"
  by (simp_all add: home_def)
    (simp_all add: conn_begin_def session_begin_def conn_end_def session_end_def Let_def set_deadlines_cwd)

lemma cmd_home:
  assumes "cmd f c = (a, c')" "\<And>k d. stays cwd (f k d)"
  shows "home cwd c c'"
proof -
  have "c' = snd (cmd f c)" using assms(1) by simp
  then show ?thesis using assms(2) by (simp add: home_def stays_def)
qed

lemma errors_Is_errorf_w: "errors_Is (errorf_w s e) t \<longleftrightarrow> errors_Is e t"
  by (simp add: errorf_w_def errors_Is_def)

lemma restore_error_broken: "sessionBroken (wrapError op (Some (restore_error p e)))"
proof -
  have "errors_Is (restore_error p e) errBrokenSession"
    unfolding restore_error_def errors_Is_errorf_w by (simp add: errors_Is_def)
  then show ?thesis by (simp add: classify_wrapError(2)) (simp add: sessionBroken_def)
qed

lemma check_dir_home:
  assumes con: "cwd_contract cwd env" and run: "check_dir env p err c = (e, c')"
  shows "home cwd c c' \<or> sessionBroken e"
proof -
  obtain r c1 where r: "cmd (fl_CurrentDir env) c = (r, c1)" by fastforce
  have h1: "home cwd c c1" using cmd_home [OF r] con by (simp add: cwd_contract_def)
  show ?thesis
  proof (cases r)
    case (Inl x)
    then show ?thesis using run r h1 by (simp add: check_dir_def)
  next
    case (Inr w)
    have "fst (cmd (fl_CurrentDir env) c) = Inr w" using r Inr by simp
    then have w: "w = cwd (fc_out c) (control (fc_conn c))" using cwd_contractD(5) [OF con] by simp
    obtain cdErr c2 where cd: "cmd (fl_ChangeDir env p) c1 = (cdErr, c2)" by fastforce
    obtain q c3 where rst: "cmd (fl_ChangeDir env w) c2 = (q, c3)" by fastforce
    show ?thesis
    proof (cases q)
      case (Some re)
      then show ?thesis using run r Inr cd rst restore_error_broken by (auto simp: check_dir_def)
    next
      case None
      have c2: "fc_conn c2 = fc_conn c1" "fc_pool c2 = fc_pool c1" using cd cmd_sel by (metis snd_conv)+
      have c3: "fc_conn c3 = fc_conn c2" "fc_pool c3 = fc_pool c2" using rst cmd_sel by (metis snd_conv)+
      have same: "control (fc_conn c2) = control (fc_conn c)" using h1 c2 by (simp add: home_def control_def)
      have "fst (cmd (fl_ChangeDir env w) c2) = None" using rst None by simp
      then have "cwd (snd (fl_ChangeDir env w (control (fc_conn c2)) (fs_deadline (fc_conn c2)) (fc_out c2)))
          (control (fc_conn c2)) = w"
        unfolding w by (intro cwd_contractD(6) [OF con]) simp
      moreover have "fc_out c3 = snd (fl_ChangeDir env w (control (fc_conn c2)) (fs_deadline (fc_conn c2)) (fc_out c2))"
        using rst cmd_sel(7) by (metis snd_conv)
      ultimately have "home cwd c c3" using h1 c2 c3 w by (simp add: home_def control_def)
      moreover have "c' = c3" using run r Inr cd rst None by (simp add: check_dir_def)
      ultimately show ?thesis by simp
    qed
  qed
qed

lemma ftp_components_home:
  assumes con: "cwd_contract cwd env"
  shows "ftp_components env cur cs c = (e, c') \<Longrightarrow> home cwd c c' \<or> sessionBroken e"
proof (induction cs arbitrary: cur c)
  case (Cons x cs)
  show ?case
  proof (cases "x = ''''")
    case True
    then show ?thesis using Cons by auto
  next
    case False
    define p where "p = (if cur = ''/'' then ''/'' @ x else cur @ ''/'' @ x)"
    obtain r c1 where mk: "cmd (fl_MakeDir env p) (conn_begin env OperationTimeout c) = (r, c1)" by fastforce
    have "home cwd (conn_begin env OperationTimeout c) c1" using cmd_home [OF mk] con by (simp add: cwd_contract_def)
    from home_trans [OF conn_home(1) [OF con] this] have h1: "home cwd c c1" .
    obtain e2 c2 where ck: "check_dir env p (the r) c1 = (e2, c2)" by fastforce
    note run = Cons.prems [unfolded ftp_components.simps if_not_P [OF False] Let_def p_def [symmetric] mk prod.case]
    consider (made) "ftp_components env p cs c1 = (e, c')"
      | (broken) "sessionBroken e" | (checked) "ftp_components env p cs c2 = (e, c')" "e2 = None"
      | (refused) "e = e2" "c' = c2" "e2 \<noteq> None"
      using run ck by (cases r; cases e2) (auto simp: classify_wrapError split: if_splits)
    then show ?thesis
    proof cases
      case made
      from Cons.IH [OF made] show ?thesis using home_trans [OF h1] by blast
    next
      case broken
      then show ?thesis ..
    next
      case checked
      have "home cwd c1 c2" using check_dir_home [OF con ck] checked(2) by (simp add: sessionBroken_def)
      from home_trans [OF home_trans [OF h1 this]] Cons.IH [OF checked(1)] show ?thesis by blast
    next
      case refused
      then show ?thesis using check_dir_home [OF con ck] home_trans [OF h1] by blast
    qed
  qed
qed simp

lemma mkdirall_body_home:
  assumes con: "cwd_contract cwd env" and run: "mkdirall_body env p c = (e, c')"
  shows "home cwd c c' \<or> sessionBroken e"
proof (cases "fl_IsTimePreciseInList env (control (fc_conn c))")
  case True
  obtain r c1 where g: "cmd (fl_GetEntry env p) c = (r, c1)" by fastforce
  have h1: "home cwd c c1" using cmd_home [OF g] con by (simp add: cwd_contract_def)
  define cs where "cs = Split CHR ''/'' p"
  note run = run [unfolded mkdirall_body_def if_P [OF True] g prod.case, folded cs_def]
  have "(e = None \<and> c' = c1) \<or> ftp_components env '''' cs c1 = (e, c') \<or> sessionBroken e"
  proof (cases r)
    case (Inl err)
    then show ?thesis using run classify_wrapError(2) [of "''mkdir''" "Some err"] by (auto split: if_splits)
  next
    case (Inr entry)
    then show ?thesis using run by (auto split: if_splits)
  qed
  then consider "e = None" "c' = c1" | "ftp_components env '''' cs c1 = (e, c')" | "sessionBroken e" by blast
  then show ?thesis
  proof cases
    case 2
    from ftp_components_home [OF con this] show ?thesis using home_trans [OF h1] by blast
  qed (use h1 in auto)
next
  case False
  then show ?thesis using run ftp_components_home [OF con] by (simp add: mkdirall_body_def)
qed

text \<open>The pool is not touched while a session is held.\<close>

lemma cmd_pool: "cmd f c = (a, c') \<Longrightarrow> fc_pool c' = fc_pool c"
  by (metis cmd_sel(5) snd_conv)

lemma check_dir_pool: "fc_pool (snd (check_dir env p err c)) = fc_pool c"
  by (auto simp: check_dir_def Let_def split: sum.split option.split prod.split dest!: cmd_pool)

lemma ftp_components_pool: "fc_pool (snd (ftp_components env cur cs c)) = fc_pool c"
proof (induction cs arbitrary: cur c)
  case (Cons x cs)
  show ?case
    using Cons check_dir_pool [of env]
    by (auto simp: Let_def split: option.split prod.split dest!: cmd_pool)
      (metis snd_conv)+
qed simp

lemma mkdirall_body_pool: "fc_pool (snd (mkdirall_body env p c)) = fc_pool c"
  by (auto simp: mkdirall_body_def ftp_components_pool split: sum.split prod.split dest!: cmd_pool)

section \<open>The property\<close>

lemma put_back_pool:
  assumes "fc_pool c = Some p"
  shows "fc_pool (put_back env broken c) = Some (snd (release (fc_conn c) broken p)) \<and>
    (\<not> fst (release (fc_conn c) broken p) \<longrightarrow> fc_out (put_back env broken c) = fc_out c)"
  using assms by (auto simp: put_back_def close_session_def case_prod_beta Let_def)

lemma release_cases:
  "(release s broken p = (True, p\<lparr>cp_open := cp_open p - 1\<rparr>)) \<or>
   (\<not> broken \<and> release s broken p = (False, p\<lparr>cp_idle := cp_idle p @ [s]\<rparr>))"
  by (simp add: release_def)

text \<open>
  C13: \<open>MkdirAll\<close> over FTP leaves no pooled session astray. Whatever the server answers to any
  command, the session an operation took is either put back, idle, without a deadline and in
  the working directory it had when it was taken, or it is closed and its place in the pool
  is free again. (Working directories are only moved to see whether a directory that could
  not be made is there, and moved back; if moving back fails the session counts as broken.)
\<close>

theorem ftp_MkdirAll_comes_home:
  assumes con: "cwd_contract cwd env" and c: "fc_pool c \<noteq> None"
    and acq: "ftp_acquire env pr gs False c = Some (Inr s, c1)" "fc_pool c1 = Some p1"
    and run: "ftp_MkdirAll p env pr gs c = Some (err, c')"
  shows "\<exists>p'. fc_pool c' = Some p' \<and>
    ((\<exists>s'. cp_idle p' = cp_idle p1 @ [s'] \<and> cp_open p' = cp_open p1 \<and> control s' = control s \<and>
        fs_deadline s' = 0 \<and> cwd (fc_out c') (control s) = cwd (fc_out c1) (control s)) \<or>
     (cp_idle p' = cp_idle p1 \<and> cp_open p' = cp_open p1 - 1))"
proof -
  define c2 where "c2 = conn_begin env OperationTimeout (c1\<lparr>fc_conn := s\<rparr>)"
  obtain e c3 where body: "mkdirall_body env p c2 = (e, c3)" by fastforce
  have res: "c' = put_back env (sessionBroken e) (conn_end env c3)"
    using run c acq body
    by (cases e) (auto simp: ftp_MkdirAll_def withConn_err_def withConn_def c2_def [symmetric] unit_res_def
        err_of_def Let_def)
  show ?thesis
  proof (cases "home cwd c2 c3")
    case True
    have "home cwd (c1\<lparr>fc_conn := s\<rparr>) (conn_end env c3)"
      using home_trans [OF home_trans [OF conn_home(1) [OF con] True [unfolded c2_def]] conn_home(2) [OF con]] .
    then have h: "control (fc_conn (conn_end env c3)) = control s" "fc_pool (conn_end env c3) = Some p1"
      "cwd (fc_out (conn_end env c3)) (control s) = cwd (fc_out c1) (control s)"
      using acq(2) by (simp_all add: home_def control_def)
    note P = put_back_pool [OF h(2), of env "sessionBroken e"]
    show ?thesis
      using P release_cases [of "fc_conn (conn_end env c3)" "sessionBroken e" p1] h
      by (auto simp: res)
  next
    case False
    then have broken: "sessionBroken e" using mkdirall_body_home [OF con body] by blast
    have pool: "fc_pool c3 = Some p1"
      using mkdirall_body_pool [of env p c2] body acq(2) by (simp add: c2_def)
    then have "fc_pool (conn_end env c3) = Some p1" by simp
    from put_back_pool [OF this, of env "sessionBroken e"] show ?thesis
      using broken by (simp add: res release_def)
  qed
qed

end
