(* ===== verification/Ftp_Client.thy ===== *)
theory Ftp_Client
  imports Ftp_Atomic Ftp_Dirs
begin

text \<open>
  The FTP client used by one goroutine: its operations then always return, so it can stand
  where the program has a \<open>RemoteClient\<close>, and it keeps the promise the remote scan rests on.
\<close>

section \<open>One goroutine\<close>

text \<open>
  \<open>quiet p\<close>: nobody holds a session of the pool or dials one. \<open>alone\<close> runs an operation while
  nobody else uses the client; the other case does not happen (\<open>withConn_alone\<close>).
\<close>

definition quiet :: "'c connPool \<Rightarrow> bool" where
  "quiet p \<longleftrightarrow> cp_open p = int (length (cp_idle p)) \<and> cp_dialing p = 0 \<and> 1 \<le> cp_limit p"

definition quiet_client :: "('k, 'x) ftp \<Rightarrow> bool" where
  "quiet_client c \<longleftrightarrow> (case fc_pool c of None \<Rightarrow> True | Some p \<Rightarrow> quiet p)"

definition alone :: "(('k, 'x) ftp_others \<Rightarrow> ('k, 'x) ftp \<Rightarrow> ('a \<times> ('k, 'x) ftp) option) \<Rightarrow> 'a \<Rightarrow>
    ('k, 'x) ftp \<Rightarrow> 'a \<times> ('k, 'x) ftp" where
  "alone f other c = (case f [\<lambda>c. c] c of Some r \<Rightarrow> r | None \<Rightarrow> (other, c))"

lemma acquire_try_quiet:
  assumes "quiet p" "acquire_try False p = (a, p')"
  shows "(\<exists>s. a = Got s \<and> cp_open p' = int (length (cp_idle p')) + 1 \<and> cp_dialing p' = 0 \<and> 1 \<le> cp_limit p') \<or>
    (\<exists>e. a = AcqFail e \<and> p' = p) \<or>
    (a = StartDial \<and> cp_idle p' = [] \<and> cp_open p' = 1 \<and> cp_dialing p' = 1 \<and> 1 \<le> cp_limit p')"
proof (cases "cp_idle p" rule: rev_cases)
  case Nil
  then show ?thesis using assms by (auto simp: acquire_try_def quiet_def split: if_splits)
next
  case (snoc ids s)
  then show ?thesis using assms by (auto simp: acquire_try_def quiet_def split: if_splits)
qed

text \<open>A pool one of whose sessions is held.\<close>

definition lent :: "'c connPool \<Rightarrow> bool" where
  "lent p \<longleftrightarrow> cp_open p = int (length (cp_idle p)) + 1 \<and> cp_dialing p = 0 \<and> 1 \<le> cp_limit p"

lemma ftp_acquire_alone:
  assumes "fc_pool c = Some p" "quiet p"
  shows "\<exists>r c' p'. ftp_acquire env pr [\<lambda>c. c] False c = Some (r, c') \<and> fc_pool c' = Some p' \<and>
    (case r of Inl _ \<Rightarrow> quiet p' | Inr _ \<Rightarrow> lent p')"
proof -
  obtain a p1 where a: "acquire_try False p = (a, p1)" by fastforce
  consider (got) s where "a = Got s" "lent p1" | (failed) e where "a = AcqFail e" "p1 = p"
    | (dial) "a = StartDial" "cp_idle p1 = []" "cp_open p1 = 1" "cp_dialing p1 = 1" "1 \<le> cp_limit p1"
    using acquire_try_quiet [OF assms(2) a] by (auto simp: lent_def)
  then show ?thesis
  proof cases
    case dial
    obtain r c1 where d: "ftp_dial env pr (c\<lparr>fc_pool := Some p1\<rparr>) = (r, c1)" by fastforce
    have pool: "fc_pool c1 = Some p1"
      using d by (auto simp: ftp_dial_def on_disk_def Let_def split: prod.splits)
    show ?thesis
      using assms(1) a d pool dial
      by (cases r) (auto simp: dial_done_def Let_def lent_def quiet_def close_session_def)
  qed (use assms a in auto)
qed

lemma release_lent: "lent p \<Longrightarrow> quiet (snd (release s broken p))"
  by (auto simp: lent_def quiet_def release_def)

lemma conn_end_pool: "fc_pool (conn_end env c) = fc_pool c"
  by simp

section \<open>As a RemoteClient\<close>

text \<open>Errors where \<open>alone\<close> needs a result for the case that does not happen.\<close>

abbreviation stuck :: goerr where "stuck \<equiv> ErrorString ''waiting''"

definition ftp_client :: "('k, 'x) ftp RemoteClient \<Rightarrow> ('k, 'r, 'l, 't, 'x) ftp_env \<Rightarrow> Profile \<Rightarrow>
    ('k, 'x) ftp RemoteClient" where
  "ftp_client base env pr = base
    \<lparr>rc_Connect := ftp_Connect env pr, rc_Close := ftp_Close env, rc_IsAlive := ftp_IsAlive env,
     rc_Stat := (\<lambda>p. alone (ftp_Stat p env pr) (Inl stuck)),
     rc_ReadDir := (\<lambda>p. alone (ftp_ReadDir p env pr) (Inl stuck)),
     rc_Upload := (\<lambda>l r. alone (\<lambda>gs. ftp_Upload env pr gs l r) (Some stuck)),
     rc_UploadResume := (\<lambda>l r. alone (\<lambda>gs. ftp_UploadResume env pr gs l r) (Some stuck)),
     rc_Download := (\<lambda>r l. alone (\<lambda>gs. ftp_Download env pr gs r l) (Some stuck)),
     rc_Mkdir := (\<lambda>p. alone (ftp_Mkdir p env pr) (Some stuck)),
     rc_MkdirAll := (\<lambda>p. alone (ftp_MkdirAll p env pr) (Some stuck)),
     rc_Remove := (\<lambda>p. alone (ftp_Remove p env pr) (Some stuck)),
     rc_RemoveDir := (\<lambda>p. alone (ftp_RemoveDir p env pr) (Some stuck)),
     rc_Chmod := (\<lambda>p m. Pair (ftp_Chmod p m)),
     rc_Concurrent := Some (ftp_SupportsConcurrentRequests pr),
     rc_DownloadKnown := Some (\<lambda>r l n t. alone (\<lambda>gs. ftp_DownloadKnown env pr gs r l n t) (Some stuck))\<rparr>"

lemma listed_entries_safe: "safe_items (map (toRemote env c) (filter listed_entry es))"
  by (simp add: safe_items_def list_all_iff listed_entry_def toRemote_def Let_def)

lemma ftp_ReadDir_safe:
  assumes "ftp_ReadDir p env pr gs c = Some (r, c')"
  shows "safe_result r"
  using assms
  by (auto simp: ftp_ReadDir_def withConn_def Let_def safe_result_def listed_entries_safe case_prod_beta
      split: if_splits option.splits sum.splits)

interpretation ftp_scan: safe_listing "ftp_client base env pr"
  by unfold_locales
    (auto simp: ftp_client_def alone_def safe_result_def [of "Inl _"] split: option.split dest: ftp_ReadDir_safe)

section \<open>Every operation returns\<close>

lemma withConn_alone:
  assumes c: "fc_pool c = Some p" "quiet p" and fn: "\<And>c. fc_pool (snd (fn c)) = fc_pool c"
  shows "\<exists>r c'. withConn env pr [\<lambda>c. c] op timeout fn c = Some (r, c') \<and> quiet_client c'"
proof -
  obtain r c1 p1 where a: "ftp_acquire env pr [\<lambda>c. c] False c = Some (r, c1)" "fc_pool c1 = Some p1"
    "case r of Inl _ \<Rightarrow> quiet p1 | Inr _ \<Rightarrow> lent p1" using ftp_acquire_alone [OF c] by blast
  show ?thesis
  proof (cases r)
    case (Inl e)
    then show ?thesis using a c by (simp add: withConn_def quiet_client_def)
  next
    case (Inr s)
    define c2 where "c2 = conn_begin env timeout (c1\<lparr>fc_conn := s\<rparr>)"
    obtain q c3 where q: "fn c2 = (q, c3)" by fastforce
    have "fc_pool (conn_end env c3) = Some p1" using fn [of c2] q a(2) by (simp add: c2_def)
    from put_back_pool [OF this] have
      "fc_pool (put_back env b (conn_end env c3)) = Some (snd (release (fc_conn (conn_end env c3)) b p1))" for b
      by blast
    then have "quiet_client (put_back env b (conn_end env c3))" for b
      using release_lent a(3) Inr by (simp add: quiet_client_def)
    then show ?thesis using a c Inr q by (simp add: withConn_def c2_def [symmetric] Let_def)
  qed
qed

lemma withConn_err_alone:
  assumes "fc_pool c = Some p" "quiet p" and fn: "\<And>c. fc_pool (snd (fn c)) = fc_pool c"
  shows "\<exists>r c'. withConn_err env pr [\<lambda>c. c] op timeout fn c = Some (r, c') \<and> quiet_client c'"
proof -
  have "fc_pool (snd (let (err, c) = fn c in (unit_res err, c))) = fc_pool c" for c
    using fn by (simp add: case_prod_beta)
  from withConn_alone [OF assms(1,2), of "\<lambda>c. let (err, c) = fn c in (unit_res err, c)", OF this]
  obtain r c' where "withConn env pr [\<lambda>c. c] op timeout (\<lambda>c. let (err, c) = fn c in (unit_res err, c)) c
      = Some (r, c')" "quiet_client c'" by blast
  then show ?thesis by (simp add: withConn_err_def)
qed

named_theorems pool_frame \<open>operations that leave the pool alone\<close>

lemma on_disk_pool: "on_disk f c = (a, c') \<Longrightarrow> fc_pool c' = fc_pool c"
  by (auto simp: on_disk_def Let_def split: prod.splits)

lemma detectListOffset_pool [pool_frame]: "fc_pool (snd (detectListOffset env p e c)) = fc_pool c"
  by (auto simp: detectListOffset_def split: prod.split sum.split option.split dest!: cmd_pool)

lemma detect_loop_pool [pool_frame]: "fc_pool (detect_loop env p es c) = fc_pool c"
proof (induction es arbitrary: c)
  case (Cons e es)
  obtain b c1 where d: "detectListOffset env (RemotePath [p, en_Name e]) e c = (b, c1)" by fastforce
  then have "fc_pool c1 = fc_pool c" using detectListOffset_pool by (metis snd_conv)
  then show ?case using Cons d by (cases b) simp_all
qed simp

lemma ftpReplace_pool [pool_frame]: "fc_pool (snd (ftpReplace env a b c)) = fc_pool c"
  by (auto simp: ftpReplace_def split: prod.split option.split dest!: cmd_pool)

lemma finish_upload_pool [pool_frame]: "fc_pool (snd (finish_upload env op p info c)) = fc_pool c"
proof -
  have "fc_pool c' = fc_pool d" if "ftpReplace env a b d = (e, c')" for a b d e c'
    using that ftpReplace_pool by (metis snd_conv)
  then show ?thesis by (auto simp: finish_upload_def Let_def split: prod.split option.split)
qed

lemma store_pool [pool_frame]:
  "fc_pool (snd (store_from env q l n c)) = fc_pool c" "fc_pool (snd (store_whole env q l c)) = fc_pool c"
  by (auto simp: store_from_def store_whole_def split: prod.split option.split dest!: on_disk_pool)

lemma upload_whole_pool [pool_frame]: "fc_pool (snd (upload_whole env op l info p resume c)) = fc_pool c"
proof -
  have "fc_pool c' = fc_pool d" if "store_whole env q l d = (e, c')" for q d e c'
    using that store_pool(2) by (metis snd_conv)
  then show ?thesis by (auto simp: upload_whole_def Let_def pool_frame split: prod.split option.split)
qed

lemma ftp_resume_offset_pool [pool_frame]: "fc_pool (snd (ftp_resume_offset env q info resume c)) = fc_pool c"
  by (auto simp: ftp_resume_offset_def split: prod.split sum.split dest!: cmd_pool)

lemma upload_body_pool [pool_frame]: "fc_pool (snd (upload_body env op l info p resume c)) = fc_pool c"
proof -
  have "fc_pool c' = fc_pool d" if "store_from env q l n d = (e, c')" for q n d e c'
    using that store_pool(1) by (metis snd_conv)
  moreover have "fc_pool c' = fc_pool d" if "ftp_resume_offset env q info resume d = (e, c')" for q d e c'
    using that ftp_resume_offset_pool by (metis snd_conv)
  ultimately show ?thesis by (auto simp: upload_body_def Let_def pool_frame split: prod.split option.split)
qed

lemma download_budget_pool [pool_frame]: "fc_pool (snd (download_budget env r known c)) = fc_pool c"
  by (auto simp: download_budget_def Let_def pool_frame split: prod.split sum.split option.split dest!: cmd_pool)

lemma download_body_pool [pool_frame]: "fc_pool (snd (download_body env r l known c)) = fc_pool c"
  unfolding download_body_def Let_def case_prod_beta
  by (auto simp: pool_frame split: sum.split)

lemma listing_pool [pool_frame]:
  "fc_pool (snd (case cmd f c of (Inl err, c) \<Rightarrow> (Inl (g err), c)
    | (Inr entries, c) \<Rightarrow> (let c = detect_loop env p entries c in (Inr (h c entries), c)))) = fc_pool c"
  "fc_pool (snd (case cmd f1 c of (Inl err, c) \<Rightarrow> (Inl (g1 err), c)
    | (Inr e, c) \<Rightarrow> (let c = snd (detectListOffset env p e c) in (Inr (h1 c e), c)))) = fc_pool c"
  by (auto simp: pool_frame Let_def split: prod.split sum.split dest!: cmd_pool)


end
