(* ===== verification/Ftp_Example.thy ===== *)
theory Ftp_Example
  imports Ftp_Client
begin

text \<open>
  Runs of the FTP client against a server with files, directories and one working
  directory, listing times five and three quarter hours ahead of UTC.
\<close>

record fx =
  fx_files :: "(string \<times> string) list"
  fx_dirs :: "string list"
  fx_cwd :: string
  fx_next :: nat
  fx_lpos :: nat

definition fx_sess :: "(nat, fx) fs_env" where
  "fx_sess = \<lparr>fe_Now = (\<lambda>x. 2 ^ 62), fe_DialTCP = (\<lambda>a x. (Inr (fx_next x), x\<lparr>fx_next := Suc (fx_next x)\<rparr>)),
     fe_SetDeadline = (\<lambda>k t x. x), fe_CloseSock = (\<lambda>k x. x),
     lib_Dial = (\<lambda>f a s x. case f a s x of (Inl e, s, x) \<Rightarrow> (Some e, s, x) | (Inr n, s, x) \<Rightarrow> (None, s, x)),
     lib_Login = (\<lambda>k u p t x. (None, x)), lib_Quit = (\<lambda>k t x. (None, x))\<rparr>"

definition fx_put :: "string \<Rightarrow> string \<Rightarrow> fx \<Rightarrow> fx" where
  "fx_put p c x = x\<lparr>fx_files := AList.update p c (fx_files x)\<rparr>"

definition fx_no :: goerr where "fx_no = TextprotoError 550 ''refused''"

definition fx_env :: "(nat, unit, string, unit, fx) ftp_env" where
  "fx_env = \<lparr>fe_sess = fx_sess, fe_ReadFile = (\<lambda>p x. Inl fx_no), fe_AppendCertsFromPEM = (\<lambda>b. True),
     fl_NoOp = (\<lambda>k t x. (None, x)), fl_GetEntry = (\<lambda>p k t x. (Inl fx_no, x)),
     fl_List = (\<lambda>p k t x. (Inr [], x)),
     fl_FileSize = (\<lambda>p k t x. (case map_of (fx_files x) p of Some c \<Rightarrow> Inr (int (length c)) | None \<Rightarrow> Inl fx_no, x)),
     fl_GetTime = (\<lambda>p k t x. (Inr (2 ^ 62 - 1000 * Second), x)),
     fl_IsTimePreciseInList = (\<lambda>k. False), fl_IsGetTimeSupported = (\<lambda>k. True),
     fl_IsSetTimeSupported = (\<lambda>k. True), fl_SetTime = (\<lambda>p m k t x. (None, x)),
     fl_Stor = (\<lambda>p l k t x. (None, fx_put p (drop (fx_lpos x) l) x)),
     fl_StorFrom = (\<lambda>p l n k t x. (None, fx_put p
        (take (nat n) (the (map_of (fx_files x) p)) @ drop (fx_lpos x) l) x)),
     fl_Delete = (\<lambda>p k t x. (None, x\<lparr>fx_files := AList.delete p (fx_files x)\<rparr>)),
     fl_Rename = (\<lambda>a b k t x. case map_of (fx_files x) a of None \<Rightarrow> (Some fx_no, x)
        | Some c \<Rightarrow> (None, fx_put b c (x\<lparr>fx_files := AList.delete a (fx_files x)\<rparr>))),
     fl_Retr = (\<lambda>p k t x. (Inl fx_no, x)), fl_CloseResp = (\<lambda>r t x. (None, x)),
     fl_MakeDir = (\<lambda>p k t x. if p \<in> set (fx_dirs x) then (Some fx_no, x)
        else (None, x\<lparr>fx_dirs := p # fx_dirs x\<rparr>)),
     fl_RemoveDir = (\<lambda>p k t x. (None, x)), fl_CurrentDir = (\<lambda>k t x. (Inr (fx_cwd x), x)),
     fl_ChangeDir = (\<lambda>p k t x. if p \<in> set (fx_dirs x) then (None, x\<lparr>fx_cwd := p\<rparr>) else (Some fx_no, x)),
     fo_Open = (\<lambda>p x. (Inr ''hello'', x\<lparr>fx_lpos := 0\<rparr>)),
     fo_Stat = (\<lambda>l x. Inr \<lparr>fi_Name = ''f'', fi_Size = int (length l), fi_ModTime = 2 ^ 61,
        fi_Kind = KRegular, fi_Perm = 420\<rparr>),
     fo_Seek = (\<lambda>l n x. (None, x\<lparr>fx_lpos := nat n\<rparr>)), fo_Close = (\<lambda>l x. x),
     fo_MkdirAll = (\<lambda>p x. (None, x)),
     fo_os = (\<lambda>d. \<lparr>lo_CreateTemp = (\<lambda>d p x. (Inr (), x)), lo_Name = (\<lambda>t. ''''),
       lo_Copy = (\<lambda>t r x. ((0, None), x)), lo_Close = (\<lambda>t x. (None, x)), lo_Lstat = (\<lambda>p x. Inl fx_no),
       lo_Chmod = (\<lambda>p m x. (None, x)), lo_Chtimes = (\<lambda>p a m x. (None, x)),
       lo_Rename = (\<lambda>p q x. (None, x)), lo_Remove = (\<lambda>p x. (None, x))\<rparr>)\<rparr>"

definition fx_profile :: Profile where
  "fx_profile = \<lparr>p_Host = ''h'', p_Username = ''u'', p_Password = ''p'', p_SSHKey = '''', p_Port = 21,
     p_Protocol = ''ftps'', p_RemotePath = ''/'', p_Context = ''/c'', p_AutoSync = False,
     p_AutoSyncDebounce = 0, p_AutoSyncDeletes = False, p_VerifyHostKey = None,
     p_FTPConnections = 2, p_TLSCACert = ''''\<rparr>"

text \<open>Connected, with one idle session; on the server \<open>/w/f\<close>, a partial of it, and \<open>/w\<close>.\<close>

definition fx_world :: fx where
  "fx_world = \<lparr>fx_files = [(''/w/f'', ''old''), (''/w/.f.sfync-part'', ''he'')],
     fx_dirs = [''/w'', ''/''], fx_cwd = ''/'', fx_next = 1, fx_lpos = 0\<rparr>"

definition fx_session :: "nat ftpSession" where
  "fx_session = (new_session True)\<lparr>fs_ServerConn := True, fs_control := Some 0\<rparr>"

definition fx_pool :: "nat ftpSession connPool" where
  "fx_pool = seed fx_session (newConnPool 2)"

definition fx_client :: "(nat, fx) ftp" where
  "fx_client = \<lparr>fc_pool = Some fx_pool, fc_tlsConfig = True, fc_listOffset = 0, fc_listOffsetKnown = False,
     fc_listOffsetTries = 0, fc_conn = fx_session, fc_out = fx_world\<rparr>"

section \<open>Uploads\<close>

definition fx_view :: "(string, fx) up_view" where
  "fx_view = \<lparr>uv_rd = (\<lambda>x. map_of (fx_files x)), uv_local = (\<lambda>p. ''hello''), uv_bytes = (\<lambda>l. l),
     uv_lpos = (\<lambda>x l. fx_lpos x)\<rparr>"

lemma fx_store: "store_contract fx_view fx_env"
  by (auto simp: store_contract_def fx_env_def fx_view_def only_path_def fx_put_def fx_no_def
      update_conv' delete_conv' fun_eq_iff split: option.splits)

lemma fx_calm: "calm_contract fx_view fx_env"
proof -
  have "calm fx_view x (snd (dialFTPSession fx_sess a u p tls x))" for a u p tls x
    by (simp add: dialFTPSession_def fx_sess_def session_begin_def new_session_def control_list_def
        set_deadlines_def session_dial_def session_end_def Let_def calm_def fx_view_def)
  moreover have "calm fx_view x (session_close fx_sess s x)" for s x
  proof -
    have "closeRaw fx_sess s x = x" for s x
      by (simp add: closeRaw_def fx_sess_def control_list_def fold_invariant [where P = "\<lambda>y. y = x" and Q = "\<lambda>_. True"])
    moreover have "set_deadlines fx_sess ks t x = x" for ks t x
      by (induction ks) (simp_all add: set_deadlines_def fx_sess_def)
    ultimately show ?thesis
      by (simp add: session_close_def session_begin_def Let_def) (simp add: fx_sess_def)
  qed
  ultimately show ?thesis
    by (auto simp: calm_contract_def fx_env_def calm_def fx_view_def fx_sess_def split: option.splits)
qed

text \<open>The partial of an earlier attempt is continued and swapped in.\<close>

lemma fx_upload_run:
  "map_option (\<lambda>r. (fst r, fx_files (fc_out (snd r))))
     (ftp_upload fx_env fx_profile [] ''/c/f'' ''/w/f'' True fx_client) = Some (None, [(''/w/f'', ''hello'')])"
  by code_simp

theorem ftp_upload_atomic_witness:
  "\<exists>c new. ftp_upload fx_env fx_profile [] ''/c/f'' ''/w/f'' True fx_client = Some (None, c) \<and>
     ftp_contents fx_view True ''hello'' (Some ''he'') new \<and> uv_rd fx_view (fc_out c) ''/w/f'' = Some new"
proof -
  obtain c where c: "ftp_upload fx_env fx_profile [] ''/c/f'' ''/w/f'' True fx_client = Some (None, c)"
    using fx_upload_run by auto
  have part: "uv_rd fx_view (fc_out fx_client) (remotePartialPath ''/w/f'') = Some ''he''" by code_simp
  have loc: "uv_local fx_view ''/c/f'' = ''hello''" by (simp add: fx_view_def)
  have "others_calm fx_view []" by (simp add: others_calm_def)
  from ftp_upload_atomic [OF fx_store fx_calm this c] show ?thesis using c part loc by auto
qed

section \<open>Directories\<close>

lemma fx_cwd_contract: "cwd_contract (\<lambda>x k. fx_cwd x) fx_env"
  by (auto simp: cwd_contract_def stays_def fx_env_def fx_sess_def)

lemma fx_mkdir_run:
  "map_option (\<lambda>r. (fst r, fx_dirs (fc_out (snd r))))
     (ftp_MkdirAll ''/w/a'' fx_env fx_profile [] fx_client) = Some (None, [''/w/a'', ''/w'', ''/''])"
  by code_simp

text \<open>\<open>/w\<close> is there already, so the client goes there and back, and the session is idle again.\<close>

theorem ftp_MkdirAll_comes_home_witness:
  "\<exists>err c p. ftp_MkdirAll ''/w/a'' fx_env fx_profile [] fx_client = Some (err, c) \<and> fc_pool c = Some p \<and>
     (cp_idle p = [] \<or> fx_cwd (fc_out c) = ''/'')"
proof -
  obtain err c where run: "ftp_MkdirAll ''/w/a'' fx_env fx_profile [] fx_client = Some (err, c)"
    using fx_mkdir_run by auto
  let ?c = "fx_client\<lparr>fc_pool := Some (fx_pool\<lparr>cp_idle := []\<rparr>)\<rparr>"
  have a: "ftp_acquire fx_env fx_profile [] False fx_client = Some (Inr fx_session, ?c)"
    by (simp add: fx_client_def fx_pool_def seed_def newConnPool_def acquire_try_def)
  have pool: "fc_pool fx_client \<noteq> None" "fc_pool ?c = Some (fx_pool\<lparr>cp_idle := []\<rparr>)"
    by (simp_all add: fx_client_def)
  from ftp_MkdirAll_comes_home [OF fx_cwd_contract pool(1) a pool(2) run] show ?thesis
    using run by (auto simp: fx_client_def fx_world_def)
qed

section \<open>Times\<close>

definition fx_probe :: Entry where
  "fx_probe = \<lparr>en_Name = ''f'', en_Type = EntryTypeFile, en_Size = 5,
     en_Time = 2 ^ 62 - 1000 * Second + 20700 * Second - 59 * Second\<rparr>"

definition fx_local :: FileInfo where
  "fx_local = \<lparr>fi_Name = ''f'', fi_Size = 5, fi_ModTime = 2 ^ 62 - 1000 * Second + 3,
     fi_Kind = KRegular, fi_Perm = 420\<rparr>"


section \<open>Returning\<close>


end
