(* ===== verification/Queue_Workers.thy ===== *)
theory Queue_Workers
  imports Sfync_Prelude
begin

text \<open>
  The scheduling half of internal/watcher/queue.go: \<open>claim\<close>, \<open>finish\<close> and the workers
  \<open>Start\<close> runs. What a worker does with a file between the two is in \<open>Upload_Queue\<close>.
\<close>

section \<open>Tasks in flight\<close>

record uploadTask =
  ut_profileName :: string
  ut_filePath :: string

definition taskKey :: "uploadTask \<Rightarrow> string" where
  "taskKey t = ut_profileName t @ [CHR 0x00] @ ut_filePath t"

record flight =
  fl_inFlight :: "string set"
  fl_pending :: "string \<Rightarrow> uploadTask option"

definition claim :: "uploadTask \<Rightarrow> flight \<Rightarrow> bool \<times> flight" where
  "claim task f =
    (let key = taskKey task in
     if key \<in> fl_inFlight f then (False, f\<lparr>fl_pending := (fl_pending f)(key \<mapsto> task)\<rparr>)
     else (True, f\<lparr>fl_inFlight := insert key (fl_inFlight f)\<rparr>))"

definition finish :: "uploadTask \<Rightarrow> flight \<Rightarrow> uploadTask option \<times> flight" where
  "finish task f =
    (let key = taskKey task; f = f\<lparr>fl_inFlight := fl_inFlight f - {key}\<rparr> in
     case fl_pending f key of
       None \<Rightarrow> (None, f)
     | Some next \<Rightarrow> (Some next, f\<lparr>fl_pending := (fl_pending f)(key := None)\<rparr>))"

section \<open>The workers\<close>

definition queueWorkers :: nat where "queueWorkers = 8"
definition queueCap :: nat where "queueCap = 100"

text \<open>
  A worker waits for a task, has one it is about to claim, is processing one it has
  claimed, or has returned because \<open>Stop\<close> closed \<open>done\<close>. \<open>wq_clock\<close> counts the steps; the ghost fields record when a key was last
  enqueued and when its processing last began.
\<close>

datatype worker = Waiting | HasTask uploadTask | Processing uploadTask | Returned

record wq_state =
  wq_queue :: "uploadTask list"
  wq_flight :: flight
  wq_workers :: "worker list"
  wq_done :: bool
  wq_clock :: nat
  wq_enqueued :: "string \<Rightarrow> nat"
  wq_begun :: "string \<Rightarrow> nat"

definition wq_init :: "nat \<Rightarrow> wq_state" where
  "wq_init n = \<lparr>wq_queue = [], wq_flight = \<lparr>fl_inFlight = {}, fl_pending = Map.empty\<rparr>,
     wq_workers = replicate n Waiting, wq_done = False, wq_clock = 1, wq_enqueued = (\<lambda>k. 0), wq_begun = (\<lambda>k. 0)\<rparr>"

datatype wq_event =
    QEnqueue uploadTask | QDrop uploadTask | QTake nat | QClaim nat | QFinish nat | QStop | QReturn nat

definition worker_at :: "nat \<Rightarrow> wq_state \<Rightarrow> worker option" where
  "worker_at i s = (if i < length (wq_workers s) then Some (wq_workers s ! i) else None)"

definition set_worker :: "nat \<Rightarrow> worker \<Rightarrow> wq_state \<Rightarrow> wq_state" where
  "set_worker i pc s = s\<lparr>wq_workers := (wq_workers s)[i := pc]\<rparr>"

definition tick :: "wq_state \<Rightarrow> wq_state" where
  "tick s = s\<lparr>wq_clock := Suc (wq_clock s)\<rparr>"

text \<open>
  \<open>Enqueue\<close> blocks while the channel is full, so it is a step only if there is room, or if
  \<open>done\<close> is closed, when it may also drop the task (\<open>QDrop\<close>). A waiting worker takes a
  task or, after \<open>Stop\<close>, returns.
\<close>

fun wq_next :: "wq_event \<Rightarrow> wq_state \<Rightarrow> wq_state option" where
  "wq_next (QEnqueue t) s =
    (if length (wq_queue s) < queueCap then
       Some (tick (s\<lparr>wq_queue := wq_queue s @ [t],
         wq_enqueued := (wq_enqueued s)(taskKey t := wq_clock s)\<rparr>))
     else None)"
| "wq_next (QTake i) s =
    (case (worker_at i s, wq_queue s) of
       (Some Waiting, t # ts) \<Rightarrow> Some (tick (set_worker i (HasTask t) s\<lparr>wq_queue := ts\<rparr>))
     | _ \<Rightarrow> None)"
| "wq_next (QClaim i) s =
    (case worker_at i s of
       Some (HasTask t) \<Rightarrow>
         (case claim t (wq_flight s) of
            (False, f) \<Rightarrow> Some (tick (set_worker i Waiting s\<lparr>wq_flight := f\<rparr>))
          | (True, f) \<Rightarrow> Some (tick (set_worker i (Processing t) s
              \<lparr>wq_flight := f, wq_begun := (wq_begun s)(taskKey t := wq_clock s)\<rparr>)))
     | _ \<Rightarrow> None)"
| "wq_next (QFinish i) s =
    (case worker_at i s of
       Some (Processing t) \<Rightarrow>
         (case finish t (wq_flight s) of
            (next, f) \<Rightarrow> Some (tick (set_worker i
               (case next of None \<Rightarrow> Waiting | Some t' \<Rightarrow> HasTask t') s\<lparr>wq_flight := f\<rparr>)))
     | _ \<Rightarrow> None)"
| "wq_next (QDrop t) s = (if wq_done s then Some (tick s) else None)"
| "wq_next QStop s = (if wq_done s then None else Some (tick (s\<lparr>wq_done := True\<rparr>)))"
| "wq_next (QReturn i) s =
    (if worker_at i s = Some Waiting \<and> wq_done s then Some (tick (set_worker i Returned s)) else None)"

inductive wq_reach :: "nat \<Rightarrow> wq_state \<Rightarrow> bool" for n where
  wq_start: "wq_reach n (wq_init n)"
| wq_step: "wq_reach n s \<Longrightarrow> wq_next ev s = Some t \<Longrightarrow> wq_reach n t"

section \<open>The invariant\<close>

text \<open>
  A key is in flight exactly while one worker processes it; only such a key has a pending
  task; a key whose last enqueuing is not followed by a processing is still somewhere.
\<close>

fun processing_key :: "worker \<Rightarrow> string list" where
  "processing_key (Processing t) = [taskKey t]"
| "processing_key _ = []"

fun has_key :: "worker \<Rightarrow> string list" where
  "has_key (HasTask t) = [taskKey t]"
| "has_key _ = []"

definition keys_of :: "(worker \<Rightarrow> string list) \<Rightarrow> worker list \<Rightarrow> string list" where
  "keys_of f ws = concat (map f ws)"

definition waiting_keys :: "wq_state \<Rightarrow> string set" where
  "waiting_keys s = taskKey ` set (wq_queue s) \<union> set (keys_of has_key (wq_workers s)) \<union>
     dom (fl_pending (wq_flight s))"

definition wq_inv :: "wq_state \<Rightarrow> bool" where
  "wq_inv s \<longleftrightarrow>
     distinct (keys_of processing_key (wq_workers s)) \<and>
     fl_inFlight (wq_flight s) = set (keys_of processing_key (wq_workers s)) \<and>
     (\<forall>k t. fl_pending (wq_flight s) k = Some t \<longrightarrow> taskKey t = k \<and> k \<in> fl_inFlight (wq_flight s)) \<and>
     (\<forall>k. k \<in> waiting_keys s \<or> wq_enqueued s k \<le> wq_begun s k) \<and>
     (\<forall>k. wq_enqueued s k < wq_clock s \<and> wq_begun s k < wq_clock s)"

lemma keys_of_simps [simp]:
  "keys_of f (xs @ ys) = keys_of f xs @ keys_of f ys" "keys_of f (w # ws) = f w @ keys_of f ws"
  "keys_of f [] = []"
  by (simp_all add: keys_of_def)

lemma worker_split:
  assumes "worker_at i s = Some w"
  obtains xs ys where "wq_workers s = xs @ w # ys" "length xs = i"
proof -
  have i: "i < length (wq_workers s)" "wq_workers s ! i = w"
    using assms by (auto simp: worker_at_def split: if_splits)
  show ?thesis
    using that [of "take i (wq_workers s)" "drop (Suc i) (wq_workers s)"]
      id_take_nth_drop [OF i(1)] i by simp
qed

lemma take_inv:
  assumes "wq_inv s" "wq_next (QTake i) s = Some u"
  shows "wq_inv u"
proof -
  obtain t ts where w: "worker_at i s = Some Waiting" and q: "wq_queue s = t # ts"
    and u: "u = tick (set_worker i (HasTask t) s\<lparr>wq_queue := ts\<rparr>)"
    using assms(2) by (auto split: option.splits worker.splits list.splits)
  obtain xs ys where xs: "wq_workers s = xs @ Waiting # ys" "length xs = i" using worker_split [OF w] .
  have "waiting_keys u = waiting_keys s"
    using xs q by (auto simp: u tick_def set_worker_def waiting_keys_def list_update_append)
  then show ?thesis
    using assms(1) xs by (auto simp: wq_inv_def u tick_def set_worker_def list_update_append less_Suc_eq)
qed

lemma enqueue_inv:
  assumes "wq_inv s" "wq_next (QEnqueue t) s = Some u"
  shows "wq_inv u"
proof -
  have u: "u = tick (s\<lparr>wq_queue := wq_queue s @ [t],
      wq_enqueued := (wq_enqueued s)(taskKey t := wq_clock s)\<rparr>)"
    using assms(2) by (auto split: if_splits)
  have "waiting_keys u = insert (taskKey t) (waiting_keys s)"
    by (auto simp: u tick_def waiting_keys_def)
  then show ?thesis
    using assms(1) by (auto simp: wq_inv_def u tick_def less_Suc_eq)
qed

lemma claim_inv:
  assumes "wq_inv s" "wq_next (QClaim i) s = Some u"
  shows "wq_inv u"
proof -
  obtain t where w: "worker_at i s = Some (HasTask t)"
    using assms(2) by (auto split: option.splits worker.splits)
  obtain xs ys where xs: "wq_workers s = xs @ HasTask t # ys" "length xs = i" using worker_split [OF w] .
  show ?thesis
  proof (cases "taskKey t \<in> fl_inFlight (wq_flight s)")
    case True
    then have u: "u = tick (set_worker i Waiting s\<lparr>wq_flight :=
        (wq_flight s)\<lparr>fl_pending := (fl_pending (wq_flight s))(taskKey t \<mapsto> t)\<rparr>\<rparr>)"
      using assms(2) w by (simp add: claim_def Let_def)
    have "waiting_keys u = waiting_keys s"
      using xs by (auto simp: u tick_def set_worker_def waiting_keys_def list_update_append)
    then show ?thesis
      using assms(1) True xs
      by (auto simp: wq_inv_def u tick_def set_worker_def list_update_append less_Suc_eq)
  next
    case False
    then have u: "u = tick (set_worker i (Processing t) s\<lparr>wq_flight :=
        (wq_flight s)\<lparr>fl_inFlight := insert (taskKey t) (fl_inFlight (wq_flight s))\<rparr>,
        wq_begun := (wq_begun s)(taskKey t := wq_clock s)\<rparr>)"
      using assms(2) w by (simp add: claim_def Let_def)
    have "waiting_keys s = insert (taskKey t) (waiting_keys u)"
      using xs by (auto simp: u tick_def set_worker_def waiting_keys_def list_update_append)
    then show ?thesis
      using assms(1) False xs
      by (auto simp: wq_inv_def u tick_def set_worker_def list_update_append less_Suc_eq
          intro: less_imp_le)
  qed
qed

lemma finish_inv:
  assumes "wq_inv s" "wq_next (QFinish i) s = Some u"
  shows "wq_inv u"
proof -
  obtain t where w: "worker_at i s = Some (Processing t)"
    using assms(2) by (auto split: option.splits worker.splits)
  obtain xs ys where xs: "wq_workers s = xs @ Processing t # ys" "length xs = i" using worker_split [OF w] .
  show ?thesis
  proof (cases "fl_pending (wq_flight s) (taskKey t)")
    case None
    then have u: "u = tick (set_worker i Waiting s\<lparr>wq_flight :=
        (wq_flight s)\<lparr>fl_inFlight := fl_inFlight (wq_flight s) - {taskKey t}\<rparr>\<rparr>)"
      using assms(2) w by (simp add: finish_def Let_def)
    have "waiting_keys u = waiting_keys s"
      using xs by (auto simp: u tick_def set_worker_def waiting_keys_def list_update_append)
    moreover have "k \<noteq> taskKey t" if "fl_pending (wq_flight s) k = Some t'" for k t'
      using None that by auto
    ultimately show ?thesis
      using assms(1) None xs
      by (fastforce simp: wq_inv_def u tick_def set_worker_def list_update_append less_Suc_eq)
  next
    case (Some t')
    then have u: "u = tick (set_worker i (HasTask t') s\<lparr>wq_flight :=
        (wq_flight s)\<lparr>fl_inFlight := fl_inFlight (wq_flight s) - {taskKey t},
          fl_pending := (fl_pending (wq_flight s))(taskKey t := None)\<rparr>\<rparr>)"
      using assms(2) w by (simp add: finish_def Let_def)
    have "taskKey t' = taskKey t" using assms(1) Some by (simp add: wq_inv_def)
    then have "waiting_keys u = waiting_keys s"
      using xs Some by (auto simp: u tick_def set_worker_def waiting_keys_def list_update_append)
    then show ?thesis
      using assms(1) Some xs
      by (auto simp: wq_inv_def u tick_def set_worker_def list_update_append less_Suc_eq)
  qed
qed

lemma stop_inv:
  assumes "wq_inv s" "wq_next ev s = Some u" "ev = QStop \<or> ev = QReturn i \<or> ev = QDrop t"
  shows "wq_inv u"
proof (cases "ev = QReturn i")
  case True
  then have w: "worker_at i s = Some Waiting" and u: "u = tick (set_worker i Returned s)"
    using assms(2) by (auto split: if_splits)
  obtain xs ys where xs: "wq_workers s = xs @ Waiting # ys" "length xs = i" using worker_split [OF w] .
  have "waiting_keys u = waiting_keys s"
    using xs by (auto simp: u tick_def set_worker_def waiting_keys_def list_update_append)
  then show ?thesis
    using assms(1) xs by (auto simp: wq_inv_def u tick_def set_worker_def list_update_append less_Suc_eq)
next
  case False
  then have "u = tick s \<or> u = tick (s\<lparr>wq_done := True\<rparr>)"
    using assms(2,3) by (auto split: if_splits)
  moreover have "waiting_keys (tick s) = waiting_keys s"
    "waiting_keys (tick (s\<lparr>wq_done := True\<rparr>)) = waiting_keys s"
    by (simp_all add: tick_def waiting_keys_def)
  ultimately show ?thesis using assms(1) by (auto simp: wq_inv_def tick_def less_Suc_eq)
qed

lemma wq_reach_inv: "wq_reach n s \<Longrightarrow> wq_inv s"
proof (induction rule: wq_reach.induct)
  case wq_start
  have "keys_of f (replicate n Waiting) = []" if "f Waiting = []" for f
    using that by (induction n) simp_all
  then show ?case by (simp add: wq_inv_def wq_init_def)
next
  case (wq_step s ev t)
  then show ?case
    using enqueue_inv take_inv claim_inv finish_inv stop_inv by (cases ev) blast+
qed

section \<open>What the queue guarantees\<close>

lemma processing_split:
  assumes "wq_inv s" "worker_at i s = Some (Processing t)" "worker_at j s = Some (Processing t')"
    and "taskKey t = taskKey t'"
  shows "i = j"
proof (rule ccontr)
  assume ne: "i \<noteq> j"
  obtain xs ys where xs: "wq_workers s = xs @ Processing t # ys" "length xs = i"
    using worker_split [OF assms(2)] .
  have d: "taskKey t \<notin> set (keys_of processing_key xs)" "taskKey t \<notin> set (keys_of processing_key ys)"
    using assms(1) xs by (auto simp: wq_inv_def)
  have j: "j < length (wq_workers s)" "(xs @ Processing t # ys) ! j = Processing t'"
    using assms(3) xs by (auto simp: worker_at_def split: if_splits)
  have "Processing t' \<in> set xs \<union> set ys"
  proof (cases "j < length xs")
    case True
    then show ?thesis using j(2) nth_mem [of j xs] by (simp add: nth_append)
  next
    case False
    then have "j - Suc (length xs) < length ys" "ys ! (j - Suc (length xs)) = Processing t'"
      using j xs ne by (simp_all add: nth_append)
    then have "Processing t' \<in> set ys" by (metis nth_mem)
    then show ?thesis by simp
  qed
  then have "taskKey t' \<in> set (keys_of processing_key xs) \<union> set (keys_of processing_key ys)"
    by (force simp: keys_of_def)
  then show False using d assms(4) by simp
qed

definition quiescent :: "wq_state \<Rightarrow> bool" where
  "quiescent s \<longleftrightarrow> wq_queue s = [] \<and> (\<forall>w \<in> set (wq_workers s). w = Waiting)"

text \<open>
  C11: a file is never synced by two workers at once, and no change is lost. In every
  reachable state two workers that process the same file are the same worker, and a
  pending task exists only for a file being processed; and when the queue is empty and
  all workers wait, nothing is pending and the last processing of every file began after
  its last enqueuing. When \<open>Stop\<close> has waited for all workers, no upload is in flight and
  none is parked.
\<close>

theorem queue_exclusive_and_complete:
  assumes "wq_reach n s"
  shows "(\<forall>i j t t'. worker_at i s = Some (Processing t) \<and> worker_at j s = Some (Processing t') \<and>
      taskKey t = taskKey t' \<longrightarrow> i = j) \<and>
    (\<forall>k t. fl_pending (wq_flight s) k = Some t \<longrightarrow>
      (\<exists>i t'. worker_at i s = Some (Processing t') \<and> taskKey t' = k)) \<and>
    (quiescent s \<longrightarrow> fl_pending (wq_flight s) = Map.empty \<and>
      (\<forall>k. wq_enqueued s k \<le> wq_begun s k)) \<and>
    ((\<forall>w \<in> set (wq_workers s). w = Returned) \<longrightarrow>
      fl_inFlight (wq_flight s) = {} \<and> fl_pending (wq_flight s) = Map.empty)"
proof -
  have inv: "wq_inv s" by (rule wq_reach_inv [OF assms])
  have pending: "\<exists>i t'. worker_at i s = Some (Processing t') \<and> taskKey t' = k"
    if "fl_pending (wq_flight s) k = Some t" for k t
  proof -
    have "k \<in> set (keys_of processing_key (wq_workers s))" using inv that by (auto simp: wq_inv_def)
    then obtain w where w: "w \<in> set (wq_workers s)" "k \<in> set (processing_key w)"
      by (auto simp: keys_of_def)
    from w(2) obtain t' where "w = Processing t'" "taskKey t' = k" by (cases w) auto
    then show ?thesis using w(1) by (auto simp: in_set_conv_nth worker_at_def)
  qed
  have quiet: "fl_pending (wq_flight s) = Map.empty \<and> (\<forall>k. wq_enqueued s k \<le> wq_begun s k)"
    if q: "quiescent s"
  proof -
    have none: "keys_of f (wq_workers s) = []" if "f Waiting = []" for f
      using q that by (auto simp: quiescent_def keys_of_def)
    have "fl_pending (wq_flight s) k = None" for k
      using inv none [of processing_key] by (cases "fl_pending (wq_flight s) k") (auto simp: wq_inv_def)
    then have p: "fl_pending (wq_flight s) = Map.empty" by blast
    then have "waiting_keys s = {}" using q none [of has_key] by (simp add: waiting_keys_def quiescent_def)
    then show ?thesis using inv p by (auto simp: wq_inv_def)
  qed
  have stopped: "fl_inFlight (wq_flight s) = {} \<and> fl_pending (wq_flight s) = Map.empty"
    if r: "\<forall>w \<in> set (wq_workers s). w = Returned"
  proof -
    have "keys_of processing_key (wq_workers s) = []" using r by (auto simp: keys_of_def)
    then have none: "fl_inFlight (wq_flight s) = {}" using inv by (simp add: wq_inv_def)
    have "fl_pending (wq_flight s) k = None" for k
      using inv none by (cases "fl_pending (wq_flight s) k") (auto simp: wq_inv_def)
    then show ?thesis using none by blast
  qed
  show ?thesis using processing_split [OF inv] pending quiet stopped by blast
qed

lemma no_return_before_stop: "wq_reach n s \<Longrightarrow> \<not> wq_done s \<Longrightarrow> Returned \<notin> set (wq_workers s)"
proof (induction rule: wq_reach.induct)
  case (wq_step s ev t)
  then show ?case
    by (cases ev) (auto simp: tick_def set_worker_def split: option.splits worker.splits
        list.splits prod.splits bool.splits if_splits dest!: set_update_subset_insert [THEN subsetD])
qed (simp add: wq_init_def)

lemma workers_length: "wq_reach n s \<Longrightarrow> length (wq_workers s) = n"
proof (induction rule: wq_reach.induct)
  case (wq_step s ev t)
  then show ?case
    by (cases ev) (auto simp: tick_def set_worker_def split: option.splits worker.splits
        list.splits prod.splits bool.splits if_splits)
qed (simp add: wq_init_def)

lemma busy_step:
  assumes "worker_at i s = Some w" "w \<noteq> Waiting" "w \<noteq> Returned"
  shows "\<exists>ev t. ev \<in> {QClaim i, QFinish i} \<and> wq_next ev s = Some t"
proof (cases w)
  case (HasTask t)
  then have "wq_next (QClaim i) s \<noteq> None"
    using assms by (auto simp: claim_def Let_def split: prod.splits bool.splits)
  then show ?thesis by blast
next
  case (Processing t)
  then have "wq_next (QFinish i) s \<noteq> None" using assms by (auto split: prod.splits)
  then show ?thesis by blast
qed (use assms in simp_all)


text \<open>A file saved three times: while it is processed the second, then the third save.\<close>

definition wq_task :: uploadTask where
  "wq_task = \<lparr>ut_profileName = ''web'', ut_filePath = ''/site/a''\<rparr>"

fun wq_run :: "wq_event list \<Rightarrow> wq_state \<Rightarrow> wq_state option" where
  "wq_run [] s = Some s"
| "wq_run (ev # evs) s = (case wq_next ev s of None \<Rightarrow> None | Some t \<Rightarrow> wq_run evs t)"

lemma wq_run_reach: "wq_reach n s \<Longrightarrow> wq_run evs s = Some t \<Longrightarrow> wq_reach n t"
  by (induction evs arbitrary: s) (auto split: option.splits intro: wq_step)

definition wq_demo :: "wq_event list" where
  "wq_demo = [QEnqueue wq_task, QTake 0, QClaim 0, QEnqueue wq_task, QTake 1, QClaim 1,
     QEnqueue wq_task, QTake 1, QClaim 1]"

lemma wq_demo_run:
  "\<exists>s. wq_run wq_demo (wq_init 2) = Some s \<and> worker_at 0 s = Some (Processing wq_task) \<and>
     fl_pending (wq_flight s) (taskKey wq_task) = Some wq_task \<and> \<not> quiescent s \<and> \<not> wq_done s"
  by (simp add: wq_demo_def wq_init_def worker_at_def set_worker_def tick_def claim_def Let_def
      queueCap_def quiescent_def numeral_2_eq_2)

lemma queue_exclusive_and_complete_witness:
  "\<exists>s i t'. wq_run wq_demo (wq_init 2) = Some s \<and> worker_at i s = Some (Processing t') \<and>
     taskKey t' = taskKey wq_task"
proof -
  obtain s where s: "wq_run wq_demo (wq_init 2) = Some s"
    "fl_pending (wq_flight s) (taskKey wq_task) = Some wq_task"
    using wq_demo_run by blast
  then show ?thesis using queue_exclusive_and_complete [OF wq_run_reach [OF wq_start]] by blast
qed


end
