(* ===== verification/Upload_Queue.thy ===== *)
theory Upload_Queue
  imports Queue_Workers Config Syncignore
begin

text \<open>
  What a worker of the upload queue does with one task: \<open>processUpload\<close> and
  \<open>deleteRemote\<close> of internal/watcher/queue.go, and the memory of remote directories.
  The workers themselves are in \<open>Queue_Workers\<close>.

  The state is the set of remembered directories and the rest of the world \<open>'v\<close>. Every
  call that can block takes and returns the whole state, so what other workers do to the
  set meanwhile is covered.
\<close>

section \<open>Remembered directories\<close>

record 'v upq =
  uq_knownDirs :: "string set"
  uq_world :: 'v

definition dir_key :: "string \<Rightarrow> string \<Rightarrow> string" where
  "dir_key profile remoteDir = profile @ [CHR 0x00] @ remoteDir"

definition dirKnown :: "string \<Rightarrow> string \<Rightarrow> 'v upq \<Rightarrow> bool" where
  "dirKnown profile remoteDir s \<longleftrightarrow> dir_key profile remoteDir \<in> uq_knownDirs s"

definition rememberDir :: "string \<Rightarrow> string \<Rightarrow> 'v upq \<Rightarrow> 'v upq" where
  "rememberDir profile remoteDir s =
     s\<lparr>uq_knownDirs := insert (dir_key profile remoteDir) (uq_knownDirs s)\<rparr>"

definition forgetDirs :: "string \<Rightarrow> 'v upq \<Rightarrow> 'v upq" where
  "forgetDirs profile s =
     s\<lparr>uq_knownDirs := Set.filter
        (\<lambda>k. \<not> (profile = '''' \<or> HasPrefix k (profile @ [CHR 0x00]))) (uq_knownDirs s)\<rparr>"

text \<open>\<open>UpdateProfiles\<close>: the profiles processUpload looks tasks up in, and an empty memory.\<close>

definition UpdateProfiles ::
  "(string \<Rightarrow> Profile option) \<Rightarrow> (string \<Rightarrow> Profile option) \<times> 'v upq \<Rightarrow>
   (string \<Rightarrow> Profile option) \<times> 'v upq" where
  "UpdateProfiles profiles q = (profiles, forgetDirs '''' (snd q))"

section \<open>The surroundings\<close>

text \<open>
  A lease is a client and the function that releases it. \<open>qe_wait\<close> is the \<open>select\<close> between
  the backoff timer and \<open>done\<close>: \<open>False\<close> if the queue was stopped. \<open>qe_Stat\<close> is
  \<open>os.Stat\<close>, \<open>qe_Abs\<close> is \<open>filepath.Abs\<close>.
\<close>

type_synonym 'w lease = "'w RemoteClient \<times> (goerr option \<Rightarrow> 'w \<Rightarrow> 'w)"

record 'w QueueEnv =
  qe_Abs :: "string \<Rightarrow> string res"
  qe_Stat :: "string \<Rightarrow> 'w \<Rightarrow> FileInfo res \<times> 'w"
  qe_ReadFile :: "string \<Rightarrow> 'w \<Rightarrow> string res \<times> 'w"
  qe_Acquire :: "string \<Rightarrow> 'w \<Rightarrow> 'w lease res \<times> 'w"
  qe_wait :: "duration \<Rightarrow> 'w \<Rightarrow> bool \<times> 'w"
  qe_onSuccess :: "string \<Rightarrow> string \<Rightarrow> 'w \<Rightarrow> 'w"
  qe_onError :: "string \<Rightarrow> string \<Rightarrow> goerr \<Rightarrow> nat \<Rightarrow> 'w \<Rightarrow> 'w"

section \<open>deleteRemote\<close>

definition deleteRemote ::
  "'w RemoteClient \<Rightarrow> string \<Rightarrow> bool \<Rightarrow> 'w \<Rightarrow> (bool \<times> goerr option) \<times> 'w" where
  "deleteRemote client remotePath final w =
    (case rc_Stat client remotePath w of
       (Inl e, w) \<Rightarrow> if IsNotExist (Some e) then ((False, None), w) else ((False, Some e), w)
     | (Inr info, w) \<Rightarrow>
         if ri_IsDir info then
           (case rc_RemoveDir client remotePath w of
              (Some e, w) \<Rightarrow>
                if \<not> final then
                  ((False, Some (Wrapped (''directory not yet removable: '' @ error_msg e) [e])), w)
                else ((False, None), w)
            | (None, w) \<Rightarrow> ((True, None), w))
         else
           (case rc_Remove client remotePath w of
              (Some e, w) \<Rightarrow> if IsNotExist (Some e) then ((False, None), w) else ((False, Some e), w)
            | (None, w) \<Rightarrow> ((True, None), w)))"

section \<open>processUpload\<close>

text \<open>How processing a task ends, one constructor per \<open>return\<close>.\<close>

datatype outcome =
    NoProfile | NoPath goerr | OutsideContext | PartialFile | Ignored | Gone | ContextGone
  | NotRegular | QueueStopped | DeletedRemote | NothingToDelete | UploadedFile | GaveUp goerr

datatype attempt = Return outcome | Retry goerr

text \<open>The last thing every path does: the callback, if there is one.\<close>

definition maxRetries :: nat where "maxRetries = 3"

definition delays :: "duration list" where "delays = [1 * Second, 2 * Second, 4 * Second]"

definition report :: "'w QueueEnv \<Rightarrow> string \<Rightarrow> string \<Rightarrow> outcome \<Rightarrow> 'w \<Rightarrow> 'w" where
  "report env name relPath out w =
    (case out of
       UploadedFile \<Rightarrow> qe_onSuccess env name relPath w
     | DeletedRemote \<Rightarrow> qe_onSuccess env name (relPath @ '' (deleted)'') w
     | GaveUp e \<Rightarrow> qe_onError env name relPath e maxRetries w
     | _ \<Rightarrow> w)"

text \<open>The path of the task relative to the context of its profile.\<close>

definition rel_to_context :: "string \<Rightarrow> string \<Rightarrow> string option" where
  "rel_to_context absFile absContext =
    (case CutPrefix absFile (absContext @ ''/'') of
       Some after \<Rightarrow> Some after
     | None \<Rightarrow> if absFile = absContext then Some (path_Base absFile) else None)"

text \<open>One attempt with a leased connection, for a file that is gone and for one that is there.\<close>

definition delete_with ::
  "'v upq lease \<Rightarrow> string \<Rightarrow> string \<Rightarrow> bool \<Rightarrow> 'v upq \<Rightarrow> attempt \<times> 'v upq" where
  "delete_with lease name remotePath final s =
    (case deleteRemote (fst lease) remotePath final s of
       ((deleted, delErr), s) \<Rightarrow>
         (let s = snd lease delErr s;
              s = (if deleted then forgetDirs name s else s)
          in case delErr of
               None \<Rightarrow> (Return (if deleted then DeletedRemote else NothingToDelete), s)
             | Some e \<Rightarrow> (Retry e, s)))"

definition upload_with ::
  "'v upq lease \<Rightarrow> string \<Rightarrow> string \<Rightarrow> string \<Rightarrow> FileInfo res \<Rightarrow> 'v upq \<Rightarrow> attempt \<times> 'v upq" where
  "upload_with lease name absFile remotePath st s =
    (let (client, release) = lease; remoteDir = path_Dir remotePath in
     case (if dirKnown name remoteDir s then (None, s) else rc_MkdirAll client remoteDir s) of
       (Some mkErr, s) \<Rightarrow> (Retry mkErr, release (Some mkErr) s)
     | (None, s) \<Rightarrow>
         (case (if (case st of Inl _ \<Rightarrow> False | Inr fi \<Rightarrow> fi_Size fi \<ge> ResumeThreshold)
                then rc_UploadResume client absFile remotePath
                else rc_Upload client absFile remotePath) (rememberDir name remoteDir s) of
            (uploadErr, s) \<Rightarrow>
              (let s = release uploadErr s in
               case uploadErr of
                 None \<Rightarrow> (Return UploadedFile, s)
               | Some e \<Rightarrow> (Retry e, forgetDirs name s))))"

definition stat_missing :: "FileInfo res \<Rightarrow> bool" where
  "stat_missing st = (case st of Inl e \<Rightarrow> errors_Is e ErrNotExist | Inr _ \<Rightarrow> False)"

text \<open>What is decided before a connection is asked for: an outcome, or to go on.\<close>

definition before_acquire ::
  "'w QueueEnv \<Rightarrow> Profile \<Rightarrow> string \<Rightarrow> FileInfo res \<Rightarrow> 'w \<Rightarrow> outcome option \<times> 'w" where
  "before_acquire env profile absContext st w =
    (if stat_missing st \<and> \<not> p_AutoSyncDeletes profile then (Some Gone, w)
     else if stat_missing st then
       (case qe_Stat env absContext w of
          (Inl _, w) \<Rightarrow> (Some ContextGone, w)
        | (Inr _, w) \<Rightarrow> (None, w))
     else
       (case st of
          Inr fi \<Rightarrow> (if fi_IsRegular fi then None else Some NotRegular, w)
        | Inl _ \<Rightarrow> (None, w)))"

definition upload_attempt ::
  "'v upq QueueEnv \<Rightarrow> Profile \<Rightarrow> string \<Rightarrow> string \<Rightarrow> string \<Rightarrow> string \<Rightarrow> bool \<Rightarrow> 'v upq \<Rightarrow>
   attempt \<times> 'v upq" where
  "upload_attempt env profile name absFile absContext remotePath final s =
    (case qe_Stat env absFile s of
       (st, s) \<Rightarrow>
         (case before_acquire env profile absContext st s of
            (Some out, s) \<Rightarrow> (Return out, s)
          | (None, s) \<Rightarrow>
              (case qe_Acquire env name s of
                 (Inl connErr, s) \<Rightarrow> (Retry connErr, s)
               | (Inr lease, s) \<Rightarrow>
                   if stat_missing st then delete_with lease name remotePath final s
                   else upload_with lease name absFile remotePath st s)))"

text \<open>The loop over the attempts that are left; \<open>GaveUp\<close> carries \<open>lastErr\<close>.\<close>

fun retry_loop ::
  "'w QueueEnv \<Rightarrow> (bool \<Rightarrow> 'w \<Rightarrow> attempt \<times> 'w) \<Rightarrow> nat list \<Rightarrow> goerr \<Rightarrow> 'w \<Rightarrow> outcome \<times> 'w" where
  "retry_loop env try [] lastErr w = (GaveUp lastErr, w)"
| "retry_loop env try (attempt # rest) lastErr w =
    (case try (attempt = maxRetries - 1) w of
       (Return out, w) \<Rightarrow> (out, w)
     | (Retry e, w) \<Rightarrow>
         if attempt < maxRetries - 1 then
           (case qe_wait env (delays ! attempt) w of
              (False, w) \<Rightarrow> (QueueStopped, w)
            | (True, w) \<Rightarrow> retry_loop env try rest e w)
         else retry_loop env try rest e w)"

definition sync_file ::
  "matcher \<Rightarrow> 'v upq QueueEnv \<Rightarrow> Profile \<Rightarrow> string \<Rightarrow> string \<Rightarrow> string \<Rightarrow> string \<Rightarrow> 'v upq \<Rightarrow>
   outcome \<times> 'v upq" where
  "sync_file dm env profile name absFile absContext relPath s =
    (if IsPartialName (path_Base absFile) then (PartialFile, s)
     else
       (let ignoreFile = path_Join [absContext, ''.syncignore''];
            (st, s) = qe_Stat env ignoreFile s;
            (contents, s) = qe_ReadFile env ignoreFile s;
            patterns = (case Load (map_sum id (\<lambda>_. ()) st) contents of Inl _ \<Rightarrow> [] | Inr ps \<Rightarrow> ps)
        in if ShouldIgnore dm relPath patterns then (Ignored, s)
           else
             (let remotePath = path_Join [p_RemotePath profile, relPath]
              in retry_loop env (upload_attempt env profile name absFile absContext remotePath)
                   [0..<maxRetries] (ErrorString '''') s)))"

definition processUpload ::
  "matcher \<Rightarrow> 'v upq QueueEnv \<Rightarrow> (string \<Rightarrow> Profile option) \<Rightarrow> uploadTask \<Rightarrow> 'v upq \<Rightarrow>
   outcome \<times> 'v upq" where
  "processUpload dm env profiles task s =
    (case profiles (ut_profileName task) of
       None \<Rightarrow> (NoProfile, s)
     | Some profile \<Rightarrow>
        (case (qe_Abs env (ut_filePath task), qe_Abs env (p_Context profile)) of
           (Inl e, _) \<Rightarrow> (NoPath e, s)
         | (Inr _, Inl e) \<Rightarrow> (NoPath e, s)
         | (Inr absFile, Inr absContext) \<Rightarrow>
             (case rel_to_context absFile absContext of
                None \<Rightarrow> (OutsideContext, s)
              | Some relPath \<Rightarrow>
                  (case sync_file dm env profile (ut_profileName task) absFile absContext relPath s of
                     (out, s) \<Rightarrow> (out, report env (ut_profileName task) relPath out s)))))"

section \<open>What processing a task can change\<close>

text \<open>
  A lease is \<open>lease_ok\<close> if every call the queue may make on its client keeps \<open>J\<close>, and
  releasing it turns \<open>J\<close> into \<open>I\<close>. Deletions count only if \<open>del\<close>.
\<close>

definition dirs_free :: "('v upq \<Rightarrow> bool) \<Rightarrow> bool" where
  "dirs_free I \<longleftrightarrow> (\<forall>s d. I (s\<lparr>uq_knownDirs := d\<rparr>) = I s)"

definition lease_ok :: "('v upq \<Rightarrow> bool) \<Rightarrow> ('v upq \<Rightarrow> bool) \<Rightarrow> bool \<Rightarrow> string \<Rightarrow> string \<Rightarrow>
    'v upq lease \<Rightarrow> bool" where
  "lease_ok I J del absFile remotePath l \<longleftrightarrow>
     dirs_free J \<and> keeps J (rc_Stat (fst l) remotePath) \<and>
     keeps J (rc_MkdirAll (fst l) (path_Dir remotePath)) \<and>
     keeps J (rc_Upload (fst l) absFile remotePath) \<and>
     keeps J (rc_UploadResume (fst l) absFile remotePath) \<and>
     (del \<longrightarrow> keeps J (rc_Remove (fst l) remotePath) \<and> keeps J (rc_RemoveDir (fst l) remotePath)) \<and>
     (\<forall>err s. J s \<longrightarrow> I (snd l err s))"

lemma dirs_free_ops [simp]:
  "dirs_free I \<Longrightarrow> I (forgetDirs p s) = I s" "dirs_free I \<Longrightarrow> I (rememberDir p d s) = I s"
  by (simp_all add: dirs_free_def forgetDirs_def rememberDir_def)

lemma deleteRemote_keeps:
  assumes "keeps J (rc_Stat c r)" "keeps J (rc_Remove c r)" "keeps J (rc_RemoveDir c r)"
  shows "keeps J (deleteRemote c r final)"
proof -
  have "J w \<Longrightarrow> J (snd (deleteRemote c r final w))" for w
    unfolding deleteRemote_def
    by (auto split: prod.splits sum.splits option.splits dest: keeps_case [OF assms(1)]
        keeps_case [OF assms(2)] keeps_case [OF assms(3)])
  then show ?thesis by (simp add: keeps_def)
qed

lemma delete_with_ok:
  assumes "lease_ok I J True absFile remotePath l" "dirs_free I" "J s"
  shows "I (snd (delete_with l name remotePath final s))"
proof -
  obtain del err s1 where d: "deleteRemote (fst l) remotePath final s = ((del, err), s1)"
    by (metis surj_pair)
  have "keeps J (deleteRemote (fst l) remotePath final)"
    using assms(1) by (simp add: lease_ok_def deleteRemote_keeps)
  then have "J s1" using assms(3) d by (rule keeps_case)
  then have "I (snd l err s1)" using assms(1) by (simp add: lease_ok_def)
  then show ?thesis
    using assms(2) d by (cases err) (simp_all add: delete_with_def Let_def)
qed

lemma upload_with_ok:
  assumes "lease_ok I J del absFile remotePath l" "dirs_free I" "J s"
  shows "I (snd (upload_with l name absFile remotePath st s))"
proof -
  obtain c rel where l: "l = (c, rel)" by fastforce
  have mk: "keeps J (rc_MkdirAll c (path_Dir remotePath))"
    and up: "keeps J (rc_Upload c absFile remotePath)" "keeps J (rc_UploadResume c absFile remotePath)"
    and rel: "\<And>err s. J s \<Longrightarrow> I (rel err s)" and J: "dirs_free J"
    using assms(1) by (simp_all add: lease_ok_def l)
  obtain mkErr s1 where m: "(if dirKnown name (path_Dir remotePath) s then (None, s)
      else rc_MkdirAll c (path_Dir remotePath) s) = (mkErr, s1)" by (metis surj_pair)
  have s1: "J s1" using assms(3) m keeps_case [OF mk assms(3)] by (auto split: if_splits)
  show ?thesis
  proof (cases mkErr)
    case None
    let ?op = "if (case st of Inl _ \<Rightarrow> False | Inr fi \<Rightarrow> fi_Size fi \<ge> ResumeThreshold)
        then rc_UploadResume c absFile remotePath else rc_Upload c absFile remotePath"
    obtain err s2 where u: "?op (rememberDir name (path_Dir remotePath) s1) = (err, s2)"
      by (metis surj_pair)
    have op: "keeps J ?op" using up by simp
    have "J (rememberDir name (path_Dir remotePath) s1)" using s1 J by simp
    then have "J s2" by (rule keeps_case [OF op]) (rule u)
    then have "I (rel err s2)" by (rule rel)
    then show ?thesis
      unfolding upload_with_def l Let_def prod.case m None option.case u
      using assms(2) by (cases err) simp_all
  next
    case (Some e)
    show ?thesis
      unfolding upload_with_def l Let_def prod.case m Some option.case using rel [OF s1] by simp
  qed
qed

text \<open>
  The same for the surroundings: \<open>I k\<close> holds with \<open>k\<close> connections asked for so far, some
  \<open>J\<close> while a connection is leased.
\<close>

definition env_ok :: "(nat \<Rightarrow> 'v upq \<Rightarrow> bool) \<Rightarrow> bool \<Rightarrow> string \<Rightarrow> string \<Rightarrow> string \<Rightarrow> 'v upq QueueEnv \<Rightarrow> bool" where
  "env_ok I del name absFile remotePath env \<longleftrightarrow>
     (\<forall>k. dirs_free (I k)) \<and>
     (\<forall>k p. keeps (I k) (qe_Stat env p)) \<and> (\<forall>k p. keeps (I k) (qe_ReadFile env p)) \<and>
     (\<forall>k d. keeps (I k) (qe_wait env d)) \<and>
     (\<forall>k s e s'. I k s \<longrightarrow> qe_Acquire env name s = (Inl e, s') \<longrightarrow> I (Suc k) s') \<and>
     (\<forall>k s l s'. I k s \<longrightarrow> qe_Acquire env name s = (Inr l, s') \<longrightarrow>
        (\<exists>J. J s' \<and> lease_ok (I (Suc k)) J del absFile remotePath l))"

text \<open>The queue may delete remotely while \<open>I\<close> holds.\<close>

definition may_delete :: "('w \<Rightarrow> bool) \<Rightarrow> 'w QueueEnv \<Rightarrow> Profile \<Rightarrow> string \<Rightarrow> string \<Rightarrow> bool" where
  "may_delete I env profile absFile absContext \<longleftrightarrow>
     p_AutoSyncDeletes profile \<and>
     (\<exists>w. I w \<and> stat_missing (fst (qe_Stat env absFile w))) \<and>
     (\<exists>w i. I w \<and> fst (qe_Stat env absContext w) = Inr i)"

lemma attempt_ok:
  assumes env: "env_ok I del name absFile remotePath env" and I: "I k s"
    and del: "may_delete (I k) env profile absFile absContext \<Longrightarrow> del"
    and a: "upload_attempt env profile name absFile absContext remotePath final s = (a, s')"
  shows "case a of Retry e \<Rightarrow> I (Suc k) s' | Return out \<Rightarrow> (I k s' \<or> I (Suc k) s') \<and> (\<forall>e. out \<noteq> GaveUp e)"
proof -
  have stat: "I k w \<Longrightarrow> qe_Stat env p w = (x, w') \<Longrightarrow> I k w'" for p w x w'
    using env keeps_case [of "I k" "qe_Stat env p"] by (auto simp: env_ok_def)
  have free: "dirs_free (I (Suc k))" using env by (simp add: env_ok_def)
  obtain st s1 where 1: "qe_Stat env absFile s = (st, s1)" by fastforce
  have s1: "I k s1" using stat [OF I 1] .
  obtain out s2 where 2: "before_acquire env profile absContext st s1 = (out, s2)" by fastforce
  have s2: "I k s2" and dl: "stat_missing st \<Longrightarrow> out = None \<Longrightarrow> del"
    and nog: "out \<noteq> Some (GaveUp e)" for e
  proof -
    show "I k s2" "out \<noteq> Some (GaveUp e)"
      using 2 s1 stat [of s1 absContext]
      by (auto simp: before_acquire_def split: if_splits sum.splits prod.splits)
    assume m: "stat_missing st" "out = None"
    then have "p_AutoSyncDeletes profile \<and> (\<exists>i. fst (qe_Stat env absContext s1) = Inr i)"
      using 2 by (auto simp: before_acquire_def split: if_splits sum.splits prod.splits)
    then have "may_delete (I k) env profile absFile absContext"
      unfolding may_delete_def using I 1 m(1) s1 by (metis fst_conv)
    then show del by (rule del)
  qed
  show ?thesis
  proof (cases out)
    case (Some r)
    then show ?thesis using a 1 2 s2 nog by (auto simp: upload_attempt_def)
  next
    case None
    obtain l s3 where 3: "qe_Acquire env name s2 = (l, s3)" by fastforce
    show ?thesis
    proof (cases l)
      case (Inl e)
      then have "I (Suc k) s3" using env s2 3 by (auto simp: env_ok_def)
      then show ?thesis using a 1 2 3 None Inl by (auto simp: upload_attempt_def)
    next
      case (Inr lease)
      then obtain J where J: "J s3" "lease_ok (I (Suc k)) J del absFile remotePath lease"
        using env s2 3 unfolding env_ok_def Inr by metis
      have "I (Suc k) s'"
      proof (cases "stat_missing st")
        case True
        then have "(a, s') = delete_with lease name remotePath final s3"
          using a 1 2 3 None Inr by (simp add: upload_attempt_def)
        then show ?thesis using delete_with_ok [where I = "I (Suc k)" and J = J] free J dl [OF True None]
            by (metis snd_conv)
      next
        case False
        then have "(a, s') = upload_with lease name absFile remotePath st s3"
          using a 1 2 3 None Inr by (simp add: upload_attempt_def)
        then show ?thesis using upload_with_ok [OF J(2) free J(1)] by (metis snd_conv)
      qed
      moreover have "a \<noteq> Return (GaveUp e)" for e
        using a 1 2 3 None Inr
        by (auto simp: upload_attempt_def delete_with_def upload_with_def Let_def
            split: if_splits option.splits prod.splits)
      ultimately show ?thesis by (auto split: attempt.split)
    qed
  qed
qed

lemma retry_ok:
  assumes env: "env_ok I del name absFile remotePath env"
    and del: "\<And>k. may_delete (I k) env profile absFile absContext \<Longrightarrow> del"
  shows "I k s \<Longrightarrow>
    retry_loop env (upload_attempt env profile name absFile absContext remotePath) ks lastErr s = (out, s') \<Longrightarrow>
    \<exists>j. j \<le> k + length ks \<and> I j s' \<and> (\<forall>e. out = GaveUp e \<longrightarrow> j = k + length ks)"
proof (induction ks arbitrary: k s lastErr)
  case (Cons n ks)
  let ?att = "upload_attempt env profile name absFile absContext remotePath"
  have wait: "I j w \<Longrightarrow> qe_wait env d w = (b, w') \<Longrightarrow> I j w'" for j d w b w'
    using env keeps_case [of "I j" "qe_wait env d"] by (auto simp: env_ok_def)
  obtain a s1 where a: "?att (n = maxRetries - 1) s = (a, s1)" by fastforce
  note ok = attempt_ok [OF env Cons.prems(1) del a]
  show ?case
  proof (cases a)
    case (Return r)
    then have "out = r" "s' = s1" using Cons.prems(2) a by auto
    then have "I k s' \<or> I (Suc k) s'" "\<forall>e. out \<noteq> GaveUp e" using ok Return by auto
    then have "\<exists>j \<le> k + length (n # ks). I j s'" by (metis add_Suc_right le_add1 length_Cons not_less_eq_eq)
    then show ?thesis using \<open>\<forall>e. out \<noteq> GaveUp e\<close> by blast
  next
    case (Retry e)
    then have s1: "I (Suc k) s1" using ok by simp
    show ?thesis
    proof (cases "n < maxRetries - 1")
      case True
      obtain b s2 where w: "qe_wait env (delays ! n) s1 = (b, s2)" by fastforce
      have s2: "I (Suc k) s2" using wait [OF s1 w] .
      show ?thesis
      proof (cases b)
        case True
        then have "retry_loop env ?att ks e s2 = (out, s')"
          using Cons.prems(2) a Retry w \<open>n < maxRetries - 1\<close> by simp
        then show ?thesis using Cons.IH [OF s2] by simp
      next
        case False
        then have "out = QueueStopped" "s' = s2" using Cons.prems(2) a Retry w \<open>n < maxRetries - 1\<close> by auto
        then show ?thesis using s2 by (intro exI [of _ "Suc k"]) simp
      qed
    next
      case False
      then have "retry_loop env ?att ks e s1 = (out, s')" using Cons.prems(2) a Retry by simp
      then show ?thesis using Cons.IH [OF s1] by simp
    qed
  qed
qed auto

text \<open>The rule all properties of \<open>processUpload\<close> follow from.\<close>

lemma processUpload_rule:
  assumes env: "\<And>profile absFile absContext relPath.
      \<lbrakk>profiles (ut_profileName task) = Some profile; qe_Abs env (ut_filePath task) = Inr absFile;
       qe_Abs env (p_Context profile) = Inr absContext; rel_to_context absFile absContext = Some relPath\<rbrakk>
      \<Longrightarrow> \<exists>del. env_ok I del (ut_profileName task) absFile (path_Join [p_RemotePath profile, relPath]) env \<and>
            (\<forall>k. may_delete (I k) env profile absFile absContext \<longrightarrow> del)"
    and I: "I 0 s" and run: "processUpload dm env profiles task s = (out, s')"
  shows "\<exists>relPath s1 j. s' = report env (ut_profileName task) relPath out s1 \<and> j \<le> 3 \<and> I j s1 \<and>
    (\<forall>e. out = GaveUp e \<longrightarrow> j = 3)"
proof (cases "\<exists>profile absFile absContext relPath. profiles (ut_profileName task) = Some profile \<and>
    qe_Abs env (ut_filePath task) = Inr absFile \<and> qe_Abs env (p_Context profile) = Inr absContext \<and>
    rel_to_context absFile absContext = Some relPath")
  case False
  then have "s' = s \<and> (\<forall>relPath. report env (ut_profileName task) relPath out s = s) \<and> (\<forall>e. out \<noteq> GaveUp e)"
    using run by (auto simp: processUpload_def report_def split: option.splits sum.splits)
  then show ?thesis using I by (metis le0)
next
  case True
  then obtain profile absFile absContext relPath where *: "profiles (ut_profileName task) = Some profile"
    "qe_Abs env (ut_filePath task) = Inr absFile" "qe_Abs env (p_Context profile) = Inr absContext"
    "rel_to_context absFile absContext = Some relPath" by blast
  obtain del where env: "env_ok I del (ut_profileName task) absFile (path_Join [p_RemotePath profile, relPath]) env"
    and del: "\<And>k. may_delete (I k) env profile absFile absContext \<Longrightarrow> del"
    using assms(1) [OF *] by blast
  obtain s1 where s1: "sync_file dm env profile (ut_profileName task) absFile absContext relPath s = (out, s1)"
    and s': "s' = report env (ut_profileName task) relPath out s1"
    using run * by (auto simp: processUpload_def split: prod.splits)
  have "\<exists>j. j \<le> 3 \<and> I j s1 \<and> (\<forall>e. out = GaveUp e \<longrightarrow> j = 3)"
  proof (cases "IsPartialName (path_Base absFile)")
    case True
    then show ?thesis using s1 I by (auto simp: sync_file_def)
  next
    case False
    let ?f = "path_Join [absContext, ''.syncignore'']"
    obtain st t1 where 1: "qe_Stat env ?f s = (st, t1)" by fastforce
    obtain cs t2 where 2: "qe_ReadFile env ?f t1 = (cs, t2)" by fastforce
    have "I 0 t1" using env I 1 keeps_case [of "I 0" "qe_Stat env ?f"] by (auto simp: env_ok_def)
    then have t2: "I 0 t2" using env 2 keeps_case [of "I 0" "qe_ReadFile env ?f"] by (auto simp: env_ok_def)
    let ?ignored = "ShouldIgnore dm relPath (case Load (map_sum id (\<lambda>_. ()) st) cs of Inl _ \<Rightarrow> [] | Inr ps \<Rightarrow> ps)"
    let ?loop = "retry_loop env (upload_attempt env profile (ut_profileName task) absFile absContext
      (path_Join [p_RemotePath profile, relPath])) [0..<maxRetries] (ErrorString '''') t2"
    have eq: "(out, s1) = (if ?ignored then (Ignored, t2) else ?loop)"
      unfolding s1 [symmetric] sync_file_def if_not_P [OF False] Let_def 1 prod.case 2 ..
    show ?thesis
    proof (cases ?ignored)
      case True
      then show ?thesis using eq t2 by auto
    next
      case False
      then have l: "?loop = (out, s1)" using eq by simp
      have "\<exists>j. j \<le> 0 + length [0..<maxRetries] \<and> I j s1 \<and>
          (\<forall>e. out = GaveUp e \<longrightarrow> j = 0 + length [0..<maxRetries])"
        by (rule retry_ok [OF env _ t2 l]) (rule del)
      then show ?thesis by (simp add: maxRetries_def)
    qed
  qed
  then show ?thesis using s' by blast
qed

section \<open>What the queue guarantees for a task\<close>

text \<open>
  The assumption the properties share: in every lease the queue gets, and in all calls of
  the surroundings, what is to be kept is kept; deletions are left out.
\<close>

definition kept_by :: "('v upq \<Rightarrow> bool) \<Rightarrow> bool \<Rightarrow> (string \<Rightarrow> string \<Rightarrow> bool) \<Rightarrow> 'v upq QueueEnv \<Rightarrow> bool" where
  "kept_by I del ok env \<longleftrightarrow>
     (\<forall>name absFile remotePath. ok absFile remotePath \<longrightarrow>
        env_ok (\<lambda>_. I) del name absFile remotePath env) \<and>
     (\<forall>n p s. I s \<longrightarrow> I (qe_onSuccess env n p s)) \<and>
     (\<forall>n p e k s. I s \<longrightarrow> I (qe_onError env n p e k s))"

lemma report_keeps: "kept_by I del ok env \<Longrightarrow> I s \<Longrightarrow> I (report env name relPath out s)"
  by (auto simp: kept_by_def report_def split: outcome.split)

text \<open>
  C12: the queue deletes on the server only what it should. Whatever holds and is broken by
  nothing but a \<open>Remove\<close> or \<open>RemoveDir\<close> still holds after a task is processed, if the
  profile does not ask for deletions, or the file cannot be found missing, or the context
  directory cannot be examined (the guard against an unmounted project).
\<close>

theorem upload_never_deletes:
  assumes "kept_by I False (\<lambda>_ _. True) env" "I s"
    and "\<And>profile absFile absContext.
      \<lbrakk>profiles (ut_profileName task) = Some profile; qe_Abs env (ut_filePath task) = Inr absFile;
       qe_Abs env (p_Context profile) = Inr absContext\<rbrakk> \<Longrightarrow>
      \<not> p_AutoSyncDeletes profile \<or>
      (\<forall>w. I w \<longrightarrow> \<not> stat_missing (fst (qe_Stat env absFile w))) \<or>
      (\<forall>w i. I w \<longrightarrow> fst (qe_Stat env absContext w) \<noteq> Inr i)"
  shows "I (snd (processUpload dm env profiles task s))"
proof -
  obtain out s' where run: "processUpload dm env profiles task s = (out, s')" by fastforce
  have "\<exists>relPath s1 j. s' = report env (ut_profileName task) relPath out s1 \<and> j \<le> (3 :: nat) \<and> I s1 \<and>
      (\<forall>e. out = GaveUp e \<longrightarrow> j = 3)"
  proof (rule processUpload_rule [where I = "\<lambda>_. I", OF _ assms(2) run])
    fix profile absFile absContext relPath
    assume *: "profiles (ut_profileName task) = Some profile" "qe_Abs env (ut_filePath task) = Inr absFile"
      "qe_Abs env (p_Context profile) = Inr absContext"
    have "\<not> may_delete I env profile absFile absContext" using assms(3) [OF *] by (auto simp: may_delete_def)
    then show "\<exists>del. env_ok (\<lambda>_. I) del (ut_profileName task) absFile
        (path_Join [p_RemotePath profile, relPath]) env \<and>
        (\<forall>k :: nat. may_delete I env profile absFile absContext \<longrightarrow> del)"
      using assms(1) by (auto simp: kept_by_def)
  qed
  then show ?thesis using report_keeps [OF assms(1)] run by auto
qed


text \<open>What the callbacks are told.\<close>

definition reported :: "string \<Rightarrow> string \<Rightarrow> outcome \<Rightarrow> (string \<times> string \<times> goerr option) list" where
  "reported name relPath out =
    (case out of
       UploadedFile \<Rightarrow> [(name, relPath, None)]
     | DeletedRemote \<Rightarrow> [(name, relPath @ '' (deleted)'', None)]
     | GaveUp e \<Rightarrow> [(name, relPath, Some e)]
     | _ \<Rightarrow> [])"

text \<open>
  C31: a task is tried at most three times and reported once. Let \<open>c\<close> count the leases asked
  for and \<open>R\<close> list the callbacks, and let nothing else change them. Then processing a task
  asks for at most three leases, for three exactly when it ends with an error report, and
  it makes one callback, the one its outcome calls for, or none when there is nothing to
  report.
\<close>

theorem upload_tries_and_reports:
  fixes c :: "'v upq \<Rightarrow> nat" and R :: "'v upq \<Rightarrow> (string \<times> string \<times> goerr option) list"
  assumes "\<And>absFile remotePath n r. env_ok (\<lambda>k s. c s = n + k \<and> R s = r) True
      (ut_profileName task) absFile remotePath env"
    and "\<And>n p s. c (qe_onSuccess env n p s) = c s \<and> R (qe_onSuccess env n p s) = R s @ [(n, p, None)]"
    and "\<And>n p e k s. c (qe_onError env n p e k s) = c s \<and> R (qe_onError env n p e k s) = R s @ [(n, p, Some e)]"
    and run: "processUpload dm env profiles task s = (out, s')"
  shows "c s' \<le> c s + 3 \<and> (\<forall>e. out = GaveUp e \<longrightarrow> c s' = c s + 3) \<and>
    (\<exists>relPath. R s' = R s @ reported (ut_profileName task) relPath out)"
proof -
  let ?I = "\<lambda>k t. c t = c s + k \<and> R t = R s"
  have "\<exists>relPath s1 j. s' = report env (ut_profileName task) relPath out s1 \<and> j \<le> 3 \<and> ?I j s1 \<and>
      (\<forall>e. out = GaveUp e \<longrightarrow> j = 3)"
    by (rule processUpload_rule [where I = ?I, OF _ _ run])
       (simp_all add: exI [of _ True] assms(1))
  then obtain relPath s1 j where s': "s' = report env (ut_profileName task) relPath out s1" and j: "j \<le> 3"
    "?I j s1" "\<forall>e. out = GaveUp e \<longrightarrow> j = 3" by blast
  have "c s' = c s1 \<and> R s' = R s1 @ reported (ut_profileName task) relPath out"
    using assms(2,3) by (cases out) (simp_all add: s' report_def reported_def)
  then show ?thesis using j by auto
qed

text \<open>
  An unreadable \<open>.syncignore\<close> stops the mirror but not the daemon. If the file is there
  and cannot be read, no file is ignored any more, whatever it said: \<open>processUpload\<close> goes on
  with no patterns, while \<open>MirrorUp\<close> and \<open>MirrorDown\<close> refuse to run.
\<close>

theorem unreadable_syncignore_ignores_nothing:
  assumes "\<And>p w. \<not> stat_missing (fst (qe_Stat env (path_Join [p, ''.syncignore'']) w))"
    and "\<And>p w. \<exists>e. fst (qe_ReadFile env (path_Join [p, ''.syncignore'']) w) = Inl e"
  shows "fst (processUpload dm env profiles task s) \<noteq> Ignored"
proof
  assume ign: "fst (processUpload dm env profiles task s) = Ignored"
  have attempt: "fst (upload_attempt env profile name f c r final w) \<noteq> Return Ignored" for profile name f c r final w
    by (auto simp: upload_attempt_def before_acquire_def delete_with_def upload_with_def Let_def
        split: prod.splits sum.splits option.splits if_splits)
  have loop: "fst (retry_loop env (upload_attempt env profile name f c r) ks le w) \<noteq> Ignored"
    for profile name f c r ks le w
  proof (induction ks arbitrary: le w)
    case (Cons k ks)
    then show ?case
      using attempt [of profile name f c r "k = maxRetries - 1" w]
      by (auto split: prod.splits attempt.splits bool.splits)
  qed simp
  have load: "\<exists>e. Load (map_sum id (\<lambda>_. ()) (fst (qe_Stat env (path_Join [p, ''.syncignore'']) w)))
      (fst (qe_ReadFile env (path_Join [p, ''.syncignore'']) w')) = Inl e" for p w w'
    using assms(1) [of p w] assms(2) [of p w']
    by (auto simp: Load_def stat_missing_def split: sum.splits)
  have "fst (sync_file dm env profile name f c rel w) \<noteq> Ignored" for profile name f c rel w
  proof -
    obtain st w1 where 1: "qe_Stat env (path_Join [c, ''.syncignore'']) w = (st, w1)" by fastforce
    obtain cs w2 where 2: "qe_ReadFile env (path_Join [c, ''.syncignore'']) w1 = (cs, w2)" by fastforce
    obtain e where "Load (map_sum id (\<lambda>_. ()) st) cs = Inl e" using load [of c w w1] 1 2 by auto
    then show ?thesis
      unfolding sync_file_def Let_def 1 2 prod.case using loop by simp
  qed
  then show False
    using ign by (auto simp: processUpload_def split: option.splits sum.splits prod.splits)
       (metis fst_conv)
qed

text \<open>
  A profile whose context is the root directory is never synced by the daemon, although
  every file lies below it: the prefix test is made with two slashes.
\<close>

theorem root_context_syncs_nothing:
  assumes "profiles (ut_profileName task) = Some profile" "qe_Abs env (p_Context profile) = Inr ''/''"
    and "qe_Abs env (ut_filePath task) = Inr f" "IsAbs f" "Clean f = f" "f \<noteq> ''/''"
  shows "processUpload dm env profiles task s = (OutsideContext, s)"
proof -
  have "f \<noteq> ''//'' @ r" for r
  proof
    assume f: "f = ''//'' @ r"
    have root: "Clean ''/'' = ''/''"
      by (simp add: Clean_def comps_def clean_comps_def clean_step_def build_path_def IsAbs_def HasPrefix_def)
    have "plain_key r"
      using clean_suffix_plain [of "''/''" r] root assms(5) f by (simp add: IsAbs_def HasPrefix_def)
    then obtain ns where ns: "r = StrJoin ''/'' ns" "ns \<noteq> []" "\<forall>n \<in> set ns. plain n" by (auto simp: plain_key_def)
    have "comps f = comps ''/'' @ ns" using comps_join_plain [of "''/''" ns] ns f by simp
    moreover have "comps ''/'' = []" by (simp add: comps_def clean_comps_def clean_step_def)
    ultimately have "Clean f = ''/'' @ r" using assms(4) ns(1) by (simp add: Clean_def build_path_def)
    then show False using assms(5) f by simp
  qed
  then have "CutPrefix f (''/'' @ ''/'') = None" by (auto simp: CutPrefix_None_iff HasPrefix_iff)
  then have "rel_to_context f ''/'' = None" using assms(6) by (simp add: rel_to_context_def)
  then show ?thesis using assms(1-3) by (simp add: processUpload_def)
qed

section \<open>The queue as a client of a connection source\<close>

text \<open>
  The contract of \<open>clientSource\<close>: \<open>ok n\<close> says that the source is in a good state with \<open>n e\<close>
  leases outstanding for its connection \<open>e\<close>. \<open>Acquire\<close> adds a lease or fails, a release
  ends one; a client's calls do neither.
\<close>

definition calls_keep :: "('w \<Rightarrow> bool) \<Rightarrow> 'w RemoteClient \<Rightarrow> bool" where
  "calls_keep I c \<longleftrightarrow> (\<forall>p q. keeps I (rc_Stat c p) \<and> keeps I (rc_MkdirAll c p) \<and> keeps I (rc_Upload c p q) \<and>
     keeps I (rc_UploadResume c p q) \<and> keeps I (rc_Remove c p) \<and> keeps I (rc_RemoveDir c p))"

definition env_keeps :: "('w \<Rightarrow> bool) \<Rightarrow> 'w QueueEnv \<Rightarrow> bool" where
  "env_keeps I env \<longleftrightarrow> (\<forall>p. keeps I (qe_Stat env p) \<and> keeps I (qe_ReadFile env p)) \<and>
     (\<forall>d. keeps I (qe_wait env d)) \<and> (\<forall>n p s. I s \<longrightarrow> I (qe_onSuccess env n p s)) \<and>
     (\<forall>n p e k s. I s \<longrightarrow> I (qe_onError env n p e k s))"

locale client_source =
  fixes Acquire :: "string \<Rightarrow> 'v upq \<Rightarrow> 'v upq lease res \<times> 'v upq"
    and ok :: "('e \<Rightarrow> int) \<Rightarrow> 'v upq \<Rightarrow> bool"
  assumes nonneg: "ok n s \<Longrightarrow> 0 \<le> n e"
    and free: "dirs_free (ok n)"
    and fails: "\<lbrakk>ok n s; Acquire name s = (Inl err, s')\<rbrakk> \<Longrightarrow> ok n s'"
    and leases: "\<lbrakk>ok n s; Acquire name s = (Inr l, s')\<rbrakk> \<Longrightarrow>
      \<exists>e. ok (n(e := n e + 1)) s' \<and> (\<forall>m. calls_keep (ok m) (fst l)) \<and>
        (\<forall>m err t. ok m t \<longrightarrow> 1 \<le> m e \<longrightarrow> ok (m(e := m e - 1)) (snd l err t))"
begin

lemma env_ok_leases:
  assumes "qe_Acquire env = Acquire" "env_keeps (ok n) env"
  shows "env_ok (\<lambda>_. ok n) True name absFile remotePath env"
proof -
  have "\<exists>J. J s' \<and> lease_ok (ok n) J True absFile remotePath l"
    if acq: "ok n s" "Acquire name s = (Inr l, s')" for s l s'
  proof -
    obtain e where e: "ok (n(e := n e + 1)) s'" "\<forall>m. calls_keep (ok m) (fst l)"
      "\<forall>m err t. ok m t \<longrightarrow> 1 \<le> m e \<longrightarrow> ok (m(e := m e - 1)) (snd l err t)"
      using leases [OF acq] by blast
    have "ok n (snd l err t)" if "ok (n(e := n e + 1)) t" for err t
      using e(3) that nonneg [OF \<open>ok n s\<close>, of e] by fastforce
    then have "lease_ok (ok n) (ok (n(e := n e + 1))) True absFile remotePath l"
      using e(2) free by (simp add: lease_ok_def calls_keep_def)
    then show ?thesis using e(1) by blast
  qed
  then show ?thesis
    using assms(2) free fails unfolding env_ok_def env_keeps_def assms(1) by blast
qed

lemma processUpload_balanced:
  assumes "qe_Acquire env = Acquire" "env_keeps (ok n) env" "ok n s"
  shows "ok n (snd (processUpload dm env profiles task s))"
proof -
  obtain out s' where run: "processUpload dm env profiles task s = (out, s')" by fastforce
  have "\<exists>relPath s1 j. s' = report env (ut_profileName task) relPath out s1 \<and> j \<le> (3 :: nat) \<and> ok n s1 \<and>
      (\<forall>e. out = GaveUp e \<longrightarrow> j = 3)"
    by (rule processUpload_rule [where I = "\<lambda>_. ok n", OF _ assms(3) run])
       (simp_all add: exI [of _ True] env_ok_leases [OF assms(1,2)])
  moreover have "kept_by (ok n) True (\<lambda>_ _. True) env"
    using env_ok_leases [OF assms(1,2)] assms(2) by (simp add: kept_by_def env_keeps_def)
  ultimately show ?thesis using run report_keeps by fastforce
qed

end

end
