(* ===== verification/Connection_Pool.thy ===== *)
theory Connection_Pool
  imports Transfer_Client Config "HOL-Library.Multiset"
begin

text \<open>
  internal/transfer/pool.go: the daemon's connections, one client per profile, shared
  through leases. A \<open>*poolEntry\<close> is an index into the list of all entries ever made;
  the map \<open>connections\<close> holds indices. Each locked section of a method is one function.
\<close>

section \<open>The pool\<close>

definition freshFor :: duration where "freshFor = 10 * Second"

text \<open>
  Besides the fields of the code an entry records the profile it was dialled with, that
  profile's name, and how often its client's \<open>Close\<close> was called.
\<close>

record poolEntry =
  pe_users :: int
  pe_retired :: bool
  pe_lastOK :: gotime
  pe_name :: string
  pe_profile :: Profile
  pe_closes :: nat

record ConnectionPool =
  lp_connections :: "string \<Rightarrow> nat option"
  lp_profiles :: "string \<Rightarrow> Profile option"
  lp_entries :: "poolEntry list"

definition NewConnectionPool :: "(string \<Rightarrow> Profile option) \<Rightarrow> ConnectionPool" where
  "NewConnectionPool profiles =
     \<lparr>lp_connections = Map.empty, lp_profiles = profiles, lp_entries = []\<rparr>"

definition upd_entry :: "nat \<Rightarrow> (poolEntry \<Rightarrow> poolEntry) \<Rightarrow> ConnectionPool \<Rightarrow> ConnectionPool" where
  "upd_entry e f p = p\<lparr>lp_entries := (lp_entries p)[e := f (lp_entries p ! e)]\<rparr>"

definition close_client :: "poolEntry \<Rightarrow> poolEntry" where
  "close_client en = en\<lparr>pe_closes := Suc (pe_closes en)\<rparr>"

text \<open>\<open>releaseLocked\<close>: \<open>failed\<close> says whether the operation's error was not nil.\<close>

definition release_entry :: "gotime \<Rightarrow> bool \<Rightarrow> poolEntry \<Rightarrow> poolEntry" where
  "release_entry now failed en =
    (let en = en\<lparr>pe_users := pe_users en - 1, pe_lastOK := (if failed then 0 else now)\<rparr>
     in if pe_retired en \<and> pe_users en = 0 then close_client en else en)"

definition releaseLocked :: "gotime \<Rightarrow> nat \<Rightarrow> bool \<Rightarrow> ConnectionPool \<Rightarrow> ConnectionPool" where
  "releaseLocked now e failed p = upd_entry e (release_entry now failed) p"

definition retire_entry :: "poolEntry \<Rightarrow> poolEntry" where
  "retire_entry en =
    (if \<not> pe_retired en
     then (let en = en\<lparr>pe_retired := True\<rparr> in if pe_users en = 0 then close_client en else en)
     else en)"

definition retire :: "string \<Rightarrow> nat \<Rightarrow> ConnectionPool \<Rightarrow> ConnectionPool" where
  "retire name e p =
    (let p = (if lp_connections p name = Some e
              then p\<lparr>lp_connections := (lp_connections p)(name := None)\<rparr> else p)
     in upd_entry e retire_entry p)"

text \<open>
  \<open>Acquire\<close>. Its first section finds a live entry and takes it for a check, or reads the
  profile to dial.
\<close>

definition live_entry :: "string \<Rightarrow> ConnectionPool \<Rightarrow> nat option" where
  "live_entry name p =
    (case lp_connections p name of
       None \<Rightarrow> None
     | Some e \<Rightarrow> if pe_retired (lp_entries p ! e) then None else Some e)"

definition take_entry :: "nat \<Rightarrow> ConnectionPool \<Rightarrow> ConnectionPool" where
  "take_entry e p = upd_entry e (\<lambda>en. en\<lparr>pe_users := pe_users en + 1\<rparr>) p"

datatype lease_step =
    Check nat bool string
  | NeedProfile string
  | DialWith string Profile
  | UnknownProfile string
  | Lease nat
  | NoLease

definition read_profile :: "string \<Rightarrow> ConnectionPool \<Rightarrow> lease_step" where
  "read_profile name p =
    (case lp_profiles p name of None \<Rightarrow> UnknownProfile name | Some pr \<Rightarrow> DialWith name pr)"

definition acquire_begin :: "gotime \<Rightarrow> string \<Rightarrow> ConnectionPool \<Rightarrow> lease_step \<times> ConnectionPool" where
  "acquire_begin now name p =
    (case live_entry name p of
       Some e \<Rightarrow>
         (Check e (time_Sub now (pe_lastOK (lp_entries p ! e)) < freshFor) name, take_entry e p)
     | None \<Rightarrow> (read_profile name p, p))"

text \<open>After the check (no probe if fresh), with the probe's answer.\<close>

definition acquire_checked ::
  "gotime \<Rightarrow> nat \<Rightarrow> bool \<Rightarrow> string \<Rightarrow> bool \<Rightarrow> ConnectionPool \<Rightarrow> lease_step \<times> ConnectionPool" where
  "acquire_checked now e fresh name alive p =
    (if fresh \<or> alive then
       (Lease e, if \<not> fresh then upd_entry e (\<lambda>en. en\<lparr>pe_lastOK := now\<rparr>) p else p)
     else (NeedProfile name, releaseLocked now e False (retire name e p)))"

text \<open>After a successful dial: share a connection made meanwhile, or install this one.\<close>

definition acquire_dialled :: "gotime \<Rightarrow> string \<Rightarrow> Profile \<Rightarrow> ConnectionPool \<Rightarrow> lease_step \<times> ConnectionPool" where
  "acquire_dialled now name pr p =
    (case live_entry name p of
       Some e \<Rightarrow> (Lease e, take_entry e p)
     | None \<Rightarrow>
         (Lease (length (lp_entries p)),
          p\<lparr>lp_entries := lp_entries p @ [\<lparr>pe_users = 1, pe_retired = False, pe_lastOK = now,
                pe_name = name, pe_profile = pr, pe_closes = 0\<rparr>],
            lp_connections := (lp_connections p)(name \<mapsto> length (lp_entries p))\<rparr>))"

definition verify :: "Profile \<Rightarrow> bool" where
  "verify p = (case p_VerifyHostKey p of None \<Rightarrow> True | Some b \<Rightarrow> b)"

definition profileChanged :: "Profile \<Rightarrow> Profile \<Rightarrow> bool" where
  "profileChanged old new \<longleftrightarrow>
     p_Host old \<noteq> p_Host new \<or> p_Port old \<noteq> p_Port new \<or> p_Username old \<noteq> p_Username new \<or>
     p_Password old \<noteq> p_Password new \<or> p_SSHKey old \<noteq> p_SSHKey new \<or>
     p_Protocol old \<noteq> p_Protocol new \<or> p_FTPConnections old \<noteq> p_FTPConnections new \<or>
     p_TLSCACert old \<noteq> p_TLSCACert new \<or> verify old \<noteq> verify new"

text \<open>\<open>UpdateProfiles\<close>; \<open>names\<close> lists the old profiles in the order the map is ranged over.\<close>

definition update_one :: "(string \<Rightarrow> Profile option) \<Rightarrow> string \<Rightarrow> ConnectionPool \<Rightarrow> ConnectionPool" where
  "update_one new name p =
    (case lp_profiles p name of
       None \<Rightarrow> p
     | Some old \<Rightarrow>
         (if (case new name of None \<Rightarrow> True | Some n \<Rightarrow> profileChanged old n) then
            (case lp_connections p name of None \<Rightarrow> p | Some e \<Rightarrow> retire name e p)
          else p))"

definition UpdateProfiles :: "string list \<Rightarrow> (string \<Rightarrow> Profile option) \<Rightarrow> ConnectionPool \<Rightarrow> ConnectionPool" where
  "UpdateProfiles names new p = (foldl (\<lambda>p name. update_one new name p) p names)\<lparr>lp_profiles := new\<rparr>"

text \<open>\<open>CloseAll\<close>; \<open>names\<close> lists the connected profiles.\<close>

definition CloseAll :: "string list \<Rightarrow> ConnectionPool \<Rightarrow> ConnectionPool" where
  "CloseAll names p =
    (foldl (\<lambda>p name. case lp_connections p name of None \<Rightarrow> p
       | Some e \<Rightarrow> upd_entry e (\<lambda>en. close_client (en\<lparr>pe_retired := True\<rparr>)) p) p names)
    \<lparr>lp_connections := Map.empty\<rparr>"

section \<open>The pool and its users\<close>

text \<open>
  What a goroutine is up to is the \<open>lease_step\<close> it got last. A user with \<open>Lease e\<close> runs
  its operation and then releases; \<open>sync.Once\<close> makes a second release a no-op.
\<close>

record lp_sys =
  ls_pool :: ConnectionPool
  ls_users :: "lease_step list"

datatype lp_event =
    LAcquire nat gotime string
  | LChecked nat gotime bool
  | LProfile nat
  | LDialled nat gotime bool
  | LRelease nat gotime bool
  | LUpdate "string list" "string \<Rightarrow> Profile option"

definition user :: "nat \<Rightarrow> lp_sys \<Rightarrow> lease_step option" where
  "user i s = (if i < length (ls_users s) then Some (ls_users s ! i) else None)"

definition set_user :: "nat \<Rightarrow> lease_step \<times> ConnectionPool \<Rightarrow> lp_sys \<Rightarrow> lp_sys" where
  "set_user i r s = s\<lparr>ls_pool := snd r, ls_users := (ls_users s)[i := fst r]\<rparr>"

fun lp_next :: "lp_event \<Rightarrow> lp_sys \<Rightarrow> lp_sys option" where
  "lp_next (LAcquire i now name) s =
    (case user i s of
       Some NoLease \<Rightarrow> Some (set_user i (acquire_begin now name (ls_pool s)) s)
     | _ \<Rightarrow> None)"
| "lp_next (LChecked i now alive) s =
    (case user i s of
       Some (Check e fresh name) \<Rightarrow>
         Some (set_user i (acquire_checked now e fresh name alive (ls_pool s)) s)
     | _ \<Rightarrow> None)"
| "lp_next (LProfile i) s =
    (case user i s of
       Some (NeedProfile name) \<Rightarrow> Some (set_user i (read_profile name (ls_pool s), ls_pool s) s)
     | Some (UnknownProfile name) \<Rightarrow> Some (set_user i (NoLease, ls_pool s) s)
     | _ \<Rightarrow> None)"
| "lp_next (LDialled i now ok) s =
    (case user i s of
       Some (DialWith name pr) \<Rightarrow>
         Some (set_user i (if ok then acquire_dialled now name pr (ls_pool s) else (NoLease, ls_pool s)) s)
     | _ \<Rightarrow> None)"
| "lp_next (LRelease i now failed) s =
    (case user i s of
       Some (Lease e) \<Rightarrow> Some (set_user i (NoLease, releaseLocked now e failed (ls_pool s)) s)
     | _ \<Rightarrow> None)"
| "lp_next (LUpdate names new) s = Some (s\<lparr>ls_pool := UpdateProfiles names new (ls_pool s)\<rparr>)"

definition lp_init :: "nat \<Rightarrow> (string \<Rightarrow> Profile option) \<Rightarrow> lp_sys" where
  "lp_init n profiles = \<lparr>ls_pool = NewConnectionPool profiles, ls_users = replicate n NoLease\<rparr>"

inductive lp_reach :: "nat \<Rightarrow> (string \<Rightarrow> Profile option) \<Rightarrow> lp_sys \<Rightarrow> bool" for n profiles where
  lp_start: "lp_reach n profiles (lp_init n profiles)"
| lp_step: "lp_reach n profiles s \<Longrightarrow> lp_next ev s = Some t \<Longrightarrow> lp_reach n profiles t"

section \<open>The invariant\<close>

text \<open>The users that count on an entry: those checking it and those with a lease.\<close>

fun uses_entry :: "nat \<Rightarrow> lease_step \<Rightarrow> bool" where
  "uses_entry e (Check e' _ _) = (e' = e)"
| "uses_entry e (Lease e') = (e' = e)"
| "uses_entry e _ = False"

definition n_users :: "nat \<Rightarrow> lease_step list \<Rightarrow> int" where
  "n_users e us = int (length (filter (uses_entry e) us))"

text \<open>
  An entry's count is right; it is closed, once, exactly when it is retired and unused.
\<close>

definition entry_ok :: "poolEntry \<Rightarrow> int \<Rightarrow> bool" where
  "entry_ok en n \<longleftrightarrow> pe_users en = n \<and>
     pe_closes en = (if pe_retired en \<and> pe_users en = 0 then 1 else 0)"

definition pool_ok :: "ConnectionPool \<Rightarrow> (nat \<Rightarrow> int) \<Rightarrow> bool" where
  "pool_ok p n \<longleftrightarrow>
     (\<forall>e < length (lp_entries p). entry_ok (lp_entries p ! e) (n e)) \<and>
     (\<forall>e. length (lp_entries p) \<le> e \<longrightarrow> n e = 0) \<and>
     (\<forall>name e. lp_connections p name = Some e \<longrightarrow>
        e < length (lp_entries p) \<and> \<not> pe_retired (lp_entries p ! e) \<and> pe_name (lp_entries p ! e) = name)"

definition checks_ok :: "ConnectionPool \<Rightarrow> lease_step list \<Rightarrow> bool" where
  "checks_ok p us \<longleftrightarrow> (\<forall>e f name. Check e f name \<in> set us \<longrightarrow>
     e < length (lp_entries p) \<and> pe_name (lp_entries p ! e) = name)"

definition lp_inv :: "lp_sys \<Rightarrow> bool" where
  "lp_inv s \<longleftrightarrow> pool_ok (ls_pool s) (\<lambda>e. n_users e (ls_users s)) \<and> checks_ok (ls_pool s) (ls_users s)"

lemma n_users_simps [simp]:
  "n_users e (xs @ ys) = n_users e xs + n_users e ys"
  "n_users e (u # us) = (if uses_entry e u then 1 else 0) + n_users e us" "n_users e [] = 0"
  by (simp_all add: n_users_def)

lemma n_users_nonneg [simp]: "0 \<le> n_users e us"
  by (simp add: n_users_def)

lemma upd_entry_sel [simp]:
  "lp_connections (upd_entry e f p) = lp_connections p" "lp_profiles (upd_entry e f p) = lp_profiles p"
  "length (lp_entries (upd_entry e f p)) = length (lp_entries p)"
  "lp_entries (upd_entry e f p) ! i =
     (if i = e \<and> e < length (lp_entries p) then f (lp_entries p ! e) else lp_entries p ! i)"
  by (cases "e < length (lp_entries p)"; auto simp: upd_entry_def list_update_beyond)+

text \<open>A change of one entry that keeps it out of, or fit for, the map.\<close>

lemma upd_entry_ok:
  assumes "pool_ok p n" "e < length (lp_entries p)"
    and "entry_ok (f (lp_entries p ! e)) (n' e)" "\<And>i. i \<noteq> e \<Longrightarrow> n' i = n i"
    and "pe_name (f (lp_entries p ! e)) = pe_name (lp_entries p ! e)"
    and "pe_retired (f (lp_entries p ! e)) \<longrightarrow> pe_retired (lp_entries p ! e) \<or> (\<forall>name. lp_connections p name \<noteq> Some e)"
  shows "pool_ok (upd_entry e f p) n'"
proof -
  have "\<forall>i < length (lp_entries p). entry_ok (lp_entries (upd_entry e f p) ! i) (n' i)"
    using assms(1-4) by (auto simp: pool_ok_def)
  moreover have "\<forall>i. length (lp_entries p) \<le> i \<longrightarrow> n' i = 0"
    using assms(1,2,4) by (auto simp: pool_ok_def)
  moreover have "i < length (lp_entries p) \<and> \<not> pe_retired (lp_entries (upd_entry e f p) ! i) \<and>
      pe_name (lp_entries (upd_entry e f p) ! i) = name" if "lp_connections p name = Some i" for name i
    using assms(1,5,6) that by (auto simp: pool_ok_def)
  ultimately show ?thesis unfolding pool_ok_def by auto
qed

lemma take_ok:
  assumes "pool_ok p n" "live_entry name p = Some e"
  shows "pool_ok (take_entry e p) (n(e := n e + 1))" "e < length (lp_entries p)"
    "pe_name (lp_entries p ! e) = name"
proof -
  have e: "lp_connections p name = Some e" "\<not> pe_retired (lp_entries p ! e)"
    using assms(2) by (auto simp: live_entry_def split: option.splits if_splits)
  then have le: "e < length (lp_entries p)" "pe_name (lp_entries p ! e) = name"
    using assms(1) by (auto simp: pool_ok_def)
  then have "entry_ok (lp_entries p ! e) (n e)" using assms(1) by (simp add: pool_ok_def)
  then show "pool_ok (take_entry e p) (n(e := n e + 1))"
    unfolding take_entry_def using le e(2)
    by (intro upd_entry_ok [OF assms(1)]) (auto simp: entry_ok_def)
  show "e < length (lp_entries p)" "pe_name (lp_entries p ! e) = name" using le by simp_all
qed

lemma take_entry_sel:
  "length (lp_entries (take_entry e p)) = length (lp_entries p)"
  "pe_name (lp_entries (take_entry e p) ! i) = pe_name (lp_entries p ! i)"
  by (simp_all add: take_entry_def)

lemma release_ok:
  assumes "pool_ok p n" "e < length (lp_entries p)" "1 \<le> n e"
  shows "pool_ok (releaseLocked now e failed p) (n(e := n e - 1))"
  unfolding releaseLocked_def
proof (rule upd_entry_ok [OF assms(1,2)])
  have "entry_ok (lp_entries p ! e) (n e)" using assms(1,2) by (simp add: pool_ok_def)
  then show "entry_ok (release_entry now failed (lp_entries p ! e)) ((n(e := n e - 1)) e)"
    using assms(3) by (auto simp: entry_ok_def release_entry_def close_client_def Let_def)
qed (auto simp: release_entry_def close_client_def Let_def)

lemma retire_ok:
  assumes "pool_ok p n" "e < length (lp_entries p)" "pe_name (lp_entries p ! e) = name"
  shows "pool_ok (retire name e p) n"
proof -
  let ?p = "if lp_connections p name = Some e
    then p\<lparr>lp_connections := (lp_connections p)(name := None)\<rparr> else p"
  have p: "pool_ok ?p n" using assms(1) by (auto simp: pool_ok_def)
  have gone: "\<forall>nm. lp_connections ?p nm \<noteq> Some e"
    using assms(1,3) by (auto simp: pool_ok_def)
  have sel: "lp_entries ?p = lp_entries p" by simp
  have "entry_ok (lp_entries p ! e) (n e)" using assms(1,2) by (simp add: pool_ok_def)
  then have "entry_ok (retire_entry (lp_entries p ! e)) (n e)"
    by (auto simp: entry_ok_def retire_entry_def close_client_def Let_def)
  then have "pool_ok (upd_entry e retire_entry ?p) n"
    using assms(2) gone by (intro upd_entry_ok [OF p]) (auto simp: retire_entry_def close_client_def Let_def)
  then show ?thesis by (simp add: retire_def Let_def)
qed

lemma update_one_ok: "pool_ok p n \<Longrightarrow> pool_ok (update_one new name p) n"
proof -
  assume p: "pool_ok p n"
  have "pool_ok (retire name e p) n" if "lp_connections p name = Some e" for e
    using p that by (intro retire_ok) (auto simp: pool_ok_def)
  then show ?thesis using p by (auto simp: update_one_def split: option.splits)
qed

lemma UpdateProfiles_ok: "pool_ok p n \<Longrightarrow> pool_ok (UpdateProfiles names new p) n"
proof -
  assume "pool_ok p n"
  then have "pool_ok (foldl (\<lambda>p name. update_one new name p) p names) n"
    by (induction names arbitrary: p) (auto intro: update_one_ok)
  then show ?thesis by (simp add: UpdateProfiles_def pool_ok_def)
qed

text \<open>Entries are only added, and keep their names.\<close>

definition grows :: "ConnectionPool \<Rightarrow> ConnectionPool \<Rightarrow> bool" where
  "grows p q \<longleftrightarrow> length (lp_entries p) \<le> length (lp_entries q) \<and>
     (\<forall>e < length (lp_entries p). pe_name (lp_entries q ! e) = pe_name (lp_entries p ! e))"

lemma grows_refl [simp]: "grows p p"
  by (simp add: grows_def)

lemma grows_trans: "grows p q \<Longrightarrow> grows q r \<Longrightarrow> grows p r"
  by (auto simp: grows_def)

lemma grows_upd: "(\<And>en. pe_name (f en) = pe_name en) \<Longrightarrow> grows p (upd_entry e f p)"
  by (simp add: grows_def)

lemma grows_ops [simp]:
  "grows p (take_entry e p)" "grows p (releaseLocked now e failed p)" "grows p (retire name e p)"
proof -
  show "grows p (take_entry e p)" unfolding take_entry_def by (rule grows_upd) simp
  show "grows p (releaseLocked now e failed p)"
    unfolding releaseLocked_def by (rule grows_upd) (simp add: release_entry_def close_client_def Let_def)
  show "grows p (retire name e p)"
    by (simp add: retire_def grows_def retire_entry_def close_client_def Let_def)
qed

lemma grows_update: "grows p (UpdateProfiles names new p)"
proof -
  have one: "grows p (update_one new name p)" for p name
    by (simp add: update_one_def split: option.splits)
  have "grows p (foldl (\<lambda>p name. update_one new name p) p names)"
  proof (induction names arbitrary: p)
    case (Cons name names)
    then show ?case using one [of p name] by (auto intro: grows_trans)
  qed simp
  then show ?thesis by (simp add: UpdateProfiles_def grows_def)
qed

lemma checks_grow: "checks_ok p us \<Longrightarrow> grows p q \<Longrightarrow> checks_ok q us"
  by (fastforce simp: checks_ok_def grows_def)

lemma user_split:
  assumes "user i s = Some u"
  obtains xs ys where "ls_users s = xs @ u # ys" "length xs = i"
proof -
  have i: "i < length (ls_users s)" "ls_users s ! i = u"
    using assms by (auto simp: user_def split: if_splits)
  show ?thesis
    using that [of "take i (ls_users s)" "drop (Suc i) (ls_users s)"] id_take_nth_drop [OF i(1)] i by simp
qed

text \<open>A user takes a step from \<open>u\<close> to \<open>v\<close>, the pool from its counts to the new ones.\<close>

lemma set_user_inv:
  assumes "lp_inv s" "user i s = Some u" "grows (ls_pool s) q"
    and "\<And>n. pool_ok (ls_pool s) n \<Longrightarrow> (\<And>e. 0 \<le> n e) \<Longrightarrow>
      (\<And>e. (if uses_entry e u then 1 else 0) \<le> n e) \<Longrightarrow>
      pool_ok q (\<lambda>e. n e - (if uses_entry e u then 1 else 0) + (if uses_entry e v then 1 else 0))"
    and "\<And>e f name. v = Check e f name \<Longrightarrow> e < length (lp_entries q) \<and> pe_name (lp_entries q ! e) = name"
  shows "lp_inv (set_user i (v, q) s)"
proof -
  obtain xs ys where us: "ls_users s = xs @ u # ys" "length xs = i" using user_split [OF assms(2)] .
  have us': "ls_users (set_user i (v, q) s) = xs @ v # ys"
    using us by (simp add: set_user_def list_update_append)
  let ?n = "\<lambda>e. n_users e (ls_users s)"
  have "pool_ok q (\<lambda>e. ?n e - (if uses_entry e u then 1 else 0) + (if uses_entry e v then 1 else 0))"
    using assms(1) us by (intro assms(4)) (auto simp: lp_inv_def)
  moreover have "(\<lambda>e. ?n e - (if uses_entry e u then 1 else 0) + (if uses_entry e v then 1 else 0)) =
      (\<lambda>e. n_users e (xs @ v # ys))"
    using us by auto
  ultimately have "pool_ok q (\<lambda>e. n_users e (xs @ v # ys))" by simp
  moreover have "checks_ok q (xs @ v # ys)"
  proof -
    have "checks_ok q (xs @ u # ys)"
      using assms(1,3) us checks_grow [of "ls_pool s" "xs @ u # ys" q] by (simp add: lp_inv_def)
    then show ?thesis using assms(5) by (auto simp: checks_ok_def)
  qed
  ultimately show ?thesis using us' by (simp add: lp_inv_def) (simp add: set_user_def)
qed

lemma upd_id: "(\<lambda>e. n e + (if e' = e then 1 else 0 :: int)) = n(e' := n e' + 1)"
  "(\<lambda>e. n e - (if e' = e then 1 else 0 :: int)) = n(e' := n e' - 1)"
  by auto

lemma used_lt: "pool_ok p n \<Longrightarrow> 1 \<le> n e \<Longrightarrow> e < length (lp_entries p)"
  unfolding pool_ok_def by (metis not_less not_one_le_zero)

lemma acquire_begin_inv:
  assumes "lp_inv s" "user i s = Some NoLease"
  shows "lp_inv (set_user i (acquire_begin now name (ls_pool s)) s)"
proof (cases "live_entry name (ls_pool s)")
  case None
  then obtain v where v: "acquire_begin now name (ls_pool s) = (v, ls_pool s)"
    "\<And>e. \<not> uses_entry e v" "\<And>e f nm. v \<noteq> Check e f nm"
    by (auto simp: acquire_begin_def read_profile_def split: option.splits)
  show ?thesis
    unfolding v(1) by (rule set_user_inv [OF assms]) (use v in simp_all)
next
  case (Some e)
  then obtain f where v: "acquire_begin now name (ls_pool s) = (Check e f name, take_entry e (ls_pool s))"
    by (simp add: acquire_begin_def)
  have lt: "e < length (lp_entries (ls_pool s))" "pe_name (lp_entries (ls_pool s) ! e) = name"
    using take_ok(2,3) [OF _ Some] assms(1) by (auto simp: lp_inv_def)
  show ?thesis
    unfolding v
  proof (rule set_user_inv [OF assms])
    show "pool_ok (ls_pool s) n \<Longrightarrow> pool_ok (take_entry e (ls_pool s))
        (\<lambda>ea. n ea - (if uses_entry ea NoLease then 1 else 0) +
              (if uses_entry ea (Check e f name) then 1 else 0))" for n
      using take_ok(1) [OF _ Some, of n] by (simp add: upd_id)
  qed (use lt in \<open>simp_all add: take_entry_sel\<close>)
qed

lemma acquire_checked_inv:
  assumes "lp_inv s" "user i s = Some (Check e fresh name)"
  shows "lp_inv (set_user i (acquire_checked now e fresh name alive (ls_pool s)) s)"
proof -
  have e: "e < length (lp_entries (ls_pool s))" "pe_name (lp_entries (ls_pool s) ! e) = name"
  proof -
    obtain xs ys where "ls_users s = xs @ Check e fresh name # ys" using user_split [OF assms(2)] .
    then show "e < length (lp_entries (ls_pool s))" "pe_name (lp_entries (ls_pool s) ! e) = name"
      using assms(1) by (auto simp: lp_inv_def checks_ok_def)
  qed
  show ?thesis
  proof (cases "fresh \<or> alive")
    case True
    let ?q = "if \<not> fresh then upd_entry e (\<lambda>en. en\<lparr>pe_lastOK := now\<rparr>) (ls_pool s) else ls_pool s"
    have q: "pool_ok (ls_pool s) n \<Longrightarrow> pool_ok ?q n" for n
    proof -
      assume n: "pool_ok (ls_pool s) n"
      then have "entry_ok (lp_entries (ls_pool s) ! e) (n e)" using e by (simp add: pool_ok_def)
      then have "pool_ok (upd_entry e (\<lambda>en. en\<lparr>pe_lastOK := now\<rparr>) (ls_pool s)) n"
        by (intro upd_entry_ok [OF n e(1)]) (simp_all add: entry_ok_def)
      then show ?thesis using n by simp
    qed
    have v: "acquire_checked now e fresh name alive (ls_pool s) = (Lease e, ?q)"
      using True by (simp add: acquire_checked_def)
    show ?thesis
      unfolding v
      by (rule set_user_inv [OF assms]) (use q in \<open>simp_all add: grows_upd\<close>)
  next
    case False
    let ?q = "releaseLocked now e False (retire name e (ls_pool s))"
    have v: "acquire_checked now e fresh name alive (ls_pool s) = (NeedProfile name, ?q)"
      using False by (simp add: acquire_checked_def)
    show ?thesis
      unfolding v
    proof (rule set_user_inv [OF assms])
      show "grows (ls_pool s) ?q" by (rule grows_trans [OF grows_ops(3) grows_ops(2)])
      fix n assume n: "pool_ok (ls_pool s) n"
        "\<And>ea. (if uses_entry ea (Check e fresh name) then 1 else 0) \<le> n ea"
      have "1 \<le> n e" using n(2) [of e] by simp
      moreover have "length (lp_entries (retire name e (ls_pool s))) = length (lp_entries (ls_pool s))"
        by (simp add: retire_def Let_def)
      ultimately have "pool_ok ?q (n(e := n e - 1))"
        using release_ok [OF retire_ok [OF n(1) e]] e(1) by simp
      then show "pool_ok ?q (\<lambda>ea. n ea - (if uses_entry ea (Check e fresh name) then 1 else 0) +
            (if uses_entry ea (NeedProfile name) then 1 else 0))"
        by (simp add: upd_id)
    qed simp
  qed
qed

lemma acquire_dialled_inv:
  assumes "lp_inv s" "user i s = Some (DialWith name pr)"
  shows "lp_inv (set_user i (acquire_dialled now name pr (ls_pool s)) s)"
proof (cases "live_entry name (ls_pool s)")
  case (Some e)
  then have v: "acquire_dialled now name pr (ls_pool s) = (Lease e, take_entry e (ls_pool s))"
    by (simp add: acquire_dialled_def)
  show ?thesis
    unfolding v
  proof (rule set_user_inv [OF assms])
    show "pool_ok (ls_pool s) n \<Longrightarrow> pool_ok (take_entry e (ls_pool s))
        (\<lambda>ea. n ea - (if uses_entry ea (DialWith name pr) then 1 else 0) +
              (if uses_entry ea (Lease e) then 1 else 0))" for n
      using take_ok(1) [OF _ Some, of n] by (simp add: upd_id)
  qed simp_all
next
  case None
  let ?p = "ls_pool s" and ?l = "length (lp_entries (ls_pool s))"
  let ?q = "?p\<lparr>lp_entries := lp_entries ?p @ [\<lparr>pe_users = 1, pe_retired = False, pe_lastOK = now,
        pe_name = name, pe_profile = pr, pe_closes = 0\<rparr>],
      lp_connections := (lp_connections ?p)(name \<mapsto> ?l)\<rparr>"
  have v: "acquire_dialled now name pr ?p = (Lease ?l, ?q)"
    using None by (simp add: acquire_dialled_def)
  show ?thesis
    unfolding v
  proof (rule set_user_inv [OF assms])
    show "grows ?p ?q" by (simp add: grows_def nth_append)
    fix n assume n: "pool_ok ?p n"
    then have "n ?l = 0" by (simp add: pool_ok_def)
    then have "pool_ok ?q (n(?l := n ?l + 1))"
      using n by (auto simp: pool_ok_def nth_append entry_ok_def less_Suc_eq)
    then show "pool_ok ?q (\<lambda>ea. n ea - (if uses_entry ea (DialWith name pr) then 1 else 0) +
          (if uses_entry ea (Lease ?l) then 1 else 0))"
      by (simp add: upd_id)
  qed simp
qed

lemma lp_next_inv:
  assumes "lp_inv s" "lp_next ev s = Some t"
  shows "lp_inv t"
proof (cases ev)
  case (LAcquire i now name)
  then show ?thesis using assms acquire_begin_inv [OF assms(1)]
    by (auto split: option.splits lease_step.splits)
next
  case (LChecked i now alive)
  then show ?thesis using assms acquire_checked_inv [OF assms(1)]
    by (auto split: option.splits lease_step.splits)
next
  case (LProfile i)
  then obtain u v where u: "user i s = Some u" "\<And>e. \<not> uses_entry e u" "t = set_user i (v, ls_pool s) s"
    "\<And>e. \<not> uses_entry e v" "\<And>e f nm. v \<noteq> Check e f nm"
    using assms(2) by (auto simp: read_profile_def split: option.splits lease_step.splits)
  show ?thesis unfolding u(3) by (rule set_user_inv [OF assms(1) u(1)]) (use u in simp_all)
next
  case (LDialled i now ok)
  then obtain name pr where u: "user i s = Some (DialWith name pr)"
    using assms(2) by (auto split: option.splits lease_step.splits)
  show ?thesis
  proof (cases ok)
    case True
    then show ?thesis using acquire_dialled_inv [OF assms(1) u, of now] assms(2) LDialled u by auto
  next
    case False
    then have "t = set_user i (NoLease, ls_pool s) s" using assms(2) LDialled u by simp
    moreover have "lp_inv (set_user i (NoLease, ls_pool s) s)"
      by (rule set_user_inv [OF assms(1) u]) simp_all
    ultimately show ?thesis by simp
  qed
next
  case (LRelease i now failed)
  then obtain e where u: "user i s = Some (Lease e)"
    and t: "t = set_user i (NoLease, releaseLocked now e failed (ls_pool s)) s"
    using assms(2) by (auto split: option.splits lease_step.splits)
  show ?thesis
    unfolding t
  proof (rule set_user_inv [OF assms(1) u])
    fix n assume n: "pool_ok (ls_pool s) n" "\<And>ea. (if uses_entry ea (Lease e) then 1 else 0) \<le> n ea"
    then have "1 \<le> n e" using n(2) [of e] by simp
    then show "pool_ok (releaseLocked now e failed (ls_pool s))
        (\<lambda>ea. n ea - (if uses_entry ea (Lease e) then 1 else 0) + (if uses_entry ea NoLease then 1 else 0))"
      using release_ok [OF n(1) used_lt [OF n(1)]] by (simp add: upd_id)
  qed simp_all
next
  case (LUpdate names new)
  then have "t = s\<lparr>ls_pool := UpdateProfiles names new (ls_pool s)\<rparr>" using assms(2) by simp
  then show ?thesis
    using assms(1) UpdateProfiles_ok checks_grow [OF _ grows_update] by (auto simp: lp_inv_def)
qed

lemma lp_reach_inv: "lp_reach n profiles s \<Longrightarrow> lp_inv s"
proof (induction rule: lp_reach.induct)
  case lp_start
  have "n_users e (replicate n NoLease) = 0" for e by (induction n) simp_all
  then show ?case
    by (auto simp: lp_inv_def lp_init_def NewConnectionPool_def pool_ok_def checks_ok_def)
qed (rule lp_next_inv)

section \<open>What the pool guarantees\<close>

lemma n_users_in: "u \<in> set us \<Longrightarrow> uses_entry e u \<Longrightarrow> 1 \<le> n_users e us"
proof -
  assume "u \<in> set us" "uses_entry e u"
  then obtain xs ys where "us = xs @ u # ys" by (meson split_list)
  then show ?thesis using \<open>uses_entry e u\<close> by simp
qed

lemma user_in: "user i s = Some u \<Longrightarrow> u \<in> set (ls_users s)"
  by (auto simp: user_def split: if_splits)

text \<open>
  C10: a connection is never closed underneath an operation. In every reachable state of
  the pool, whatever the order of leases, failures, probes and reloads of the
  configuration, the entry of an outstanding lease (or one being probed) has not been
  closed, its count is at least one, and every retired entry that nobody uses was closed
  exactly once.
\<close>

theorem lease_never_closed:
  assumes "lp_reach n profiles s"
  shows "(\<forall>i e. user i s = Some (Lease e) \<or> (\<exists>f name. user i s = Some (Check e f name)) \<longrightarrow>
      e < length (lp_entries (ls_pool s)) \<and> pe_closes (lp_entries (ls_pool s) ! e) = 0 \<and>
      1 \<le> pe_users (lp_entries (ls_pool s) ! e)) \<and>
    (\<forall>en \<in> set (lp_entries (ls_pool s)).
      pe_closes en = (if pe_retired en \<and> pe_users en = 0 then 1 else 0)) \<and>
    (\<forall>name e. lp_connections (ls_pool s) name = Some e \<longrightarrow> \<not> pe_retired (lp_entries (ls_pool s) ! e))"
proof -
  let ?p = "ls_pool s"
  have p: "pool_ok ?p (\<lambda>e. n_users e (ls_users s))"
    using lp_reach_inv [OF assms] by (simp add: lp_inv_def)
  have "e < length (lp_entries ?p) \<and> pe_closes (lp_entries ?p ! e) = 0 \<and> 1 \<le> pe_users (lp_entries ?p ! e)"
    if "user i s = Some u" "uses_entry e u" for i e u
  proof -
    have n: "1 \<le> n_users e (ls_users s)" using n_users_in [OF user_in [OF that(1)] that(2)] .
    then have "e < length (lp_entries ?p)" using used_lt [OF p] by simp
    moreover from this have "entry_ok (lp_entries ?p ! e) (n_users e (ls_users s))"
      using p by (simp add: pool_ok_def)
    ultimately show ?thesis using n by (simp add: entry_ok_def)
  qed
  then have "\<forall>i e. user i s = Some (Lease e) \<or> (\<exists>f name. user i s = Some (Check e f name)) \<longrightarrow>
      e < length (lp_entries ?p) \<and> pe_closes (lp_entries ?p ! e) = 0 \<and> 1 \<le> pe_users (lp_entries ?p ! e)"
    by (metis uses_entry.simps(1,2))
  moreover have "pe_closes en = (if pe_retired en \<and> pe_users en = 0 then 1 else 0)"
    if "en \<in> set (lp_entries ?p)" for en
    using that p by (auto simp: in_set_conv_nth pool_ok_def entry_ok_def)
  moreover have "\<forall>name e. lp_connections ?p name = Some e \<longrightarrow> \<not> pe_retired (lp_entries ?p ! e)"
    using p by (simp add: pool_ok_def)
  ultimately show ?thesis by blast
qed

text \<open>Reloading: what stays connected is a profile whose settings stayed the same.\<close>

lemma update_one_keeps:
  assumes "lp_connections (update_one new name p) nm = Some e"
  shows "lp_connections p nm = Some e" "nm = name \<Longrightarrow> lp_profiles p name = Some old \<Longrightarrow>
    \<exists>n. new name = Some n \<and> \<not> profileChanged old n"
  using assms
  by (auto simp: update_one_def retire_def Let_def split: option.splits if_splits)

lemma update_one_profiles [simp]: "lp_profiles (update_one new name p) = lp_profiles p"
  by (simp add: update_one_def retire_def Let_def split: option.splits)

lemma update_fold_keeps:
  "lp_connections (foldl (\<lambda>p name. update_one new name p) p names) nm = Some e \<Longrightarrow>
   lp_connections p nm = Some e \<and>
   (nm \<in> set names \<longrightarrow> (\<forall>old. lp_profiles p nm = Some old \<longrightarrow>
      (\<exists>n. new nm = Some n \<and> \<not> profileChanged old n)))"
proof (induction names arbitrary: p)
  case (Cons name names)
  let ?q = "update_one new name p"
  have IH: "lp_connections ?q nm = Some e"
    "nm \<in> set names \<longrightarrow> (\<forall>old. lp_profiles ?q nm = Some old \<longrightarrow>
      (\<exists>n. new nm = Some n \<and> \<not> profileChanged old n))"
    using Cons.IH [of ?q] Cons.prems by simp_all
  show ?case using update_one_keeps [OF IH(1)] IH(2) by auto
qed simp

text \<open>
  A reload retires the connections it should. After \<open>UpdateProfiles\<close> a name that was
  configured before is still connected only if it is in the new configuration with the
  same connection settings; a connection stays the same entry.
\<close>

theorem reload_retires_changed:
  assumes "dom (lp_profiles p) \<subseteq> set names"
    and "lp_connections (UpdateProfiles names new p) name = Some e"
    and "lp_profiles p name = Some old"
  shows "lp_connections p name = Some e \<and> (\<exists>n. new name = Some n \<and> \<not> profileChanged old n)"
proof -
  have "name \<in> set names" using assms(1,3) by auto
  then show ?thesis
    using update_fold_keeps [of new p names name e] assms(2,3) by (simp add: UpdateProfiles_def)
qed

text \<open>Two profiles of the same name, the second on another host.\<close>

definition lp_old :: Profile where
  "lp_old = \<lparr>p_Host = ''old'', p_Username = ''u'', p_Password = ''p'', p_SSHKey = '''', p_Port = 21,
     p_Protocol = ''ftp'', p_RemotePath = ''/'', p_Context = '''', p_AutoSync = True,
     p_AutoSyncDebounce = 0, p_AutoSyncDeletes = False, p_VerifyHostKey = None,
     p_FTPConnections = 0, p_TLSCACert = ''''\<rparr>"

definition lp_new :: Profile where
  "lp_new = lp_old\<lparr>p_Host := ''new''\<rparr>"

fun lp_run :: "lp_event list \<Rightarrow> lp_sys \<Rightarrow> lp_sys option" where
  "lp_run [] s = Some s"
| "lp_run (ev # evs) s = (case lp_next ev s of None \<Rightarrow> None | Some t \<Rightarrow> lp_run evs t)"

lemma lp_run_reach: "lp_reach n profiles s \<Longrightarrow> lp_run evs s = Some t \<Longrightarrow> lp_reach n profiles t"
  by (induction evs arbitrary: s) (auto split: option.splits intro: lp_step)

text \<open>
  The daemon acquires the profile and dials; while it dials, the configuration is reloaded
  with a new host; then the dial succeeds.
\<close>

definition lp_race :: "lp_sys option" where
  "lp_race = lp_run [LAcquire 0 0 ''web'', LUpdate [''web''] [''web'' \<mapsto> lp_new], LDialled 0 0 True]
     (lp_init 1 [''web'' \<mapsto> lp_old])"


lemma lease_never_closed_witness:
  "\<exists>s. lp_race = Some s \<and> pe_closes (lp_entries (ls_pool s) ! 0) = 0"
proof -
  obtain s where s: "lp_race = Some s" "user 0 s = Some (Lease 0)"
    by (simp add: lp_race_def lp_init_def user_def set_user_def acquire_begin_def live_entry_def
      NewConnectionPool_def read_profile_def UpdateProfiles_def update_one_def acquire_dialled_def)
  have "lp_reach 1 [''web'' \<mapsto> lp_old] s"
    using lp_run_reach [OF lp_start] s(1) unfolding lp_race_def by blast
  then show ?thesis using lease_never_closed s by blast
qed

definition lp_connected :: ConnectionPool where
  "lp_connected = \<lparr>lp_connections = [''web'' \<mapsto> 0], lp_profiles = [''web'' \<mapsto> lp_old],
     lp_entries = [\<lparr>pe_users = 0, pe_retired = False, pe_lastOK = 0, pe_name = ''web'',
       pe_profile = lp_old, pe_closes = 0\<rparr>]\<rparr>"

lemma reload_retires_changed_witness:
  "lp_connections (UpdateProfiles [''web''] [''web'' \<mapsto> lp_old\<lparr>p_AutoSync := False\<rparr>] lp_connected) ''web'' =
     Some 0 \<and> (\<exists>n. [''web'' \<mapsto> lp_old\<lparr>p_AutoSync := False\<rparr>] ''web'' = Some n \<and> \<not> profileChanged lp_old n)"
proof -
  let ?new = "[''web'' \<mapsto> lp_old\<lparr>p_AutoSync := False\<rparr>]"
  have c: "lp_connections (UpdateProfiles [''web''] ?new lp_connected) ''web'' = Some 0"
    by (simp add: UpdateProfiles_def update_one_def lp_connected_def profileChanged_def verify_def)
  have "dom (lp_profiles lp_connected) \<subseteq> set [''web'']" "lp_profiles lp_connected ''web'' = Some lp_old"
    by (simp_all add: lp_connected_def)
  from reload_retires_changed [OF this(1) c this(2)] show ?thesis using c by blast
qed

end
