(* ===== verification/Queue_Pool.thy ===== *)
theory Queue_Pool
  imports Upload_Queue Connection_Pool
begin

text \<open>
  The daemon's upload queue on the daemon's connection pool: \<open>Acquire\<close> of
  internal/transfer/pool.go from its lookup to its return, as the source of leases
  \<open>processUpload\<close> works with.
\<close>

section \<open>Acquire\<close>

text \<open>
  The world below the pool: the clock, the probe of an entry's client, the dial of a
  profile, and the client of each entry.
\<close>

record 'x PoolEnv =
  px_Now :: "'x \<Rightarrow> gotime"
  px_IsAlive :: "nat \<Rightarrow> 'x \<Rightarrow> bool \<times> 'x"
  px_Connect :: "Profile \<Rightarrow> 'x \<Rightarrow> goerr option \<times> 'x"
  px_client :: "nat \<Rightarrow> 'x RemoteClient"

definition pool_dial :: "'x PoolEnv \<Rightarrow> string \<Rightarrow> ConnectionPool \<Rightarrow> 'x \<Rightarrow> nat res \<times> ConnectionPool \<times> 'x" where
  "pool_dial env name p x =
    (case read_profile name p of
       DialWith nm pr \<Rightarrow>
         (case px_Connect env pr x of
            (Some err, x) \<Rightarrow> (Inl err, p, x)
          | (None, x) \<Rightarrow>
              (case acquire_dialled (px_Now env x) nm pr p of
                 (Lease e, p) \<Rightarrow> (Inr e, p, x)
               | (_, p) \<Rightarrow> (Inl (ErrorString ''''), p, x)))
     | _ \<Rightarrow> (Inl (ErrorString (''unknown profile: '' @ name)), p, x))"

definition pool_acquire :: "'x PoolEnv \<Rightarrow> string \<Rightarrow> ConnectionPool \<Rightarrow> 'x \<Rightarrow> nat res \<times> ConnectionPool \<times> 'x" where
  "pool_acquire env name p x =
    (case acquire_begin (px_Now env x) name p of
       (Check e fresh nm, p) \<Rightarrow>
         (let (alive, x) = (if fresh then (True, x) else px_IsAlive env e x) in
          case acquire_checked (px_Now env x) e fresh nm alive p of
            (Lease e, p) \<Rightarrow> (Inr e, p, x)
          | (_, p) \<Rightarrow> pool_dial env name p x)
     | (_, p) \<Rightarrow> pool_dial env name p x)"

text \<open>The calls of a client in a world that also holds the pool.\<close>

definition on_world :: "('x \<Rightarrow> 'a \<times> 'x) \<Rightarrow> ('p \<times> 'x) upq \<Rightarrow> 'a \<times> ('p \<times> 'x) upq" where
  "on_world f s = (case f (snd (uq_world s)) of (r, x) \<Rightarrow> (r, s\<lparr>uq_world := (fst (uq_world s), x)\<rparr>))"

definition lift_client :: "'x RemoteClient \<Rightarrow> ('p \<times> 'x) upq RemoteClient" where
  "lift_client c =
    \<lparr>rc_Connect = on_world (rc_Connect c), rc_Close = on_world (rc_Close c),
     rc_IsAlive = on_world (rc_IsAlive c), rc_Stat = (\<lambda>p. on_world (rc_Stat c p)),
     rc_ReadDir = (\<lambda>p. on_world (rc_ReadDir c p)), rc_Upload = (\<lambda>p q. on_world (rc_Upload c p q)),
     rc_UploadResume = (\<lambda>p q. on_world (rc_UploadResume c p q)),
     rc_Download = (\<lambda>p q. on_world (rc_Download c p q)), rc_Mkdir = (\<lambda>p. on_world (rc_Mkdir c p)),
     rc_MkdirAll = (\<lambda>p. on_world (rc_MkdirAll c p)), rc_Remove = (\<lambda>p. on_world (rc_Remove c p)),
     rc_RemoveDir = (\<lambda>p. on_world (rc_RemoveDir c p)), rc_Chmod = (\<lambda>p m. on_world (rc_Chmod c p m)),
     rc_Concurrent = rc_Concurrent c,
     rc_DownloadKnown = map_option (\<lambda>dk p q n t. on_world (dk p q n t)) (rc_DownloadKnown c)\<rparr>"

definition pool_release :: "'x PoolEnv \<Rightarrow> nat \<Rightarrow> goerr option \<Rightarrow> (ConnectionPool \<times> 'x) upq \<Rightarrow>
    (ConnectionPool \<times> 'x) upq" where
  "pool_release env e err s =
     (case uq_world s of (p, x) \<Rightarrow> s\<lparr>uq_world := (releaseLocked (px_Now env x) e (err \<noteq> None) p, x)\<rparr>)"

definition pool_Acquire :: "'x PoolEnv \<Rightarrow> string \<Rightarrow> (ConnectionPool \<times> 'x) upq \<Rightarrow>
    (ConnectionPool \<times> 'x) upq lease res \<times> (ConnectionPool \<times> 'x) upq" where
  "pool_Acquire env name s =
    (case uq_world s of (p, x) \<Rightarrow>
       (case pool_acquire env name p x of (r, p, x) \<Rightarrow>
          (map_sum id (\<lambda>e. (lift_client (px_client env e), pool_release env e)) r, s\<lparr>uq_world := (p, x)\<rparr>)))"

section \<open>The pool is a source of leases\<close>

definition pool_good :: "(nat \<Rightarrow> int) \<Rightarrow> (ConnectionPool \<times> 'x) upq \<Rightarrow> bool" where
  "pool_good n s \<longleftrightarrow> (\<forall>e. 0 \<le> n e) \<and> pool_ok (fst (uq_world s)) n"

lemma dialled_ok:
  assumes "pool_ok p n" "acquire_dialled now name pr p = (step, p')"
  obtains e where "step = Lease e" "pool_ok p' (n(e := n e + 1))" "e < length (lp_entries p')"
proof (cases "live_entry name p")
  case (Some e)
  then show ?thesis using that take_ok [OF assms(1) Some] assms(2) by (auto simp: acquire_dialled_def take_entry_sel)
next
  case None
  let ?k = "length (lp_entries p)"
  have "n ?k = 0" using assms(1) by (auto simp: pool_ok_def)
  then have "pool_ok p' (n(?k := n ?k + 1))"
    using assms None
    by (auto simp: acquire_dialled_def pool_ok_def nth_append entry_ok_def less_Suc_eq split: if_splits)
  then show ?thesis using that assms(2) None by (auto simp: acquire_dialled_def)
qed

lemma pool_dial_ok:
  assumes "pool_ok p n" "pool_dial env name p x = (r, p', x')"
  shows "case r of Inl _ \<Rightarrow> pool_ok p' n | Inr e \<Rightarrow> pool_ok p' (n(e := n e + 1)) \<and> e < length (lp_entries p')"
proof (cases "lp_profiles p name")
  case None
  then show ?thesis using assms by (auto simp: pool_dial_def read_profile_def)
next
  case (Some pr)
  obtain err x1 where c: "px_Connect env pr x = (err, x1)" by fastforce
  obtain step p1 where d: "acquire_dialled (px_Now env x1) name pr p = (step, p1)" by fastforce
  obtain e where "step = Lease e" "pool_ok p1 (n(e := n e + 1))" "e < length (lp_entries p1)"
    using dialled_ok [OF assms(1) d] .
  then show ?thesis
    using assms Some c d by (auto simp: pool_dial_def read_profile_def split: option.splits)
qed

lemma pool_acquire_ok:
  assumes "pool_ok p n" "\<forall>e. 0 \<le> n e" "pool_acquire env name p x = (r, p', x')"
  shows "case r of Inl _ \<Rightarrow> pool_ok p' n | Inr e \<Rightarrow> pool_ok p' (n(e := n e + 1)) \<and> e < length (lp_entries p')"
proof (cases "live_entry name p")
  case None
  then have "pool_dial env name p x = (r, p', x')"
    using assms(3) by (auto simp: pool_acquire_def acquire_begin_def read_profile_def split: option.splits)
  then show ?thesis by (rule pool_dial_ok [OF assms(1)])
next
  case (Some e)
  let ?now = "px_Now env x" let ?p = "take_entry e p"
  let ?fresh = "time_Sub ?now (pe_lastOK (lp_entries p ! e)) < freshFor"
  obtain alive x1 where a: "(if ?fresh then (True, x) else px_IsAlive env e x) = (alive, x1)" by fastforce
  note t = take_ok [OF assms(1) Some]
  show ?thesis
  proof (cases "?fresh \<or> alive")
    case True
    have ok: "pool_ok (upd_entry e (\<lambda>en. en\<lparr>pe_lastOK := v\<rparr>) ?p) (n(e := n e + 1))" for v
      using t by (intro upd_entry_ok [OF t(1)]) (auto simp: take_entry_sel pool_ok_def entry_ok_def)
    show ?thesis
      using assms(3) Some a True t ok
      by (auto simp: pool_acquire_def acquire_begin_def acquire_checked_def take_entry_sel)
  next
    case False
    let ?q = "releaseLocked (px_Now env x1) e False (retire name e ?p)"
    have q: "pool_ok (retire name e ?p) (n(e := n e + 1))"
      using t by (intro retire_ok [OF t(1)]) (simp_all add: take_entry_sel)
    have len: "length (lp_entries (retire name e ?p)) = length (lp_entries p)"
      by (simp add: retire_def Let_def take_entry_sel)
    have "pool_ok ?q ((n(e := n e + 1))(e := (n(e := n e + 1)) e - 1))"
      using assms(2) t(2) len by (intro release_ok [OF q]) simp_all
    then have "pool_ok ?q n" by simp
    moreover have "pool_dial env name ?q x1 = (r, p', x')"
      using assms(3) Some a False by (auto simp: pool_acquire_def acquire_begin_def acquire_checked_def)
    ultimately show ?thesis by (rule pool_dial_ok)
  qed
qed

lemma lift_calls_keep: "calls_keep (pool_good m) (lift_client c)"
  by (simp add: calls_keep_def keeps_def lift_client_def on_world_def pool_good_def split: prod.splits)

interpretation pool_source: client_source "pool_Acquire env" pool_good
proof (unfold_locales, goal_cases)
  case (4 n s name l s')
  obtain p x where w: "uq_world s = (p, x)" by fastforce
  obtain r p' x' where a: "pool_acquire env name p x = (r, p', x')" by (metis surj_pair)
  have l: "map_sum id (\<lambda>e. (lift_client (px_client env e), pool_release env e)) r = Inr l"
    and s': "s' = s\<lparr>uq_world := (p', x')\<rparr>"
    using 4(2) w a by (auto simp: pool_Acquire_def)
  then obtain e where r: "r = Inr e" "l = (lift_client (px_client env e), pool_release env e)"
    by (cases r) auto
  have ok: "pool_ok p' (n(e := n e + 1))"
    using pool_acquire_ok [OF _ _ a] 4(1) w r(1) by (simp add: pool_good_def)
  have rel: "pool_good (m(e := m e - 1)) (pool_release env e err t)" if "pool_good m t" "1 \<le> m e" for m err t
  proof -
    obtain q y where t: "uq_world t = (q, y)" by fastforce
    have "e < length (lp_entries q)"
      using that t by (metis fst_conv not_le pool_good_def pool_ok_def zero_less_one_class.zero_le_one
          not_one_le_zero)
    then show ?thesis
      using that t release_ok [of q m e] by (auto simp: pool_good_def pool_release_def)
  qed
  show ?case
    using 4(1) ok rel lift_calls_keep unfolding r(2) fst_conv snd_conv
    by (intro exI [of _ e]) (auto simp: pool_good_def s')
next
  case (3 n s name err s')
  obtain p x where w: "uq_world s = (p, x)" by fastforce
  obtain r p' x' where a: "pool_acquire env name p x = (r, p', x')" by (metis surj_pair)
  then have "r = Inl err" "s' = s\<lparr>uq_world := (p', x')\<rparr>"
    using 3(2) w by (cases r; auto simp: pool_Acquire_def)+
  then show ?case using pool_acquire_ok [OF _ _ a] 3(1) w by (simp add: pool_good_def)
qed (simp_all add: pool_good_def dirs_free_def)

text \<open>
  C29: the queue gives back every lease. Processing a task on the connection pool leaves the
  pool with the same number of leases outstanding for every connection as before, whatever
  fails on the way, and with every connection closed exactly once as soon as it is retired
  and unused.
\<close>

theorem queue_returns_leases:
  assumes "qe_Acquire env = pool_Acquire penv" "env_keeps (pool_good n) env"
    and "\<forall>e. 0 \<le> n e" "pool_ok (fst (uq_world s)) n"
  shows "pool_ok (fst (uq_world (snd (processUpload dm env profiles task s)))) n"
  using pool_source.processUpload_balanced [OF assms(1,2), of s dm profiles task] assms(3,4)
  by (simp add: pool_good_def)

end
