(* ===== verification/Queue_Example.thy ===== *)
theory Queue_Example
  imports Queue_Pool
begin

text \<open>
  A small daemon the properties of the upload queue are applied to: a world that records
  what is asked of it, a client whose uploads succeed or fail, and a pool.
\<close>

record dworld =
  dw_asked :: nat
  dw_removed :: "string list"
  dw_put :: "string list"
  dw_reports :: "(string \<times> string \<times> goerr option) list"

definition dw_start :: "dworld upq" where
  "dw_start = \<lparr>uq_knownDirs = {}, uq_world = \<lparr>dw_asked = 0, dw_removed = [], dw_put = [], dw_reports = []\<rparr>\<rparr>"

definition on_dw :: "(dworld \<Rightarrow> dworld) \<Rightarrow> dworld upq \<Rightarrow> dworld upq" where
  "on_dw f s = s\<lparr>uq_world := f (uq_world s)\<rparr>"

definition dw_client :: "goerr option \<Rightarrow> dworld upq RemoteClient" where
  "dw_client err =
    \<lparr>rc_Connect = (\<lambda>w. (None, w)), rc_Close = (\<lambda>w. (None, w)), rc_IsAlive = (\<lambda>w. (True, w)),
     rc_Stat = (\<lambda>p w. (Inl (Sentinel ErrNotExist), w)), rc_ReadDir = (\<lambda>p w. (Inr [], w)),
     rc_Upload = (\<lambda>p q w. (err, on_dw (\<lambda>d. d\<lparr>dw_put := dw_put d @ [q]\<rparr>) w)),
     rc_UploadResume = (\<lambda>p q w. (err, on_dw (\<lambda>d. d\<lparr>dw_put := dw_put d @ [q]\<rparr>) w)),
     rc_Download = (\<lambda>p q w. (None, w)), rc_Mkdir = (\<lambda>p w. (None, w)), rc_MkdirAll = (\<lambda>p w. (None, w)),
     rc_Remove = (\<lambda>p w. (None, on_dw (\<lambda>d. d\<lparr>dw_removed := dw_removed d @ [p]\<rparr>) w)),
     rc_RemoveDir = (\<lambda>p w. (None, on_dw (\<lambda>d. d\<lparr>dw_removed := dw_removed d @ [p]\<rparr>) w)),
     rc_Chmod = (\<lambda>p m w. (None, w)), rc_Concurrent = None, rc_DownloadKnown = None\<rparr>"

definition dw_file :: FileInfo where
  "dw_file = \<lparr>fi_Name = ''a'', fi_Size = 3, fi_ModTime = 5, fi_Kind = KRegular, fi_Perm = 420\<rparr>"

text \<open>\<open>ignore\<close> is what reading \<open>.syncignore\<close> gives.\<close>

definition dw_env :: "goerr option \<Rightarrow> string res \<Rightarrow> dworld upq QueueEnv" where
  "dw_env err ignore =
    \<lparr>qe_Abs = (\<lambda>p. if IsAbs p \<and> Clean p = p then Inr p else Inl (ErrorString ''relative'')),
     qe_Stat = (\<lambda>p w. (Inr dw_file, w)), qe_ReadFile = (\<lambda>p w. (ignore, w)),
     qe_Acquire = (\<lambda>n w. (Inr (dw_client err, \<lambda>e w. w), on_dw (\<lambda>d. d\<lparr>dw_asked := Suc (dw_asked d)\<rparr>) w)),
     qe_wait = (\<lambda>d w. (True, w)),
     qe_onSuccess = (\<lambda>n p. on_dw (\<lambda>d. d\<lparr>dw_reports := dw_reports d @ [(n, p, None)]\<rparr>)),
     qe_onError = (\<lambda>n p e k. on_dw (\<lambda>d. d\<lparr>dw_reports := dw_reports d @ [(n, p, Some e)]\<rparr>))\<rparr>"

definition dw_profile :: "string \<Rightarrow> Profile" where
  "dw_profile context =
    \<lparr>p_Host = ''h'', p_Username = ''u'', p_Password = ''p'', p_SSHKey = '''', p_Port = 22,
     p_Protocol = ''sftp'', p_RemotePath = ''/www'', p_Context = context, p_AutoSync = True,
     p_AutoSyncDebounce = 500, p_AutoSyncDeletes = True, p_VerifyHostKey = None,
     p_FTPConnections = 8, p_TLSCACert = ''''\<rparr>"

definition dw_task :: uploadTask where
  "dw_task = \<lparr>ut_profileName = ''web'', ut_filePath = ''/site/a''\<rparr>"

lemmas dw_defs = dw_env_def dw_client_def dw_task_def dw_profile_def on_dw_def

lemma dw_paths: "IsAbs ''/site/a''" "Clean ''/site/a'' = ''/site/a''" "IsAbs ''/site''" "Clean ''/site'' = ''/site''"
    "IsAbs ''/''" "Clean ''/'' = ''/''"
  by (simp_all add: IsAbs_def HasPrefix_def Clean_def comps_def clean_comps_def clean_step_def build_path_def)

text \<open>What the client's calls may change, and so what the calls of the daemon keep.\<close>

lemma dw_env_ok:
  assumes "\<And>k. dirs_free (I k)"
    and "\<And>k s. I k s \<Longrightarrow> I (Suc k) (on_dw (\<lambda>d. d\<lparr>dw_asked := Suc (dw_asked d)\<rparr>) s)"
    and "\<And>k s. I k s \<Longrightarrow> I k (on_dw (\<lambda>d. d\<lparr>dw_put := dw_put d @ [remotePath]\<rparr>) s)"
    and "\<And>k s. del \<Longrightarrow> I k s \<Longrightarrow> I k (on_dw (\<lambda>d. d\<lparr>dw_removed := dw_removed d @ [remotePath]\<rparr>) s)"
  shows "env_ok I del name absFile remotePath (dw_env err ignore)"
proof -
  have l: "lease_ok (I (Suc k)) (I (Suc k)) del absFile remotePath (dw_client err, \<lambda>e w. w)" for k
    using assms by (simp add: lease_ok_def keeps_def dw_client_def)
  have acq: "qe_Acquire (dw_env err ignore) name s =
      (Inr (dw_client err, \<lambda>e w. w), on_dw (\<lambda>d. d\<lparr>dw_asked := Suc (dw_asked d)\<rparr>) s)" for s
    by (simp add: dw_env_def)
  have rest: "keeps (I k) (qe_Stat (dw_env err ignore) p)" "keeps (I k) (qe_ReadFile (dw_env err ignore) p)"
    "keeps (I k) (qe_wait (dw_env err ignore) d)" for k p d
    by (simp_all add: dw_env_def keeps_def)
  show ?thesis
    unfolding env_ok_def acq
  proof (intro conjI allI impI rest assms(1))
    fix k s and lease :: "dworld upq lease" and s'
    assume "I k s" "(Inr (dw_client err, \<lambda>e w. w), on_dw (\<lambda>d. d\<lparr>dw_asked := Suc (dw_asked d)\<rparr>) s) = (Inr lease, s')"
    then have "lease = (dw_client err, \<lambda>e w. w)" "I (Suc k) s'" using assms(2) by auto
    then show "\<exists>J. J s' \<and> lease_ok (I (Suc k)) J del absFile remotePath lease" using l by blast
  qed simp
qed

lemma dw_callbacks [simp]:
  "qe_onSuccess (dw_env err ignore) n p = on_dw (\<lambda>d. d\<lparr>dw_reports := dw_reports d @ [(n, p, None)]\<rparr>)"
  "qe_onError (dw_env err ignore) n p e k = on_dw (\<lambda>d. d\<lparr>dw_reports := dw_reports d @ [(n, p, Some e)]\<rparr>)"
  by (simp_all add: dw_env_def)

lemma on_dw_sel [simp]: "uq_world (on_dw f s) = f (uq_world s)"
  by (simp add: on_dw_def)

lemma upload_never_deletes_witness:
  "dw_removed (uq_world (snd (processUpload (\<lambda>_ _. False) (dw_env None (Inr ''''))
     [''web'' \<mapsto> dw_profile ''/site''] dw_task dw_start))) = []"
proof (rule upload_never_deletes [where I = "\<lambda>s. dw_removed (uq_world s) = []"])
  show "kept_by (\<lambda>s. dw_removed (uq_world s) = []) False (\<lambda>_ _. True) (dw_env None (Inr ''''))"
    unfolding kept_by_def
    by (intro conjI allI impI dw_env_ok) (simp_all add: dirs_free_def)
  show "dw_removed (uq_world dw_start) = []" by (simp add: dw_start_def)
  show "\<not> p_AutoSyncDeletes profile \<or>
      (\<forall>w. dw_removed (uq_world w) = [] \<longrightarrow> \<not> stat_missing (fst (qe_Stat (dw_env None (Inr '''')) f w))) \<or>
      (\<forall>w i. dw_removed (uq_world w) = [] \<longrightarrow> fst (qe_Stat (dw_env None (Inr '''')) c w) \<noteq> Inr i)" for profile f c
    by (simp add: dw_env_def stat_missing_def)
qed


lemma upload_tries_and_reports_witness:
  "\<exists>out s'. processUpload (\<lambda>_ _. False) (dw_env (Some (ErrorString ''421'')) (Inr ''''))
       [''web'' \<mapsto> dw_profile ''/site''] dw_task dw_start = (out, s') \<and> dw_asked (uq_world s') \<le> 3 \<and>
     (\<exists>relPath. dw_reports (uq_world s') = reported ''web'' relPath out)"
proof -
  let ?env = "dw_env (Some (ErrorString ''421'')) (Inr '''')"
  obtain out s' where run: "processUpload (\<lambda>_ _. False) ?env [''web'' \<mapsto> dw_profile ''/site''] dw_task dw_start = (out, s')"
    by fastforce
  have "dw_asked (uq_world s') \<le> dw_asked (uq_world dw_start) + 3 \<and>
      (\<forall>e. out = GaveUp e \<longrightarrow> dw_asked (uq_world s') = dw_asked (uq_world dw_start) + 3) \<and>
      (\<exists>relPath. dw_reports (uq_world s') = dw_reports (uq_world dw_start) @ reported (ut_profileName dw_task) relPath out)"
    by (rule upload_tries_and_reports [OF _ _ _ run, where c = "\<lambda>s. dw_asked (uq_world s)" and
          R = "\<lambda>s. dw_reports (uq_world s)"])
       (intro dw_env_ok | simp add: dirs_free_def)+
  then show ?thesis using run by (simp add: dw_start_def dw_task_def)
qed

lemma unreadable_syncignore_ignores_nothing_witness:
  "fst (processUpload (\<lambda>_ _. True) (dw_env None (Inl (Errno EACCES)))
     [''web'' \<mapsto> dw_profile ''/site''] dw_task dw_start) \<noteq> Ignored"
  by (rule unreadable_syncignore_ignores_nothing) (simp_all add: dw_env_def stat_missing_def)

lemma root_context_syncs_nothing_witness:
  "processUpload (\<lambda>_ _. False) (dw_env None (Inr '''')) [''web'' \<mapsto> dw_profile ''/''] dw_task dw_start =
     (OutsideContext, dw_start)"
  by (rule root_context_syncs_nothing [where profile = "dw_profile ''/''" and f = "''/site/a''"])
     (simp_all add: dw_defs dw_paths)

text \<open>The same client behind a connection pool that is dialled for the first task.\<close>

definition dw_pool_env :: "unit PoolEnv" where
  "dw_pool_env = \<lparr>px_Now = (\<lambda>_. 1), px_IsAlive = (\<lambda>e x. (True, x)), px_Connect = (\<lambda>p x. (None, x)),
     px_client = (\<lambda>e. \<lparr>rc_Connect = (\<lambda>w. (None, w)), rc_Close = (\<lambda>w. (None, w)), rc_IsAlive = (\<lambda>w. (True, w)),
       rc_Stat = (\<lambda>p w. (Inl (Sentinel ErrNotExist), w)), rc_ReadDir = (\<lambda>p w. (Inr [], w)),
       rc_Upload = (\<lambda>p q w. (Some (ErrorString ''421''), w)), rc_UploadResume = (\<lambda>p q w. (None, w)),
       rc_Download = (\<lambda>p q w. (None, w)), rc_Mkdir = (\<lambda>p w. (None, w)), rc_MkdirAll = (\<lambda>p w. (None, w)),
       rc_Remove = (\<lambda>p w. (None, w)), rc_RemoveDir = (\<lambda>p w. (None, w)), rc_Chmod = (\<lambda>p m w. (None, w)),
       rc_Concurrent = None, rc_DownloadKnown = None\<rparr>)\<rparr>"

definition dw_queue_env :: "(ConnectionPool \<times> unit) upq QueueEnv" where
  "dw_queue_env =
    \<lparr>qe_Abs = Inr, qe_Stat = (\<lambda>p w. (Inr dw_file, w)), qe_ReadFile = (\<lambda>p w. (Inr '''', w)),
     qe_Acquire = pool_Acquire dw_pool_env, qe_wait = (\<lambda>d w. (True, w)),
     qe_onSuccess = (\<lambda>n p w. w), qe_onError = (\<lambda>n p e k w. w)\<rparr>"

lemma queue_returns_leases_witness:
  "pool_ok (fst (uq_world (snd (processUpload (\<lambda>_ _. False) dw_queue_env [''web'' \<mapsto> dw_profile ''/site''] dw_task
     \<lparr>uq_knownDirs = {}, uq_world = (NewConnectionPool [''web'' \<mapsto> dw_profile ''/site''], ())\<rparr>)))) (\<lambda>_. 0)"
proof (rule queue_returns_leases)
  show "qe_Acquire dw_queue_env = pool_Acquire dw_pool_env" by (simp add: dw_queue_env_def)
  show "env_keeps (pool_good (\<lambda>_. 0)) dw_queue_env" by (simp add: env_keeps_def dw_queue_env_def keeps_def)
qed (simp_all add: NewConnectionPool_def pool_ok_def)

end
