(* ===== verification/Debounce.thy ===== *)
theory Debounce
  imports Sfync_Prelude "HOL-Library.AList"
begin

text \<open>
  internal/watcher/debounce.go: the debounce timers of the daemon, with the goroutines
  \<open>time.AfterFunc\<close> starts and the mutex they contend for.
\<close>

section \<open>Timers\<close>

text \<open>
  A timer made by \<open>AfterFunc\<close> is pending until it expires, then its function runs in a
  goroutine: it waits for the mutex (\<open>Fired\<close>), has removed the map entry (\<open>Calling\<close>), has
  called the callback (\<open>Called\<close>). \<open>Timer.Stop\<close> works on a pending timer only; the flag
  says whether \<open>Add\<close> (\<open>True\<close>) or \<open>Stop\<close> and \<open>StopAll\<close> stopped it.
\<close>

datatype timer_state = Pending | Fired | Calling | Called | Stopped bool

record 'c timer =
  tm_key :: string
  tm_delay :: duration
  tm_callback :: 'c
  tm_state :: timer_state

text \<open>The map of the code, and every timer ever made; a \<open>*time.Timer\<close> is an index.\<close>

record 'c Debouncer =
  db_timers :: "(string \<times> nat) list"
  db_heap :: "'c timer list"
  db_calls :: "nat list"

definition NewDebouncer :: "'c Debouncer" where
  "NewDebouncer = \<lparr>db_timers = [], db_heap = [], db_calls = []\<rparr>"

definition set_state :: "nat \<Rightarrow> timer_state \<Rightarrow> 'c Debouncer \<Rightarrow> 'c Debouncer" where
  "set_state i st d = d\<lparr>db_heap := (db_heap d)[i := (db_heap d ! i)\<lparr>tm_state := st\<rparr>]\<rparr>"

definition timer_Stop :: "bool \<Rightarrow> nat \<Rightarrow> 'c Debouncer \<Rightarrow> 'c Debouncer" where
  "timer_Stop by_add i d =
    (if i < length (db_heap d) \<and> tm_state (db_heap d ! i) = Pending
     then set_state i (Stopped by_add) d else d)"

section \<open>Add, Stop, StopAll\<close>

definition Add :: "string \<Rightarrow> duration \<Rightarrow> 'c \<Rightarrow> 'c Debouncer \<Rightarrow> 'c Debouncer" where
  "Add filePath delay callback d =
    (let d = (case map_of (db_timers d) filePath of None \<Rightarrow> d | Some i \<Rightarrow> timer_Stop True i d);
         t = \<lparr>tm_key = filePath, tm_delay = delay, tm_callback = callback, tm_state = Pending\<rparr>
     in d\<lparr>db_timers := AList.update filePath (length (db_heap d)) (db_timers d), db_heap := db_heap d @ [t]\<rparr>)"

definition Stop :: "string \<Rightarrow> 'c Debouncer \<Rightarrow> 'c Debouncer" where
  "Stop filePath d =
    (case map_of (db_timers d) filePath of
       None \<Rightarrow> d
     | Some i \<Rightarrow> (timer_Stop False i d)\<lparr>db_timers := AList.delete filePath (db_timers d)\<rparr>)"

definition StopAll :: "'c Debouncer \<Rightarrow> 'c Debouncer" where
  "StopAll d = (foldl (\<lambda>d (k, i). timer_Stop False i d) d (db_timers d))\<lparr>db_timers := []\<rparr>"

text \<open>The goroutine of an expired timer: its locked section and its call.\<close>

definition timer_expire :: "nat \<Rightarrow> 'c Debouncer \<Rightarrow> 'c Debouncer option" where
  "timer_expire i d =
    (if i < length (db_heap d) \<and> tm_state (db_heap d ! i) = Pending then Some (set_state i Fired d) else None)"

definition timer_remove :: "nat \<Rightarrow> 'c Debouncer \<Rightarrow> 'c Debouncer option" where
  "timer_remove i d =
    (if i < length (db_heap d) \<and> tm_state (db_heap d ! i) = Fired
     then Some ((set_state i Calling d)\<lparr>db_timers := AList.delete (tm_key (db_heap d ! i)) (db_timers d)\<rparr>)
     else None)"

definition timer_call :: "nat \<Rightarrow> 'c Debouncer \<Rightarrow> 'c Debouncer option" where
  "timer_call i d =
    (if i < length (db_heap d) \<and> tm_state (db_heap d ! i) = Calling
     then Some ((set_state i Called d)\<lparr>db_calls := db_calls d @ [i]\<rparr>) else None)"

datatype 'c db_event =
    DAdd string duration 'c | DStop string | DStopAll | DExpire nat | DRemove nat | DCall nat

fun db_next :: "'c db_event \<Rightarrow> 'c Debouncer \<Rightarrow> 'c Debouncer option" where
  "db_next (DAdd k t c) d = Some (Add k t c d)"
| "db_next (DStop k) d = Some (Stop k d)"
| "db_next DStopAll d = Some (StopAll d)"
| "db_next (DExpire i) d = timer_expire i d"
| "db_next (DRemove i) d = timer_remove i d"
| "db_next (DCall i) d = timer_call i d"

inductive db_reach :: "'c Debouncer \<Rightarrow> bool" where
  db_start: "db_reach NewDebouncer"
| db_step: "db_reach d \<Longrightarrow> db_next ev d = Some d' \<Longrightarrow> db_reach d'"

section \<open>The invariant\<close>

abbreviation st_of :: "'c Debouncer \<Rightarrow> nat \<Rightarrow> timer_state" where
  "st_of d i \<equiv> tm_state (db_heap d ! i)"

abbreviation key_of :: "'c Debouncer \<Rightarrow> nat \<Rightarrow> string" where
  "key_of d i \<equiv> tm_key (db_heap d ! i)"

text \<open>
  The map holds timers under their own keys; a timer that \<open>Add\<close> stopped has a later timer
  for its key; the calls made are those of the called timers, each once.
\<close>

definition db_inv :: "'c Debouncer \<Rightarrow> bool" where
  "db_inv d \<longleftrightarrow>
     distinct_keys (db_timers d) \<and>
     (\<forall>k i. map_of (db_timers d) k = Some i \<longrightarrow> i < length (db_heap d) \<and> key_of d i = k) \<and>
     (\<forall>i < length (db_heap d). st_of d i = Stopped True \<longrightarrow>
        (\<exists>j. i < j \<and> j < length (db_heap d) \<and> key_of d j = key_of d i)) \<and>
     distinct (db_calls d) \<and> set (db_calls d) = {i. i < length (db_heap d) \<and> st_of d i = Called}"

lemma set_state_sel [simp]:
  "db_timers (set_state i st d) = db_timers d" "db_calls (set_state i st d) = db_calls d"
  "length (db_heap (set_state i st d)) = length (db_heap d)"
  "key_of (set_state i st d) j = key_of d j"
  "st_of (set_state i st d) j = (if i = j \<and> i < length (db_heap d) then st else st_of d j)"
  by (cases "i < length (db_heap d)"; cases "i = j"; auto simp: set_state_def list_update_beyond)+

lemma timer_Stop_sel [simp]:
  "db_timers (timer_Stop b i d) = db_timers d" "db_calls (timer_Stop b i d) = db_calls d"
  "length (db_heap (timer_Stop b i d)) = length (db_heap d)"
  "key_of (timer_Stop b i d) j = key_of d j"
  "st_of (timer_Stop b i d) j =
     (if i = j \<and> i < length (db_heap d) \<and> st_of d j = Pending then Stopped b else st_of d j)"
  by (auto simp: timer_Stop_def)

lemma stop_fold_sel [simp]:
  fixes d :: "'c Debouncer"
  defines "stop \<equiv> \<lambda>xs d :: 'c Debouncer. foldl (\<lambda>d (k :: string, i). timer_Stop False i d) d xs"
  shows "db_timers (stop xs d) = db_timers d" "db_calls (stop xs d) = db_calls d"
    "length (db_heap (stop xs d)) = length (db_heap d)" "key_of (stop xs d) j = key_of d j"
    "st_of (stop xs d) j =
      (if j \<in> snd ` set xs \<and> j < length (db_heap d) \<and> st_of d j = Pending then Stopped False else st_of d j)"
proof -
  have "db_timers (stop xs d) = db_timers d \<and> db_calls (stop xs d) = db_calls d \<and>
    length (db_heap (stop xs d)) = length (db_heap d) \<and> key_of (stop xs d) j = key_of d j \<and>
    st_of (stop xs d) j =
      (if j \<in> snd ` set xs \<and> j < length (db_heap d) \<and> st_of d j = Pending then Stopped False else st_of d j)"
    by (induction xs arbitrary: d) (auto simp: stop_def case_prod_beta)
  then show "db_timers (stop xs d) = db_timers d" "db_calls (stop xs d) = db_calls d"
    "length (db_heap (stop xs d)) = length (db_heap d)" "key_of (stop xs d) j = key_of d j"
    "st_of (stop xs d) j =
      (if j \<in> snd ` set xs \<and> j < length (db_heap d) \<and> st_of d j = Pending then Stopped False else st_of d j)"
    by simp_all
qed

lemma delete_distinct: "distinct_keys xs \<Longrightarrow> distinct_keys (AList.delete k xs)"
  by (rule distinct_delete)

lemma Add_inv:
  assumes "db_inv d"
  shows "db_inv (Add k t c d)"
proof -
  let ?d = "case map_of (db_timers d) k of None \<Rightarrow> d | Some i \<Rightarrow> timer_Stop True i d"
  let ?n = "length (db_heap d)"
  have sel: "db_timers ?d = db_timers d" "db_calls ?d = db_calls d" "length (db_heap ?d) = ?n"
    "key_of ?d j = key_of d j" for j
    by (simp_all split: option.split)
  have st: "st_of ?d j = (if map_of (db_timers d) k = Some j \<and> j < ?n \<and> st_of d j = Pending
      then Stopped True else st_of d j)" for j
    by (auto split: option.split)
  have key: "key_of d j = k" if "map_of (db_timers d) k = Some j" for j
    using assms that by (simp add: db_inv_def)
  have replaced: "\<exists>j. i < j \<and> j < Suc ?n \<and> key_of (Add k t c d) j = key_of (Add k t c d) i"
    if "i < Suc ?n" "st_of (Add k t c d) i = Stopped True" for i
  proof (cases "i < ?n \<and> map_of (db_timers d) k = Some i")
    case True
    then show ?thesis using key [of i] by (intro exI [of _ ?n]) (simp add: Add_def Let_def sel nth_append)
  next
    case False
    then have "i < ?n" "st_of d i = Stopped True"
      using that by (auto simp: Add_def Let_def sel st nth_append less_Suc_eq split: if_splits)
    then obtain j where "i < j" "j < ?n" "key_of d j = key_of d i" using assms by (auto simp: db_inv_def)
    then show ?thesis by (intro exI [of _ j]) (simp add: Add_def Let_def sel nth_append)
  qed
  have timers: "i < Suc ?n \<and> key_of (Add k t c d) i = k'"
    if "map_of (AList.update k ?n (db_timers d)) k' = Some i" for k' i
  proof (cases "k' = k")
    case True
    then show ?thesis using that by (simp add: update_conv' Add_def Let_def sel nth_append)
  next
    case False
    then have "map_of (db_timers d) k' = Some i" using that by (simp add: update_conv')
    then have "i < ?n" "key_of d i = k'" using assms by (auto simp: db_inv_def)
    then show ?thesis by (simp add: Add_def Let_def sel nth_append)
  qed
  have calls: "{i. i < Suc ?n \<and> st_of (Add k t c d) i = Called} = {i. i < ?n \<and> st_of d i = Called}"
    by (auto simp: Add_def Let_def sel st nth_append less_Suc_eq split: if_splits)
  have fin: "db_timers (Add k t c d) = AList.update k ?n (db_timers d)" "db_calls (Add k t c d) = db_calls d"
    "length (db_heap (Add k t c d)) = Suc ?n"
    by (simp_all add: Add_def Let_def sel)
  show ?thesis
    using assms replaced timers unfolding db_inv_def fin calls by (auto simp: distinct_update)
qed

lemma map_of_delete_Some: "map_of (AList.delete k xs) k' = Some v \<longleftrightarrow> k' \<noteq> k \<and> map_of xs k' = Some v"
  by (auto simp: delete_conv')

lemma db_next_inv:
  assumes inv: "db_inv d" and ev: "db_next ev d = Some d'"
  shows "db_inv d'"
proof (cases ev)
  case (DAdd k t c)
  then show ?thesis using assms Add_inv by auto
next
  case (DStop k)
  have "db_inv (Stop k d)"
  proof (cases "map_of (db_timers d) k")
    case (Some i)
    then show ?thesis
      using inv by (auto simp: db_inv_def Stop_def delete_distinct map_of_delete_Some)
  qed (use inv in \<open>simp add: Stop_def\<close>)
  then show ?thesis using DStop ev by simp
next
  case DStopAll
  have "db_inv (StopAll d)"
    using inv by (auto simp: db_inv_def StopAll_def)
  then show ?thesis using DStopAll ev by simp
next
  case (DExpire i)
  then show ?thesis using assms by (auto simp: timer_expire_def db_inv_def split: if_splits)
next
  case (DRemove i)
  then show ?thesis
    using assms by (auto simp: timer_remove_def db_inv_def delete_distinct map_of_delete_Some split: if_splits)
next
  case (DCall i)
  then show ?thesis
    using assms by (auto simp: timer_call_def db_inv_def split: if_splits)
qed

lemma db_reach_inv: "db_reach d \<Longrightarrow> db_inv d"
proof (induction rule: db_reach.induct)
  case db_start
  then show ?case by (simp add: db_inv_def NewDebouncer_def)
qed (rule db_next_inv)

section \<open>What the debouncer guarantees\<close>

definition quiet :: "'c Debouncer \<Rightarrow> bool" where
  "quiet d \<longleftrightarrow> (\<forall>t \<in> set (db_heap d). tm_state t \<notin> {Pending, Fired, Calling})"


text \<open>
  Without a timer waiting for the mutex the map holds exactly the pending timers, so there
  is at most one for a file and \<open>StopAll\<close> leaves none. The steps that keep this are all but
  an \<open>Add\<close>, \<open>Stop\<close> or \<open>StopAll\<close> that overtakes an expired timer.
\<close>

definition exact :: "'c Debouncer \<Rightarrow> bool" where
  "exact d \<longleftrightarrow> (\<forall>i < length (db_heap d). st_of d i \<in> {Pending, Fired} \<longrightarrow>
     map_of (db_timers d) (key_of d i) = Some i)"

fun overtakes :: "'c db_event \<Rightarrow> 'c Debouncer \<Rightarrow> bool" where
  "overtakes (DAdd k _ _) d \<longleftrightarrow> (\<exists>t \<in> set (db_heap d). tm_state t = Fired \<and> tm_key t = k)"
| "overtakes (DStop k) d \<longleftrightarrow> (\<exists>t \<in> set (db_heap d). tm_state t = Fired \<and> tm_key t = k)"
| "overtakes DStopAll d \<longleftrightarrow> (\<exists>t \<in> set (db_heap d). tm_state t = Fired)"
| "overtakes _ d \<longleftrightarrow> False"

inductive db_calm :: "'c Debouncer \<Rightarrow> bool" where
  calm_start: "db_calm NewDebouncer"
| calm_step: "\<lbrakk>db_calm d; \<not> overtakes ev d; db_next ev d = Some d'\<rbrakk> \<Longrightarrow> db_calm d'"

lemma calm_reach: "db_calm d \<Longrightarrow> db_reach d"
  by (induction rule: db_calm.induct) (auto intro: db_reach.intros)

lemma exact_step:
  assumes inv: "db_inv d" and ex: "exact d" and calm: "\<not> overtakes ev d" and ev: "db_next ev d = Some d'"
  shows "exact d'"
proof -
  have own: "map_of (db_timers d) (key_of d i) = Some i" if "i < length (db_heap d)" "st_of d i \<in> {Pending, Fired}" for i
    using ex that unfolding exact_def by blast
  have fired: "\<not> overtakes ev d \<Longrightarrow> (ev = DStopAll \<or> ev = DStop (key_of d i) \<or> (\<exists>t c. ev = DAdd (key_of d i) t c)) \<Longrightarrow>
      st_of d i \<noteq> Fired" if "i < length (db_heap d)" for i
    using nth_mem [OF that] by force
  show ?thesis
  proof (cases ev)
    case (DAdd k t c)
    let ?d = "case map_of (db_timers d) k of None \<Rightarrow> d | Some i \<Rightarrow> timer_Stop True i d"
    let ?n = "length (db_heap d)"
    have d': "d' = Add k t c d" using DAdd ev by simp
    have sel: "length (db_heap ?d) = ?n" "key_of ?d j = key_of d j" "db_timers ?d = db_timers d"
      "st_of ?d j = (if map_of (db_timers d) k = Some j \<and> j < ?n \<and> st_of d j = Pending
        then Stopped True else st_of d j)" for j
      by (auto split: option.split)
    have "map_of (db_timers d') (key_of d' i) = Some i" if i: "i < Suc ?n" "st_of d' i \<in> {Pending, Fired}" for i
    proof (cases "i = ?n")
      case True
      then show ?thesis by (simp add: d' Add_def Let_def sel nth_append update_conv')
    next
      case False
      then have lt: "i < ?n" using i(1) by simp
      have st: "st_of d' i = st_of ?d i" and key: "key_of d' i = key_of d i"
        using lt by (simp_all add: d' Add_def Let_def sel nth_append)
      then have si: "st_of d i \<in> {Pending, Fired}" using i(2) by (auto simp: sel split: if_splits)
      have "key_of d i \<noteq> k"
      proof
        assume k: "key_of d i = k"
        then have "st_of d i = Pending" using fired [OF lt calm] DAdd si by auto
        then show False using own [OF lt si] st i(2) lt k by (simp add: sel)
      qed
      then show ?thesis using own [OF lt si] key by (simp add: d' Add_def Let_def sel update_conv')
    qed
    then show ?thesis by (simp add: exact_def d' Add_def Let_def sel)
  next
    case (DStop k)
    then have d': "d' = Stop k d" using ev by simp
    show ?thesis
    proof (cases "map_of (db_timers d) k")
      case None
      then show ?thesis using ex d' by (simp add: Stop_def)
    next
      case (Some i)
      have "map_of (AList.delete k (db_timers d)) (key_of d j) = Some j"
        if j: "j < length (db_heap d)" "st_of d' j \<in> {Pending, Fired}" for j
      proof -
        have sj: "st_of d j \<in> {Pending, Fired}" "i = j \<Longrightarrow> st_of d j \<noteq> Pending"
          using j d' Some by (auto simp: Stop_def split: if_splits)
        have "key_of d j \<noteq> k"
        proof
          assume k: "key_of d j = k"
          then have "st_of d j = Pending" using fired [OF j(1) calm] DStop sj by auto
          then show False using own [OF j(1) sj(1)] sj(2) Some k by simp
        qed
        then show ?thesis using own [OF j(1) sj(1)] by (simp add: delete_conv')
      qed
      then show ?thesis using d' Some by (simp add: exact_def Stop_def)
    qed
  next
    case DStopAll
    then have d': "d' = StopAll d" using ev by simp
    have "st_of d' j \<notin> {Pending, Fired}" if j: "j < length (db_heap d)" for j
    proof -
      have "st_of d j \<noteq> Fired" using fired [OF j calm] DStopAll by simp
      moreover have "j \<in> snd ` set (db_timers d)" if "st_of d j = Pending"
        using own [OF j] that map_of_SomeD by force
      ultimately show ?thesis using j by (auto simp: d' StopAll_def)
    qed
    then show ?thesis using d' by (simp add: exact_def StopAll_def)
  next
    case (DExpire i)
    then show ?thesis using ex ev by (auto simp: exact_def timer_expire_def split: if_splits)
  next
    case (DRemove i)
    then have i: "i < length (db_heap d)" "st_of d i = Fired"
      and d': "d' = (set_state i Calling d)\<lparr>db_timers := AList.delete (key_of d i) (db_timers d)\<rparr>"
      using ev by (auto simp: timer_remove_def split: if_splits)
    have "map_of (AList.delete (key_of d i) (db_timers d)) (key_of d j) = Some j"
      if j: "j < length (db_heap d)" "st_of d' j \<in> {Pending, Fired}" for j
    proof -
      have sj: "st_of d j \<in> {Pending, Fired}" "j \<noteq> i" using j d' i by (auto split: if_splits)
      have "key_of d j \<noteq> key_of d i" using own [OF j(1) sj(1)] own [OF i(1)] i(2) sj(2) by auto
      then show ?thesis using own [OF j(1) sj(1)] by (simp add: delete_conv')
    qed
    then show ?thesis using d' by (simp add: exact_def)
  next
    case (DCall i)
    then show ?thesis using ex ev by (auto simp: exact_def timer_call_def split: if_splits)
  qed
qed

lemma calm_exact: "db_calm d \<Longrightarrow> exact d"
proof (induction rule: db_calm.induct)
  case calm_start
  then show ?case by (simp add: exact_def NewDebouncer_def)
next
  case (calm_step d ev d')
  then show ?case using exact_step db_reach_inv [OF calm_reach] by blast
qed

text \<open>
  While no \<open>Add\<close>, \<open>Stop\<close> or \<open>StopAll\<close> overtakes an expired timer that waits for the mutex,
  a file has at most one timer on its way, and after \<open>StopAll\<close> no timer is left that could
  call its callback except those already past the mutex.
\<close>

theorem debounce_calm:
  assumes "db_calm d"
  shows "(\<forall>i j. i < length (db_heap d) \<and> j < length (db_heap d) \<and> st_of d i \<in> {Pending, Fired} \<and>
      st_of d j \<in> {Pending, Fired} \<and> key_of d i = key_of d j \<longrightarrow> i = j) \<and>
    ((\<forall>t \<in> set (db_heap d). tm_state t \<noteq> Fired) \<longrightarrow>
      (\<forall>t \<in> set (db_heap (StopAll d)). tm_state t \<noteq> Pending \<and> tm_state t \<noteq> Fired))"
proof -
  have ex: "exact d" by (rule calm_exact [OF assms])
  then have one: "i = j" if "i < length (db_heap d)" "j < length (db_heap d)" "st_of d i \<in> {Pending, Fired}"
      "st_of d j \<in> {Pending, Fired}" "key_of d i = key_of d j" for i j
    using that by (metis exact_def option.inject)
  have none: "tm_state t \<noteq> Pending \<and> tm_state t \<noteq> Fired"
    if f: "\<forall>t \<in> set (db_heap d). tm_state t \<noteq> Fired" and t: "t \<in> set (db_heap (StopAll d))" for t
  proof -
    obtain j where j: "j < length (db_heap d)" "t = db_heap (StopAll d) ! j"
      using t by (auto simp: in_set_conv_nth StopAll_def)
    have "st_of d j \<noteq> Fired" using f j(1) by simp
    moreover have "j \<in> snd ` set (db_timers d)" if "st_of d j = Pending"
      using ex j(1) that map_of_SomeD by (force simp: exact_def)
    ultimately show ?thesis using j by (auto simp: StopAll_def)
  qed
  show ?thesis using one none by blast
qed

definition db_run :: "'c db_event list \<Rightarrow> 'c Debouncer option" where
  "db_run evs = foldl (\<lambda>d ev. Option.bind d (db_next ev)) (Some NewDebouncer) evs"

lemma db_run_simps:
  "db_run evs = Some d \<Longrightarrow> db_run (evs @ [ev]) = db_next ev d" "db_run [] = Some NewDebouncer"
  by (simp_all add: db_run_def)

text \<open>
  Otherwise \<open>StopAll\<close> is not the end. When a file changes while its expired timer waits
  for the mutex, that timer removes the map entry of its successor, which \<open>StopAll\<close> then does
  not find: it is still pending afterwards, and its callback is called.
\<close>

theorem stop_all_misses_timer:
  "\<exists>d d'. db_run [DAdd f 1 (), DExpire 0, DAdd f 1 (), DRemove 0, DStopAll] = Some d \<and>
     db_timers d = [] \<and> st_of d 1 = Pending \<and>
     db_run [DAdd f 1 (), DExpire 0, DAdd f 1 (), DRemove 0, DStopAll, DExpire 1, DRemove 1, DCall 1] = Some d' \<and>
     db_calls d' = [1]"
  by (simp add: db_run_def NewDebouncer_def Add_def Stop_def StopAll_def timer_expire_def timer_remove_def
      timer_call_def timer_Stop_def set_state_def Let_def)

text \<open>A file saved twice within the delay: one timer is replaced, the other calls.\<close>

definition db_demo :: "nat db_event list" where
  "db_demo = [DAdd ''web:/a'' 500 0, DAdd ''web:/a'' 500 1, DExpire 1, DRemove 1, DCall 1]"

definition db_demo_end :: "nat Debouncer" where
  "db_demo_end = \<lparr>db_timers = [], db_heap =
     [\<lparr>tm_key = ''web:/a'', tm_delay = 500, tm_callback = 0, tm_state = Stopped True\<rparr>,
      \<lparr>tm_key = ''web:/a'', tm_delay = 500, tm_callback = 1, tm_state = Called\<rparr>], db_calls = [1]\<rparr>"

fun calm_run :: "'c db_event list \<Rightarrow> 'c Debouncer \<Rightarrow> 'c Debouncer option" where
  "calm_run [] d = Some d"
| "calm_run (ev # evs) d = (if overtakes ev d then None else Option.bind (db_next ev d) (calm_run evs))"

lemma calm_run_calm: "db_calm d \<Longrightarrow> calm_run evs d = Some d' \<Longrightarrow> db_calm d'"
  by (induction evs arbitrary: d) (auto split: if_splits bind_splits intro: calm_step)

lemma db_demo_calm: "db_calm db_demo_end"
proof -
  have "calm_run db_demo NewDebouncer = Some db_demo_end" by code_simp
  then show ?thesis by (rule calm_run_calm [OF calm_start])
qed


lemma debounce_calm_witness:
  "\<forall>t \<in> set (db_heap (StopAll db_demo_end)). tm_state t \<noteq> Pending \<and> tm_state t \<noteq> Fired"
  using debounce_calm [OF db_demo_calm] by (auto simp: db_demo_end_def)

end
