(* ===== verification/Watcher.thy ===== *)
theory Watcher
  imports Mirror_WalkLocal Config Debounce
begin

text \<open>
  internal/watcher/watcher.go: which directories the daemon watches, which profiles a
  changed file belongs to, and what a file system event schedules.

  The file system is an argument: \<open>os.Stat\<close>, reading \<open>.syncignore\<close>, what a walk sees at
  a path (\<open>os.Lstat\<close> and the tree below), and whether \<open>fsnotify\<close> accepts another watch.
  The maps are association lists in the order Go ranges over them.
\<close>

section \<open>State\<close>

record 'c Watcher =
  wa_profiles :: "(string \<times> Profile) list"
  wa_callbacks :: "(string \<times> 'c) list"
  wa_contextDepths :: "(string \<times> nat) list"
  wa_cache :: "(string \<times> string list) list"
  wa_watches :: "string set"
  wa_debouncer :: "('c \<times> string) Debouncer"

record WatchEnv =
  we_Stat :: "string \<Rightarrow> goerr option"
  we_ReadFile :: "string \<Rightarrow> string res"
  we_Tree :: "string \<Rightarrow> dnode res"
  we_Add :: "string \<Rightarrow> goerr option"

definition NewWatcher :: "'c Watcher" where
  "NewWatcher = \<lparr>wa_profiles = [], wa_callbacks = [], wa_contextDepths = [], wa_cache = [],
     wa_watches = {}, wa_debouncer = NewDebouncer\<rparr>"

section \<open>Patterns\<close>

definition load_patterns :: "WatchEnv \<Rightarrow> string \<Rightarrow> string list" where
  "load_patterns env contextPath =
    (let f = path_Join [contextPath, ''.syncignore''] in
     case Syncignore.Load (case we_Stat env f of None \<Rightarrow> Inr () | Some e \<Rightarrow> Inl e) (we_ReadFile env f) of
       Inl _ \<Rightarrow> [] | Inr ps \<Rightarrow> ps)"

definition getPatterns :: "WatchEnv \<Rightarrow> string \<Rightarrow> 'c Watcher \<Rightarrow> string list \<times> 'c Watcher" where
  "getPatterns env contextPath w =
    (case map_of (wa_cache w) contextPath of
       Some patterns \<Rightarrow> (patterns, w)
     | None \<Rightarrow>
         (let patterns = load_patterns env contextPath
          in (patterns, w\<lparr>wa_cache := AList.update contextPath patterns (wa_cache w)\<rparr>)))"

definition invalidatePatterns :: "string \<Rightarrow> 'c Watcher \<Rightarrow> 'c Watcher" where
  "invalidatePatterns contextPath w = w\<lparr>wa_cache := AList.delete contextPath (wa_cache w)\<rparr>"

section \<open>Watch and Unwatch\<close>

definition skip_node :: "dnode \<Rightarrow> walk_ctl" where
  "skip_node d = (if dn_IsDir d then SkipDir else Continue)"

definition add_fn :: "matcher \<Rightarrow> WatchEnv \<Rightarrow> string \<Rightarrow> string list \<Rightarrow> 'c Watcher walk_fn" where
  "add_fn dm env root patterns p dopt err w =
    (case (err, dopt) of
       (Some e, _) \<Rightarrow> (Fail e, w)
     | (None, None) \<Rightarrow> (Continue, w)
     | (None, Some d) \<Rightarrow>
         if dn_kind d = KSymlink then (skip_node d, w)
         else if \<not> dn_IsDir d then (Continue, w)
         else if (case filepath_Rel root p of
                    None \<Rightarrow> False
                  | Some relPath \<Rightarrow> relPath \<noteq> ''.'' \<and> ShouldIgnore dm relPath patterns)
           then (SkipDir, w)
         else
           (case we_Add env p of
              Some e \<Rightarrow> (Fail e, w)
            | None \<Rightarrow> (Continue, w\<lparr>wa_watches := insert p (wa_watches w)\<rparr>)))"

definition addRecursive :: "matcher \<Rightarrow> WatchEnv \<Rightarrow> string \<Rightarrow> 'c Watcher \<Rightarrow> goerr option \<times> 'c Watcher" where
  "addRecursive dm env root w =
    (case getPatterns env root w of
       (patterns, w) \<Rightarrow> WalkDir (we_Tree env root) root (add_fn dm env root patterns) w)"

definition Watch :: "matcher \<Rightarrow> WatchEnv \<Rightarrow> string \<Rightarrow> Profile \<Rightarrow> 'c \<Rightarrow> 'c Watcher \<Rightarrow>
    goerr option \<times> 'c Watcher" where
  "Watch dm env profileName profile callback w =
    (let profile = profile\<lparr>p_Context := Clean (p_Context profile)\<rparr> in
     if (case we_Stat env (p_Context profile) of None \<Rightarrow> False | Some e \<Rightarrow> errors_Is e ErrNotExist)
     then (Some (ErrorString (''context directory doesn't exist: '' @ p_Context profile)), w)
     else
       (let w = w\<lparr>wa_profiles := AList.update profileName profile (wa_profiles w),
                  wa_callbacks := AList.update profileName callback (wa_callbacks w),
                  wa_contextDepths := AList.update profileName (Count (p_Context profile) CHR ''/'')
                    (wa_contextDepths w)\<rparr>
        in case addRecursive dm env (p_Context profile) w of
             (Some e, w) \<Rightarrow> (Some (Wrapped (''failed to watch directory: '' @ error_msg e) [e]), w)
           | (None, w) \<Rightarrow> (None, w)))"

definition remove_fn :: "'c Watcher walk_fn" where
  "remove_fn p dopt err w =
    (case (err, dopt) of
       (None, Some d) \<Rightarrow>
         (Continue, if dn_IsDir d then w\<lparr>wa_watches := wa_watches w - {p}\<rparr> else w)
     | _ \<Rightarrow> (Continue, w))"

definition removeRecursive :: "WatchEnv \<Rightarrow> string \<Rightarrow> 'c Watcher \<Rightarrow> goerr option \<times> 'c Watcher" where
  "removeRecursive env root w = WalkDir (we_Tree env root) root remove_fn w"

definition Unwatch :: "WatchEnv \<Rightarrow> string \<Rightarrow> 'c Watcher \<Rightarrow> goerr option \<times> 'c Watcher" where
  "Unwatch env profileName w =
    (case map_of (wa_profiles w) profileName of
       None \<Rightarrow> (Some (ErrorString (''profile not watched: '' @ profileName)), w)
     | Some profile \<Rightarrow>
         (case removeRecursive env (p_Context profile) w of
            (Some e, w) \<Rightarrow> (Some e, w)
          | (None, w) \<Rightarrow>
              (None, w\<lparr>wa_profiles := AList.delete profileName (wa_profiles w),
                       wa_callbacks := AList.delete profileName (wa_callbacks w),
                       wa_contextDepths := AList.delete profileName (wa_contextDepths w)\<rparr>)))"

section \<open>Which profiles a path belongs to\<close>

definition escapesBase :: "string \<Rightarrow> bool" where
  "escapesBase rel \<longleftrightarrow> rel = ''..'' \<or> HasPrefix rel ''../''"

definition in_context :: "string \<Rightarrow> string \<Rightarrow> bool" where
  "in_context filePath context \<longleftrightarrow> HasPrefix filePath (context @ ''/'') \<or> filePath = context"

definition findMatchingProfiles :: "string \<Rightarrow> 'c Watcher \<Rightarrow> string list" where
  "findMatchingProfiles filePath w =
    (let matches = map (\<lambda>(name, _). (name, case map_of (wa_contextDepths w) name of None \<Rightarrow> 0 | Some n \<Rightarrow> n))
           (filter (\<lambda>(_, profile). in_context filePath (p_Context profile)) (wa_profiles w))
     in if matches = [] then []
        else
          (let maxDepth = foldl (\<lambda>m (_, depth). if int depth > m then int depth else m) (- 1) matches
           in map fst (filter (\<lambda>(_, depth). int depth = maxDepth) matches)))"

definition schedule_one :: "string \<Rightarrow> string \<Rightarrow> 'c Watcher \<Rightarrow> 'c Watcher" where
  "schedule_one filePath profileName w =
    (case (map_of (wa_profiles w) profileName, map_of (wa_callbacks w) profileName) of
       (Some profile, Some callback) \<Rightarrow>
         (let delay = int64 (p_AutoSyncDebounce profile * 1000000);
              debounceKey = profileName @ '':'' @ filePath
          in w\<lparr>wa_debouncer := Add debounceKey delay (callback, filePath) (wa_debouncer w)\<rparr>)
     | _ \<Rightarrow> w)"

definition schedule :: "string \<Rightarrow> 'c Watcher \<Rightarrow> 'c Watcher" where
  "schedule filePath w =
     foldl (\<lambda>w name. schedule_one filePath name w) w (findMatchingProfiles filePath w)"

fun watched_loop :: "matcher \<Rightarrow> WatchEnv \<Rightarrow> string \<Rightarrow> (string \<times> Profile) list \<Rightarrow> 'c Watcher \<Rightarrow>
    bool \<times> 'c Watcher" where
  "watched_loop dm env dir [] w = (False, w)"
| "watched_loop dm env dir ((name, profile) # rest) w =
    (case filepath_Rel (p_Context profile) dir of
       None \<Rightarrow> watched_loop dm env dir rest w
     | Some rel \<Rightarrow>
         if escapesBase rel then watched_loop dm env dir rest w
         else
           (case getPatterns env (p_Context profile) w of
              (patterns, w) \<Rightarrow>
                if \<not> ShouldIgnore dm rel patterns then (True, w) else watched_loop dm env dir rest w))"

definition watchedByAnyProfile :: "matcher \<Rightarrow> WatchEnv \<Rightarrow> string \<Rightarrow> 'c Watcher \<Rightarrow> bool \<times> 'c Watcher" where
  "watchedByAnyProfile dm env dir w = watched_loop dm env dir (wa_profiles w) w"

section \<open>Events\<close>

datatype fsop = Create | Write | Remove | Rename | Chmod

record fsevent =
  ev_Name :: string
  ev_Op :: "fsop set"

definition new_dir_fn :: "matcher \<Rightarrow> WatchEnv \<Rightarrow> 'c Watcher walk_fn" where
  "new_dir_fn dm env p dopt err w =
    (case (err, dopt) of
       (Some _, _) \<Rightarrow> (Continue, w)
     | (None, None) \<Rightarrow> (Continue, w)
     | (None, Some d) \<Rightarrow>
         if dn_kind d = KSymlink then (skip_node d, w)
         else if dn_IsDir d then
           (case watchedByAnyProfile dm env p w of
              (False, w) \<Rightarrow> (SkipDir, w)
            | (True, w) \<Rightarrow>
                (Continue, if we_Add env p = None then w\<lparr>wa_watches := insert p (wa_watches w)\<rparr> else w))
         else if dn_kind d = KRegular then (Continue, schedule p w)
         else (Continue, w))"

definition watchNewDir :: "matcher \<Rightarrow> WatchEnv \<Rightarrow> string \<Rightarrow> 'c Watcher \<Rightarrow> 'c Watcher" where
  "watchNewDir dm env dir w = snd (WalkDir (we_Tree env dir) dir (new_dir_fn dm env) w)"

definition handleEvent :: "matcher \<Rightarrow> WatchEnv \<Rightarrow> fsevent \<Rightarrow> 'c Watcher \<Rightarrow> 'c Watcher" where
  "handleEvent dm env event w =
    (case we_Tree env (ev_Name event) of
       Inl _ \<Rightarrow> w
     | Inr d \<Rightarrow>
         if dn_IsDir d then
           (if Create \<in> ev_Op event then watchNewDir dm env (ev_Name event) w else w)
         else if dn_kind d = KSymlink then w
         else schedule (ev_Name event) w)"

text \<open>One event of the loop \<open>Start\<close> runs.\<close>

definition Start_event :: "matcher \<Rightarrow> WatchEnv \<Rightarrow> fsevent \<Rightarrow> 'c Watcher \<Rightarrow> 'c Watcher" where
  "Start_event dm env event w =
    (let w = (if path_Base (ev_Name event) = ''.syncignore'' \<and> (Write \<in> ev_Op event \<or> Create \<in> ev_Op event)
              then invalidatePatterns (path_Dir (ev_Name event)) w else w)
     in if Write \<in> ev_Op event \<or> Create \<in> ev_Op event then handleEvent dm env event w
        else if Remove \<in> ev_Op event \<or> Rename \<in> ev_Op event then
          (if \<not> IsPartialName (path_Base (ev_Name event)) then schedule (ev_Name event) w else w)
        else w)"

definition Close :: "'c Watcher \<Rightarrow> 'c Watcher" where
  "Close w = w\<lparr>wa_debouncer := StopAll (wa_debouncer w), wa_watches := {}\<rparr>"

section \<open>What the operations leave alone\<close>

lemma walkDir_keeps:
  shows "\<lbrakk>\<And>p d e acc. P acc \<Longrightarrow> P (snd (fn p d e acc)); P acc\<rbrakk> \<Longrightarrow> P (snd (walkDir fn p d acc))"
    and "\<lbrakk>\<And>p d e acc. P acc \<Longrightarrow> P (snd (fn p d e acc)); P acc\<rbrakk> \<Longrightarrow> P (snd (walkDirs fn p ds acc))"
proof (induction fn p d acc and fn p ds acc rule: walkDir_walkDirs.induct)
  case (1 fn path nm kd fi re cs acc)
  obtain c1 a1 where f1: "fn path (Some (DNode nm kd fi re cs)) None acc = (c1, a1)" by fastforce
  have P1: "P a1" using 1(3) [OF 1(4), of path "Some (DNode nm kd fi re cs)" None] f1 by simp
  show ?case
  proof (cases re)
    case None
    then show ?thesis using f1 P1 1(1) 1(3) by (auto simp: Let_def)
  next
    case (Some e)
    obtain c2 a2 where f2: "fn path (Some (DNode nm kd fi re cs)) (Some e) a1 = (c2, a2)" by fastforce
    have P2: "P a2" using 1(3) [OF P1, of path "Some (DNode nm kd fi re cs)" "Some e"] f2 by simp
    show ?thesis using f1 f2 P1 P2 1(2) 1(3) Some by (auto simp: Let_def)
  qed
next
  case (3 fn path d1 ds acc)
  obtain c a where w: "walkDir fn (path_Join [path, dn_name d1]) d1 acc = (c, a)" by fastforce
  then have "P a" using 3(1,3,4) by (metis snd_conv)
  then show ?case using w 3(2) 3(3) by (cases c) auto
qed auto

lemma WalkDir_keeps:
  assumes "\<And>p d e acc. P acc \<Longrightarrow> P (snd (fn p d e acc))" "P acc"
  shows "P (snd (WalkDir l root fn acc))"
  using walkDir_keeps(1) [of P fn acc root] assms
  by (auto simp: WalkDir_def case_prod_beta split: sum.splits)

text \<open>The profiles with what belongs to them.\<close>

definition registered ::
  "'c Watcher \<Rightarrow> (string \<times> Profile) list \<times> (string \<times> 'c) list \<times> (string \<times> nat) list" where
  "registered w = (wa_profiles w, wa_callbacks w, wa_contextDepths w)"

lemma registered_updates [simp]:
  "registered (w\<lparr>wa_cache := x\<rparr>) = registered w" "registered (w\<lparr>wa_watches := y\<rparr>) = registered w"
  "registered (w\<lparr>wa_debouncer := z\<rparr>) = registered w"
  by (simp_all add: registered_def)

lemma getPatterns_registered [simp]: "registered (snd (getPatterns env c w)) = registered w"
  by (simp add: getPatterns_def Let_def split: option.split)

lemma schedule_registered [simp]: "registered (schedule f w) = registered w"
proof -
  have one: "registered (schedule_one f n w) = registered w" for n and w :: "'a Watcher"
    by (simp add: schedule_one_def Let_def split: option.split)
  have "registered (foldl (\<lambda>w name. schedule_one f name w) w ns) = registered w" for ns and w :: "'a Watcher"
    by (induction ns arbitrary: w) (simp_all add: one)
  then show ?thesis by (simp add: schedule_def)
qed

lemma watched_loop_registered [simp]: "registered (snd (watched_loop dm env dir ps w)) = registered w"
proof (induction dm env dir ps w rule: watched_loop.induct)
  case (2 dm env dir name profile rest w)
  obtain pats w1 where g: "getPatterns env (p_Context profile) w = (pats, w1)" by fastforce
  then have "registered w1 = registered w" by (metis getPatterns_registered snd_conv)
  then show ?case using 2 g by (auto split: option.split)
qed simp

lemma addRecursive_registered [simp]: "registered (snd (addRecursive dm env root w)) = registered w"
proof -
  obtain ps w1 where g: "getPatterns env root w = (ps, w1)" by fastforce
  have "registered (snd (WalkDir (we_Tree env root) root (add_fn dm env root ps) w1)) = registered w1"
    by (rule WalkDir_keeps [where P = "\<lambda>v. registered v = registered w1"])
       (auto simp: add_fn_def split: option.splits)
  then show ?thesis using g by (metis addRecursive_def getPatterns_registered old.prod.case snd_conv)
qed

lemma removeRecursive_registered [simp]: "registered (snd (removeRecursive env root w)) = registered w"
  unfolding removeRecursive_def
  by (rule WalkDir_keeps [where P = "\<lambda>v. registered v = registered w"])
     (auto simp: remove_fn_def split: option.splits)

lemma watchNewDir_registered [simp]: "registered (watchNewDir dm env dir w) = registered w"
  unfolding watchNewDir_def
proof (rule WalkDir_keeps [where P = "\<lambda>v. registered v = registered w"])
  fix p d e v
  assume v: "registered v = registered w"
  obtain b v1 where l: "watchedByAnyProfile dm env p v = (b, v1)" by fastforce
  have "registered v1 = registered w"
    using l v by (metis watchedByAnyProfile_def watched_loop_registered snd_conv)
  then show "registered (snd (new_dir_fn dm env p d e v)) = registered w"
    using v l by (auto simp: new_dir_fn_def split: option.split bool.split)
qed simp

lemma Start_event_registered [simp]: "registered (Start_event dm env event w) = registered w"
  by (simp add: Start_event_def handleEvent_def invalidatePatterns_def Let_def split: sum.split)

section \<open>Reachable watchers\<close>

inductive wa_reach :: "matcher \<Rightarrow> 'c Watcher \<Rightarrow> bool" for dm where
  wa_start: "wa_reach dm NewWatcher"
| wa_watch: "wa_reach dm w \<Longrightarrow> wa_reach dm (snd (Watch dm env name profile callback w))"
| wa_unwatch: "wa_reach dm w \<Longrightarrow> wa_reach dm (snd (Unwatch env name w))"
| wa_event: "wa_reach dm w \<Longrightarrow> wa_reach dm (Start_event dm env event w)"

definition wa_wf :: "'c Watcher \<Rightarrow> bool" where
  "wa_wf w \<longleftrightarrow> distinct_keys (wa_profiles w) \<and>
     (\<forall>n p. map_of (wa_profiles w) n = Some p \<longrightarrow>
        map_of (wa_contextDepths w) n = Some (Count (p_Context p) CHR ''/'') \<and>
        map_of (wa_callbacks w) n \<noteq> None \<and> Clean (p_Context p) = p_Context p)"

lemma wa_wf_registered: "registered v = registered w \<Longrightarrow> wa_wf v = wa_wf w"
  by (simp add: registered_def wa_wf_def)

lemma Watch_wf:
  assumes "wa_wf w"
  shows "wa_wf (snd (Watch dm env name profile callback w))"
proof -
  let ?p = "profile\<lparr>p_Context := Clean (p_Context profile)\<rparr>"
  let ?w = "w\<lparr>wa_profiles := AList.update name ?p (wa_profiles w),
      wa_callbacks := AList.update name callback (wa_callbacks w),
      wa_contextDepths := AList.update name (Count (p_Context ?p) CHR ''/'') (wa_contextDepths w)\<rparr>"
  have "wa_wf ?w" using assms by (auto simp: wa_wf_def distinct_update update_conv')
  moreover have "registered (snd (Watch dm env name profile callback w)) \<in> {registered w, registered ?w}"
  proof -
    obtain e v where a: "addRecursive dm env (p_Context ?p) ?w = (e, v)" by fastforce
    have "registered v = registered ?w" using a by (metis addRecursive_registered snd_conv)
    then show ?thesis using a by (auto simp: Watch_def Let_def split: option.splits)
  qed
  ultimately show ?thesis using assms wa_wf_registered by blast
qed

lemma Unwatch_wf:
  assumes "wa_wf w"
  shows "wa_wf (snd (Unwatch env name w))"
proof (cases "map_of (wa_profiles w) name")
  case (Some p)
  obtain e v where r: "removeRecursive env (p_Context p) w = (e, v)" by fastforce
  then have "registered v = registered w" by (metis removeRecursive_registered snd_conv)
  then have "wa_wf v" using assms wa_wf_registered by blast
  then show ?thesis
    using Some r by (auto simp: Unwatch_def wa_wf_def distinct_delete delete_conv' simp del: map_of_eq_Some_iff split: option.splits)
qed (use assms in \<open>simp add: Unwatch_def\<close>)

lemma wa_reach_wf: "wa_reach dm w \<Longrightarrow> wa_wf w"
proof (induction rule: wa_reach.induct)
  case wa_start
  then show ?case by (simp add: wa_wf_def NewWatcher_def)
next
  case (wa_event w env event)
  then show ?case using wa_wf_registered [OF Start_event_registered] by blast
qed (simp_all add: Watch_wf Unwatch_wf)

section \<open>The profiles of a file\<close>

lemma in_context_iff: "in_context f c \<longleftrightarrow> f = c \<or> (\<exists>r. f = c @ ''/'' @ r)"
  by (auto simp: in_context_def HasPrefix_iff)

text \<open>Two contexts of one file: one is the other, or a directory above it.\<close>

lemma contexts_nested:
  assumes "in_context f c" "in_context f d"
  shows "c = d \<or> (\<exists>r. d = c @ ''/'' @ r) \<or> (\<exists>r. c = d @ ''/'' @ r)"
proof -
  have one: "c = d \<or> (\<exists>r. d = c @ ''/'' @ r)" if in2: "in_context f c" "in_context f d" "length c \<le> length d" for c d
  proof -
    obtain x where x: "f = c @ x" "x = '''' \<or> (\<exists>r. x = ''/'' @ r)" using in2(1) by (auto simp: in_context_iff)
    obtain y where y: "f = d @ y" using in2(2) by (auto simp: in_context_iff)
    obtain z where z: "d = c @ z" using x(1) y in2(3) by (metis append_eq_append_conv_if append_eq_conv_conj)
    have "z @ y = x" using x(1) y z by simp
    then show ?thesis using x(2) z by (cases z) auto
  qed
  show ?thesis using one [OF assms] one [OF assms(2,1)] by (metis nat_le_linear)
qed

lemma Count_deeper: "Count c CHR ''/'' < Count (c @ ''/'' @ r) CHR ''/''"
  by simp

lemma foldl_max:
  "foldl (\<lambda>m (_ :: 'a, depth). if int depth > m then int depth else m) k xs =
    Max (set (k # map (\<lambda>x. int (snd x)) xs))"
proof -
  have "(\<lambda>m (_ :: 'a, depth). if int depth > m then int depth else m) = (\<lambda>m x. max (int (snd x)) m)"
    by (auto simp: fun_eq_iff max_def)
  then show ?thesis
    by (simp only: Max.set_eq_fold foldl_conv_fold fold_map) (simp add: comp_def)
qed

lemma Max_member_iff: "finite S \<Longrightarrow> x \<in> S \<Longrightarrow> x = Max S \<longleftrightarrow> (\<forall>y \<in> S. y \<le> x)" for x :: int
  by (auto intro: Max_eqI [symmetric])

lemma matching_iff:
  assumes "wa_wf w"
  shows "n \<in> set (findMatchingProfiles f w) \<longleftrightarrow>
    (\<exists>p. map_of (wa_profiles w) n = Some p \<and> in_context f (p_Context p) \<and>
      (\<forall>m q. map_of (wa_profiles w) m = Some q \<and> in_context f (p_Context q) \<longrightarrow>
        Count (p_Context q) CHR ''/'' \<le> Count (p_Context p) CHR ''/''))"
proof -
  let ?ps = "filter (\<lambda>(_, p). in_context f (p_Context p)) (wa_profiles w)"
  let ?depth = "\<lambda>n. case map_of (wa_contextDepths w) n of None \<Rightarrow> 0 | Some d \<Rightarrow> d"
  let ?ms = "map (\<lambda>(n, _). (n, ?depth n)) ?ps"
  have depth: "?depth n = Count (p_Context p) CHR ''/''" if "(n, p) \<in> set (wa_profiles w)" for n p
    using assms that by (auto simp: wa_wf_def)
  have mem: "(n, p) \<in> set (wa_profiles w) \<longleftrightarrow> map_of (wa_profiles w) n = Some p" for n p
    using assms by (simp add: wa_wf_def)
  let ?max = "Max (set (- 1 # map (\<lambda>x. int (snd x)) ?ms))"
  have res: "n \<in> set (findMatchingProfiles f w) \<longleftrightarrow> (\<exists>p. (n, p) \<in> set ?ps \<and> int (?depth n) = ?max)"
  proof (cases "?ms = []")
    case True
    then show ?thesis by (simp add: findMatchingProfiles_def Let_def)
  next
    case False
    then have "findMatchingProfiles f w = map fst (filter (\<lambda>(_, depth). int depth = ?max) ?ms)"
      unfolding findMatchingProfiles_def Let_def foldl_max by simp
    then show ?thesis by force
  qed
  have top: "int (?depth n) = ?max \<longleftrightarrow> (\<forall>(m, q) \<in> set ?ps. ?depth m \<le> ?depth n)" if "(n, p) \<in> set ?ps" for n p
  proof -
    have "int (?depth n) \<in> set (- 1 # map (\<lambda>x. int (snd x)) ?ms)" using that by force
    then have "int (?depth n) = ?max \<longleftrightarrow> (\<forall>x \<in> set (- 1 # map (\<lambda>x. int (snd x)) ?ms). x \<le> int (?depth n))"
      by (rule Max_member_iff [OF List.finite_set])
    also have "\<dots> \<longleftrightarrow> (\<forall>(m, q) \<in> set ?ps. ?depth m \<le> ?depth n)" by auto
    finally show ?thesis .
  qed
  have le: "(\<forall>(m, q) \<in> set ?ps. ?depth m \<le> ?depth n) \<longleftrightarrow>
      (\<forall>m q. map_of (wa_profiles w) m = Some q \<and> in_context f (p_Context q) \<longrightarrow>
        Count (p_Context q) CHR ''/'' \<le> Count (p_Context p) CHR ''/'')" if "(n, p) \<in> set ?ps" for n p
    using that depth [of n p] by (auto simp: depth mem [symmetric])
  show ?thesis
    unfolding res
  proof (rule arg_cong [where f = Ex], rule ext)
    fix p
    have in_ps: "(n, p) \<in> set ?ps \<longleftrightarrow> map_of (wa_profiles w) n = Some p \<and> in_context f (p_Context p)"
      using mem [of n p] by auto
    show "((n, p) \<in> set ?ps \<and> int (?depth n) = ?max) =
      (map_of (wa_profiles w) n = Some p \<and> in_context f (p_Context p) \<and>
        (\<forall>m q. map_of (wa_profiles w) m = Some q \<and> in_context f (p_Context q) \<longrightarrow>
          Count (p_Context q) CHR ''/'' \<le> Count (p_Context p) CHR ''/''))"
      using top [of n p] le [of n p] unfolding in_ps by blast
  qed
qed


section \<open>What Watch watches\<close>

definition node_path :: "string \<Rightarrow> string list \<Rightarrow> string" where
  "node_path root ns = build_path (IsAbs root) (comps root @ ns)"

definition dirs_of :: "string \<Rightarrow> (string list \<times> dnode) list \<Rightarrow> string set" where
  "dirs_of root xs = (\<lambda>x. node_path root (fst x)) ` set (filter (\<lambda>x. dn_IsDir (snd x)) xs)"

definition watch_all :: "string set \<Rightarrow> 'c Watcher \<Rightarrow> 'c Watcher" where
  "watch_all ps w = w\<lparr>wa_watches := wa_watches w \<union> ps\<rparr>"

fun readable :: "dnode \<Rightarrow> bool" where
  "readable (DNode nm kd fi re cs) \<longleftrightarrow> (kd = KDir \<longrightarrow> re = None) \<and> list_all readable cs"

lemma dirs_of_simps [simp]:
  "dirs_of root [] = {}" "dirs_of root (xs @ ys) = dirs_of root xs \<union> dirs_of root ys"
  "dirs_of root (x # xs) = (if dn_IsDir (snd x) then {node_path root (fst x)} else {}) \<union> dirs_of root xs"
  by (auto simp: dirs_of_def)

lemma watch_all_simps [simp]:
  "watch_all {} w = w" "watch_all a (watch_all b w) = watch_all (b \<union> a) w"
  "w\<lparr>wa_watches := insert x (wa_watches w)\<rparr> = watch_all {x} w"
  by (simp_all add: watch_all_def Un_assoc)

lemma clean_node_path:
  assumes "Clean p = p" "IsAbs p = IsAbs root" "comps p = comps root @ ns"
  shows "p = node_path root ns"
  using assms Clean_def [of p] by (simp add: node_path_def)

lemma add_fn_node:
  assumes "IsAbs p = IsAbs root" "comps p = comps root @ ns" "ns \<noteq> []" "\<forall>c \<in> set ns. plain c"
    and "we_Add env p = None" "Clean p = p"
  shows "add_fn dm env root ps p (Some d) None w =
    (if dn_IsDir d \<and> shown dm ps ns d then (Continue, watch_all {node_path root ns} w)
     else (if dn_IsDir d then SkipDir else Continue, w))"
  using assms(1-5) StrJoin_plain_not_dot [of ns] clean_node_path [OF assms(6,1,2)]
  by (auto simp: add_fn_def filepath_Rel_under shown_def dn_IsDir_def skip_node_def)

lemma add_walk:
  fixes w :: "'c Watcher"
  assumes "\<And>p. we_Add env p = None"
  shows "\<lbrakk>wf_dnode d; readable d; p \<noteq> ''''; Clean p = p; IsAbs p = IsAbs root; comps p = comps root @ ns; ns \<noteq> [];
      \<forall>c \<in> set ns. plain c\<rbrakk> \<Longrightarrow>
    walkDir (add_fn dm env root ps) p d w =
      (Continue, watch_all (dirs_of root (if shown dm ps ns d then (ns, d) # below dm ps ns d else [])) w)"
  and "\<lbrakk>list_all wf_dnode ds; list_all readable ds; list_all (\<lambda>c. plain (dn_name c)) ds; p \<noteq> '''';
      IsAbs p = IsAbs root; comps p = comps root @ ns; \<forall>c \<in> set ns. plain c\<rbrakk> \<Longrightarrow>
    walkDirs (add_fn dm env root ps) p ds w =
      (Continue, watch_all (dirs_of root (belows dm ps ns ds)) w)"
proof (induction dm ps ns d and dm ps ns ds arbitrary: p w and p w rule: below_belows.induct)
  case (1 dm ps ns nm kd fi re cs)
  let ?d = "DNode nm kd fi re cs"
  note here = add_fn_node [OF 1(6,7,8,9) assms 1(5), of dm ps ?d w]
  show ?case
  proof (cases "dn_IsDir ?d \<and> shown dm ps ns ?d")
    case False
    then have "\<not> enters ?d \<or> \<not> shown dm ps ns ?d" by (auto simp: enters_def)
    then show ?thesis using False here by (auto simp: skipped_def Let_def enters_def)
  next
    case True
    then have re: "re = None" and en: "enters ?d" using 1(3) by (auto simp: dn_IsDir_def enters_def)
    have "walkDirs (add_fn dm env root ps) p cs w' = (Continue, watch_all (dirs_of root (belows dm ps ns cs)) w')"
      if "w' = watch_all {node_path root ns} w" for w'
      using 1(1) [OF en _ _ _ 1(4,6,7,9)] 1(2,3) by simp
    then show ?thesis using True en here unfolding re by (simp add: Let_def)
  qed
next
  case (2 dm ps ns)
  then show ?case by simp
next
  case (3 dm ps ns d ds)
  have d: "plain (dn_name d)" "wf_dnode d" "readable d" using 3(3-5) by auto
  note child = path_Join_child [OF 3(6) d(1)]
  have clean: "Clean (path_Join [p, dn_name d]) = path_Join [p, dn_name d]"
    using 3(6) d(1) by (simp add: path_Join_def plain_def)
  have rest: "walkDirs (add_fn dm env root ps) p ds w' =
      (Continue, watch_all (dirs_of root (belows dm ps ns ds)) w')" for w' :: "'c Watcher"
    using 3 by simp
  have ns: "ns @ [dn_name d] \<noteq> []" "\<forall>c \<in> set (ns @ [dn_name d]). plain c" using 3(9) d by auto
  have abs: "IsAbs (path_Join [p, dn_name d]) = IsAbs root"
    "comps (path_Join [p, dn_name d]) = comps root @ ns @ [dn_name d]"
    using child 3(7,8) by simp_all
  show ?case
  proof (cases "shown dm ps (ns @ [dn_name d]) d")
    case True
    then show ?thesis
      using 3(1) [OF refl True d(2,3) child(1) clean abs ns] rest by (simp add: Let_def Un_assoc)
  next
    case False
    obtain nm kd fi re cs where dd [simp]: "d = DNode nm kd fi re cs" by (cases d)
    show ?thesis
      using False rest add_fn_node [OF abs ns assms clean, of dm ps d w] by (simp add: Let_def skipped_def)
  qed
qed

lemma addRecursive_watches:
  assumes "\<And>p. we_Add env p = None" "we_Tree env root = Inr d" "wf_dnode d" "readable d" "dn_kind d = KDir"
    and "root \<noteq> ''''" "getPatterns env root w = (ps, w1)"
  shows "addRecursive dm env root w = (None, watch_all (insert root (dirs_of root (below dm ps [] d))) w1)"
proof (cases d)
  case [simp]: (DNode nm kd fi re cs)
  have fn: "add_fn dm env root ps root (Some d) None w1 = (Continue, watch_all {root} w1)"
    using assms(1,5) by (simp add: add_fn_def filepath_Rel_self dn_IsDir_def)
  have "walkDirs (add_fn dm env root ps) root cs v = (Continue, watch_all (dirs_of root (belows dm ps [] cs)) v)"
    if "v = watch_all {root} w1" for v
    using add_walk(2) [OF assms(1), of cs root root "[]" dm ps v] assms(3,4,6) by simp
  then have "walkDir (add_fn dm env root ps) root d w1 =
      (Continue, watch_all (insert root (dirs_of root (below dm ps [] d))) w1)"
    using fn assms(4,5) by (simp add: Let_def dn_IsDir_def enters_def)
  then show ?thesis using assms(2,7) by (simp add: addRecursive_def WalkDir_def)
qed

text \<open>The parent of a node the scan comes to is the root or a directory it comes to.\<close>

lemma below_parent:
  shows "(ns', d') \<in> set (below dm ps ns d) \<Longrightarrow> dn_IsDir d \<Longrightarrow>
    butlast ns' = ns \<or> (\<exists>e. (butlast ns', e) \<in> set (below dm ps ns d) \<and> dn_IsDir e)"
  and "(ns', d') \<in> set (belows dm ps ns ds) \<Longrightarrow>
    butlast ns' = ns \<or> (\<exists>e. (butlast ns', e) \<in> set (belows dm ps ns ds) \<and> dn_IsDir e)"
proof (induction dm ps ns d and dm ps ns ds rule: below_belows.induct)
  case (3 dm ps ns d ds)
  have empty: "below dm ps ms d = []" if "\<not> dn_IsDir d" for ms
    using that by (cases d) (auto simp: enters_def)
  show ?case
    using 3(1,2) 3(3) empty by (cases "dn_IsDir d") (auto simp: Let_def split: if_splits)
qed (auto split: if_splits)

lemma node_path_parent:
  assumes "root \<noteq> ''''" "ns \<noteq> []" "\<forall>n \<in> set ns. plain n" "Clean root = root"
  shows "path_Dir (path_Join [root, StrJoin ''/'' ns]) = node_path root (butlast ns)"
proof -
  let ?cs = "comps root @ ns"
  have p: "path_Join [root, StrJoin ''/'' ns] = build_path (IsAbs root) ?cs"
    by (rule path_Join_plain [OF assms(1-3)])
  obtain ms n where ns: "ns = ms @ [n]" using assms(2) by (cases ns rule: rev_cases) auto
  have n: "CHR ''/'' \<notin> set n" using assms(3) ns by (auto simp: plain_def)
  have shape: "clean_shape (IsAbs root) (comps root @ ms)"
    using assms(3) ns by (intro clean_shape_append [OF clean_shape_comps]) simp
  show ?thesis
  proof (cases "comps root @ ms = []")
    case True
    then have "build_path (IsAbs root) ?cs = (if IsAbs root then ''/'' else '''') @ n"
      using ns by (simp add: build_path_def)
    then have "path_Split (build_path (IsAbs root) ?cs) = (if IsAbs root then ''/'' else '''', n)"
      using path_Split_eq [OF n, of "if IsAbs root then ''/'' else ''''"] by simp
    then have "path_Dir (build_path (IsAbs root) ?cs) = Clean (if IsAbs root then ''/'' else '''')"
      by (simp only: path_Dir_def fst_conv)
    also have "\<dots> = build_path (IsAbs root) (comps root @ ms)"
      unfolding True by (simp add: build_path_def Clean_def comps_def clean_comps_def clean_step_def IsAbs_def HasPrefix_def)
    finally show ?thesis unfolding p node_path_def by (simp add: ns)
  next
    case False
    have "build_path (IsAbs root) ?cs = (build_path (IsAbs root) (comps root @ ms) @ ''/'') @ n"
      using False ns StrJoin_append [OF False, of "[n]" "''/''"] by (auto simp: build_path_def)
    then have "path_Split (build_path (IsAbs root) ?cs) = (build_path (IsAbs root) (comps root @ ms) @ ''/'', n)"
      using path_Split_eq [OF n, of "build_path (IsAbs root) (comps root @ ms) @ ''/''"] by simp
    moreover have "Clean (build_path (IsAbs root) (comps root @ ms) @ ''/'') = build_path (IsAbs root) (comps root @ ms)"
      using Clean_trailing [of "build_path (IsAbs root) (comps root @ ms)"] Clean_build_shape [OF shape]
        Clean_nonempty by metis
    ultimately show ?thesis unfolding p path_Dir_def node_path_def by (simp add: ns)
  qed
qed


section \<open>Containment\<close>

lemma strip_common_spec:
  "strip_common as bs = (xs, ys) \<Longrightarrow> \<exists>cs. as = cs @ xs \<and> bs = cs @ ys \<and> (xs = [] \<or> ys = [] \<or> hd xs \<noteq> hd ys)"
proof (induction as bs rule: strip_common.induct)
  case (1 a as b bs)
  show ?case
  proof (cases "a = b")
    case True
    then obtain cs where "as = cs @ xs" "bs = cs @ ys" "xs = [] \<or> ys = [] \<or> hd xs \<noteq> hd ys" using 1 by auto
    then show ?thesis using True by (intro exI [of _ "a # cs"]) simp
  qed (use 1 in auto)
qed auto

lemma escapes_join:
  assumes "\<forall>c \<in> set ts. plain c" "ts \<noteq> [] \<or> n > 0"
  shows "escapesBase (StrJoin ''/'' (replicate n ''..'' @ ts)) \<longleftrightarrow> n > 0"
proof -
  let ?cs = "replicate n ''..'' @ ts"
  have ne: "?cs \<noteq> []" using assms(2) by (cases ts) auto
  have "CHR ''/'' \<notin> set x" if "x \<in> set ?cs" for x
    using that assms(1) by (cases "x \<in> set ts") (auto simp: plain_def)
  then have split: "Split CHR ''/'' (StrJoin ''/'' ?cs) = ?cs"
    using Split_StrJoin [OF ne, of "CHR ''/''"] by simp
  have "escapesBase s \<longleftrightarrow> hd (Split CHR ''/'' s) = ''..''" for s
  proof
    assume "escapesBase s"
    then show "hd (Split CHR ''/'' s) = ''..''"
      using Split_append_sep [of "CHR ''/''" "''..''"] by (auto simp: escapesBase_def HasPrefix_iff)
  next
    assume h: "hd (Split CHR ''/'' s) = ''..''"
    obtain r where r: "Split CHR ''/'' s = ''..'' # r"
      using h Split_not_Nil [of "CHR ''/''" s] by (metis list.collapse)
    then have "s = StrJoin ''/'' (''..'' # r)" using StrJoin_Split [of "CHR ''/''" s] by simp
    then show "escapesBase s" by (cases r) (simp_all add: escapesBase_def HasPrefix_def)
  qed
  moreover have "hd ?cs = ''..'' \<longleftrightarrow> n > 0"
    using assms by (cases n; cases ts) (auto simp: plain_def)
  ultimately show ?thesis using split by simp
qed

text \<open>What \<open>filepath.Rel\<close> makes of two absolute paths: up to where they part, and down.\<close>

lemma Rel_abs:
  assumes "IsAbs base" "IsAbs p" "Clean p \<noteq> Clean base"
  obtains cs xs ys where "comps base = cs @ xs" "comps p = cs @ ys" "xs \<noteq> [] \<or> ys \<noteq> []"
    "xs = [] \<or> ys = [] \<or> hd xs \<noteq> hd ys"
    "filepath_Rel base p = Some (StrJoin ''/'' (replicate (length xs) ''..'' @ ys))"
    "escapesBase (StrJoin ''/'' (replicate (length xs) ''..'' @ ys)) \<longleftrightarrow> xs \<noteq> []"
proof -
  have plain: "\<forall>c \<in> set (comps base). plain c" "\<forall>c \<in> set (comps p). plain c"
    using comps_abs_plain assms by auto
  have ne: "Clean base \<noteq> ''.''" "Clean p \<noteq> ''.''"
    using assms IsAbs_Clean [of base] IsAbs_Clean [of p] by (auto simp: IsAbs_def HasPrefix_def)
  obtain xs ys where st: "strip_common (comps base) (comps p) = (xs, ys)" by fastforce
  obtain cs where cs: "comps base = cs @ xs" "comps p = cs @ ys" "xs = [] \<or> ys = [] \<or> hd xs \<noteq> hd ys"
    using strip_common_spec [OF st] by blast
  have neq: "comps base \<noteq> comps p" using assms by (auto simp: Clean_def)
  have hd: "xs = [] \<or> hd xs \<noteq> ''..''" using plain(1) cs(1) by (cases xs) (auto simp: plain_def)
  have rel: "filepath_Rel base p = Some (StrJoin ''/'' (replicate (length xs) ''..'' @ ys))"
    using ne st hd assms by (simp add: filepath_Rel_def Let_def)
  have esc: "escapesBase (StrJoin ''/'' (replicate (length xs) ''..'' @ ys)) \<longleftrightarrow> length xs > 0"
    using plain(2) cs neq by (intro escapes_join) auto
  have "xs \<noteq> [] \<or> ys \<noteq> []" using neq cs by auto
  then show thesis using that cs rel esc by simp
qed

text \<open>
  \<open>escapesBase\<close> tells inside from outside. For absolute paths \<open>filepath.Rel\<close> always has
  a result, and it does not escape exactly if the path is the base or strictly below it,
  names that start with two dots included.
\<close>

theorem escapes_iff_outside:
  assumes "IsAbs base" "IsAbs p"
  shows "\<exists>rel. filepath_Rel base p = Some rel \<and>
    (\<not> escapesBase rel \<longleftrightarrow> Clean p = Clean base \<or> strictly_below base p)"
proof (cases "Clean p = Clean base")
  case True
  then show ?thesis by (simp add: filepath_Rel_def escapesBase_def HasPrefix_def)
next
  case False
  obtain cs xs ys where rel: "comps base = cs @ xs" "comps p = cs @ ys" "xs \<noteq> [] \<or> ys \<noteq> []"
    "xs = [] \<or> ys = [] \<or> hd xs \<noteq> hd ys"
    "filepath_Rel base p = Some (StrJoin ''/'' (replicate (length xs) ''..'' @ ys))"
    "escapesBase (StrJoin ''/'' (replicate (length xs) ''..'' @ ys)) \<longleftrightarrow> xs \<noteq> []"
    by (rule Rel_abs [OF assms False])
  have "\<forall>c \<in> set ys. plain c" using comps_abs_plain [OF assms(2)] rel(2) by auto
  then have "strictly_below base p \<longleftrightarrow> xs = []"
    using assms rel(1-4) by (cases xs) (auto simp: strictly_below_def)
  then show ?thesis using rel(5,6) False by auto
qed

section \<open>What goes wrong\<close>

text \<open>
  Unwatching a profile blinds the others with its context. Two profiles may share a
  context (a staging and a production server); when one is removed, or its \<open>autoSync\<close> is
  turned off, the context directory is no longer watched although the other profile is
  still registered for it.
\<close>

theorem unwatch_blinds_others:
  assumes "map_of (wa_profiles w) m = Some p" "map_of (wa_profiles w) n = Some q" "m \<noteq> n"
    and "p_Context p = p_Context q" "we_Tree env (p_Context p) = Inr d" "dn_kind d = KDir" "dn_readerr d = None"
    and "dn_children d = []"
  shows "p_Context q \<notin> wa_watches (snd (Unwatch env m w)) \<and>
    map_of (wa_profiles (snd (Unwatch env m w))) n = Some q"
proof -
  obtain nm fi where d: "d = DNode nm KDir fi None []" using assms(6-8) by (cases d) auto
  have "removeRecursive env (p_Context p) w = (None, w\<lparr>wa_watches := wa_watches w - {p_Context p}\<rparr>)"
    using assms(5) by (simp add: removeRecursive_def WalkDir_def d remove_fn_def dn_IsDir_def)
  then show ?thesis
    using assms(1-4) by (simp add: Unwatch_def delete_conv')
qed

text \<open>
  A context that is a symbolic link is not watched at all, and \<open>Watch\<close> reports success.
\<close>

theorem symlinked_context_unwatched:
  assumes "we_Stat env (Clean (p_Context profile)) = None"
    and "we_Tree env (Clean (p_Context profile)) = Inr d" "dn_kind d = KSymlink"
  shows "fst (Watch dm env name profile callback w) = None \<and>
    wa_watches (snd (Watch dm env name profile callback w)) = wa_watches w"
proof -
  obtain nm fi re cs where d: "d = DNode nm KSymlink fi re cs" using assms(3) by (cases d) auto
  let ?root = "Clean (p_Context profile)"
  have add: "fst (addRecursive dm env ?root v) = None \<and> wa_watches (snd (addRecursive dm env ?root v)) = wa_watches v" for v :: "'a Watcher"
    using assms(2)
    by (auto simp: addRecursive_def WalkDir_def d add_fn_def skip_node_def dn_IsDir_def skipped_def
        getPatterns_def Let_def split: prod.split option.split)
  show ?thesis
    using assms(1) add by (simp add: Watch_def Let_def case_prod_beta)
qed

text \<open>
  A profile whose watching fails stays registered. When a directory of the context
  cannot be watched, \<open>Watch\<close> returns an error, which the daemon reports as skipping the
  profile, but the profile and its callback remain, and files in the directories watched so
  far are scheduled for it.
\<close>

theorem failed_watch_stays_registered:
  assumes "Watch dm env name profile callback w = (Some (Wrapped m [e]), w')"
  shows "map_of (wa_profiles w') name = Some (profile\<lparr>p_Context := Clean (p_Context profile)\<rparr>) \<and>
    map_of (wa_callbacks w') name = Some callback"
proof -
  let ?p = "profile\<lparr>p_Context := Clean (p_Context profile)\<rparr>"
  let ?w = "w\<lparr>wa_profiles := AList.update name ?p (wa_profiles w),
      wa_callbacks := AList.update name callback (wa_callbacks w),
      wa_contextDepths := AList.update name (Count (p_Context ?p) CHR ''/'') (wa_contextDepths w)\<rparr>"
  obtain r v where a: "addRecursive dm env (p_Context ?p) ?w = (r, v)" by fastforce
  have "registered v = registered ?w" using a by (metis addRecursive_registered snd_conv)
  moreover have "w' = v" using assms a by (auto simp: Watch_def Let_def split: if_splits option.splits)
  ultimately show ?thesis by (simp add: registered_def update_conv')
qed

end
