(* ===== verification/Watcher_Example.thy ===== *)
theory Watcher_Example
  imports Watcher
begin

text \<open>
  A small site the properties of the watcher are applied to: \<open>/site\<close> with one directory and
  a file in it, watched for one or two profiles.
\<close>

definition we_info :: "string \<Rightarrow> fkind \<Rightarrow> FileInfo" where
  "we_info n k = \<lparr>fi_Name = n, fi_Size = 1, fi_ModTime = 1, fi_Kind = k, fi_Perm = 420\<rparr>"

definition we_site :: dnode where
  "we_site = DNode ''site'' KDir (Inr (we_info ''site'' KDir)) None
     [DNode ''js'' KDir (Inr (we_info ''js'' KDir)) None
        [DNode ''a'' KRegular (Inr (we_info ''a'' KRegular)) None []]]"

definition we_flat :: dnode where
  "we_flat = DNode ''site'' KDir (Inr (we_info ''site'' KDir)) None []"

definition we_link :: dnode where
  "we_link = DNode ''site'' KSymlink (Inr (we_info ''site'' KSymlink)) None []"

definition we_demo :: "dnode \<Rightarrow> goerr option \<Rightarrow> WatchEnv" where
  "we_demo tree add =
    \<lparr>we_Stat = (\<lambda>p. if p = ''/site'' then None else Some (Sentinel ErrNotExist)),
     we_ReadFile = (\<lambda>p. Inl (Sentinel ErrNotExist)), we_Tree = (\<lambda>p. Inr tree), we_Add = (\<lambda>p. add)\<rparr>"

definition we_profile :: "string \<Rightarrow> Profile" where
  "we_profile context =
    \<lparr>p_Host = ''h'', p_Username = ''u'', p_Password = ''p'', p_SSHKey = '''', p_Port = 22,
     p_Protocol = ''sftp'', p_RemotePath = ''/www'', p_Context = context, p_AutoSync = True,
     p_AutoSyncDebounce = 500, p_AutoSyncDeletes = False, p_VerifyHostKey = None,
     p_FTPConnections = 8, p_TLSCACert = ''''\<rparr>"

abbreviation no_glob :: matcher where "no_glob \<equiv> \<lambda>_ _. False"

definition we_watched :: "unit Watcher" where
  "we_watched = snd (Watch no_glob (we_demo we_site None) ''web'' (we_profile ''/site/'') () NewWatcher)"

definition we_two :: "unit Watcher" where
  "we_two = snd (Watch no_glob (we_demo we_flat None) ''prod'' (we_profile ''/site'') ()
     (snd (Watch no_glob (we_demo we_flat None) ''staging'' (we_profile ''/site'') () NewWatcher)))"

lemma clean_site: "Clean ''/site/'' = ''/site''" "Clean ''/site'' = ''/site''" "IsAbs ''/site''"
  by (simp_all add: IsAbs_def HasPrefix_def Clean_def comps_def clean_comps_def clean_step_def build_path_def)



lemma escapes_iff_outside_witness:
  "\<exists>rel. filepath_Rel ''/site'' ''/site/..env'' = Some rel \<and>
    (\<not> escapesBase rel \<longleftrightarrow> Clean ''/site/..env'' = Clean ''/site'' \<or> strictly_below ''/site'' ''/site/..env'')"
  by (rule escapes_iff_outside) (simp_all add: IsAbs_def HasPrefix_def)

lemma we_two_profiles:
  "map_of (wa_profiles we_two) ''staging'' = Some (we_profile ''/site'')"
  "map_of (wa_profiles we_two) ''prod'' = Some (we_profile ''/site'')"
  by (code_simp, code_simp)

lemma unwatch_blinds_others_witness:
  "''/site'' \<in> wa_watches we_two \<and> ''/site'' \<notin> wa_watches (snd (Unwatch (we_demo we_flat None) ''staging'' we_two)) \<and>
   map_of (wa_profiles (snd (Unwatch (we_demo we_flat None) ''staging'' we_two))) ''prod'' = Some (we_profile ''/site'')"
proof -
  have "''/site'' \<in> wa_watches we_two" by code_simp
  moreover have "p_Context (we_profile ''/site'') \<notin> wa_watches (snd (Unwatch (we_demo we_flat None) ''staging'' we_two)) \<and>
      map_of (wa_profiles (snd (Unwatch (we_demo we_flat None) ''staging'' we_two))) ''prod'' = Some (we_profile ''/site'')"
    by (rule unwatch_blinds_others [OF we_two_profiles, where d = we_flat]) (simp_all add: we_demo_def we_flat_def)
  ultimately show ?thesis by (simp add: we_profile_def)
qed

lemma symlinked_context_unwatched_witness:
  "fst (Watch no_glob (we_demo we_link None) ''web'' (we_profile ''/site'') () NewWatcher) = None \<and>
   wa_watches (snd (Watch no_glob (we_demo we_link None) ''web'' (we_profile ''/site'') () NewWatcher)) =
     wa_watches (NewWatcher :: unit Watcher)"
  by (rule symlinked_context_unwatched [where d = we_link])
     (simp_all add: we_demo_def we_profile_def clean_site we_link_def)

lemma failed_watch_stays_registered_witness:
  "\<exists>w'. map_of (wa_profiles w') ''web'' = Some (we_profile ''/site'') \<and> map_of (wa_callbacks w') ''web'' = Some () \<and>
    Watch no_glob (we_demo we_flat (Some (ErrorString ''no space''))) ''web'' (we_profile ''/site'') () NewWatcher =
      (Some (Wrapped ''failed to watch directory: no space'' [ErrorString ''no space'']), w')"
proof -
  let ?r = "Watch no_glob (we_demo we_flat (Some (ErrorString ''no space''))) ''web'' (we_profile ''/site'') () NewWatcher"
  have "fst ?r = Some (Wrapped ''failed to watch directory: no space'' [ErrorString ''no space''])"
    by code_simp
  then obtain w' where w': "?r = (Some (Wrapped ''failed to watch directory: no space'' [ErrorString ''no space'']), w')"
    by (metis prod.collapse)
  then show ?thesis using failed_watch_stays_registered [OF w'] by (simp add: we_profile_def clean_site)
qed

end
