(* ===== verification/Notifier.thy ===== *)
theory Notifier
  imports Go_Errors
begin

text \<open>
  internal/watcher/notifier.go: which uploads and failures the daemon notifies the desktop
  of. A Go map read with a default is a function; \<open>now\<close> is the time of the call.
\<close>

definition batchWindow :: duration where "batchWindow = 30 * Second"
definition batchThreshold :: int where "batchThreshold = 5"

record Notifier =
  no_successCount :: "string \<Rightarrow> int"
  no_lastNotifyTime :: "string \<Rightarrow> gotime"
  no_errorCount :: "string \<Rightarrow> int"

definition NewNotifier :: Notifier where
  "NewNotifier = \<lparr>no_successCount = (\<lambda>_. 0), no_lastNotifyTime = (\<lambda>_. 0), no_errorCount = (\<lambda>_. 0)\<rparr>"

definition arrow :: string where
  "arrow = '' '' @ [CHR 0xE2, CHR 0x86, CHR 0x92] @ '' ''"

text \<open>The notification sent, if any, and the new state.\<close>

definition NotifySuccess :: "gotime \<Rightarrow> string \<Rightarrow> string \<Rightarrow> Notifier \<Rightarrow> string option \<times> Notifier" where
  "NotifySuccess now profileName relPath n =
    (let n = n\<lparr>no_successCount := (no_successCount n)(profileName := no_successCount n profileName + 1)\<rparr>;
         count = no_successCount n profileName;
         timeSinceLastNotify = time_Sub now (no_lastNotifyTime n profileName);
         message =
           (if count = 1 then Some (relPath @ arrow @ profileName)
            else if count \<ge> batchThreshold then Some (show_int count @ '' files'' @ arrow @ profileName)
            else if timeSinceLastNotify \<ge> batchWindow then Some (show_int count @ '' files'' @ arrow @ profileName)
            else None)
     in case message of
          None \<Rightarrow> (None, n)
        | Some m \<Rightarrow>
            (Some m, n\<lparr>no_lastNotifyTime := (no_lastNotifyTime n)(profileName := now),
                       no_successCount := (no_successCount n)(profileName := 0)\<rparr>))"

definition NotifyError :: "string \<Rightarrow> string \<Rightarrow> goerr \<Rightarrow> Notifier \<Rightarrow> string option \<times> Notifier" where
  "NotifyError profileName relPath err n =
    (let n = n\<lparr>no_errorCount := (no_errorCount n)(profileName := no_errorCount n profileName + 1)\<rparr>;
         count = no_errorCount n profileName;
         shouldNotify =
           (if count = 1 then True
            else if count \<le> 10 \<and> count mod 5 = 0 then True
            else count > 10 \<and> count mod 10 = 0)
     in (if shouldNotify then
           Some (if count = 1 then relPath @ arrow @ profileName @ [CHR 0x0A] @ error_msg err
                 else relPath @ '' (failed '' @ show_int count @ '' times)'' @ [CHR 0x0A] @ error_msg err)
         else None, n))"

definition ResetErrorCount :: "string \<Rightarrow> Notifier \<Rightarrow> Notifier" where
  "ResetErrorCount profileName n = n\<lparr>no_errorCount := (no_errorCount n)(profileName := 0)\<rparr>"

text \<open>Any sequence of calls, with what each sends.\<close>

datatype no_event = NSuccess gotime string string | NError string string goerr | NReset string

fun no_step :: "no_event \<Rightarrow> Notifier \<Rightarrow> string option \<times> Notifier" where
  "no_step (NSuccess now name rel) n = NotifySuccess now name rel n"
| "no_step (NError name rel err) n = NotifyError name rel err n"
| "no_step (NReset name) n = (None, ResetErrorCount name n)"

definition no_run :: "no_event list \<Rightarrow> Notifier" where
  "no_run evs = foldl (\<lambda>n ev. snd (no_step ev n)) NewNotifier evs"

lemma no_run_snoc: "no_run (evs @ [ev]) = snd (no_step ev (no_run evs))"
  by (simp add: no_run_def)

lemma success_count_zero: "no_successCount (no_run evs) = (\<lambda>_. 0)"
proof (induction evs rule: rev_induct)
  case (snoc ev evs)
  then show ?case
    by (cases ev) (simp_all add: no_run_snoc NotifySuccess_def NotifyError_def ResetErrorCount_def Let_def)
qed (simp add: no_run_def NewNotifier_def)

text \<open>
  Uploads are never batched. After any calls whatever, the next successful upload is
  notified at once, with its file name: the counter is reset by the notification the first
  upload causes, so it never gets to two.
\<close>

theorem success_never_batched:
  "fst (NotifySuccess now name relPath (no_run evs)) = Some (relPath @ arrow @ name)"
  using success_count_zero [of evs] by (simp add: NotifySuccess_def Let_def)

text \<open>The failures of a profile since the last reset of its counter.\<close>

definition errors_since :: "string \<Rightarrow> no_event list \<Rightarrow> nat" where
  "errors_since name evs = length (filter (\<lambda>ev. case ev of NError p _ _ \<Rightarrow> p = name | _ \<Rightarrow> False)
     (takeWhile (\<lambda>ev. ev \<noteq> NReset name) (rev evs)))"

lemma error_count: "no_errorCount (no_run evs) name = int (errors_since name evs)"
proof (induction evs rule: rev_induct)
  case (snoc ev evs)
  then show ?case
    by (cases ev) (auto simp: no_run_snoc errors_since_def NotifySuccess_def NotifyError_def
        ResetErrorCount_def Let_def split: option.split)
qed (simp add: no_run_def NewNotifier_def errors_since_def)

text \<open>
  C37: failures are notified with backoff. After any calls, a failure is notified exactly if
  it is the first, the fifth or a multiple of the tenth failure of its profile since the
  last success, whatever other profiles do meanwhile.
\<close>

theorem error_backoff:
  "fst (NotifyError name relPath err (no_run evs)) \<noteq> None \<longleftrightarrow>
   (let k = Suc (errors_since name evs) in k = 1 \<or> k = 5 \<or> 10 dvd k)"
proof -
  let ?k = "Suc (errors_since name evs)"
  have count: "no_errorCount (no_run evs) name + 1 = int ?k" by (simp add: error_count)
  have mods: "int ?k mod 5 = 0 \<longleftrightarrow> 5 dvd ?k" "int ?k mod 10 = 0 \<longleftrightarrow> 10 dvd ?k"
    by presburger+
  have "fst (NotifyError name relPath err (no_run evs)) \<noteq> None \<longleftrightarrow>
      int ?k = 1 \<or> int ?k \<le> 10 \<and> int ?k mod 5 = 0 \<or> int ?k > 10 \<and> int ?k mod 10 = 0"
    by (simp add: NotifyError_def Let_def count del: of_nat_Suc)
  also have "\<dots> \<longleftrightarrow> ?k = 1 \<or> ?k = 5 \<or> 10 dvd ?k"
    unfolding mods by presburger
  finally show ?thesis by (simp add: Let_def)
qed

end
