(* ===== verification/Daemon.thy ===== *)
theory Daemon
  imports Watcher Queue_Pool Notifier
begin

text \<open>
  cmd/daemon.go: the daemon's start, the callbacks it gives the upload queue, and
  \<open>handleConfigReload\<close>, which carries a changed configuration to the connection pool, the
  watcher and the queue.
\<close>

section \<open>State\<close>

text \<open>
  \<open>dm_watching\<close> is the map \<open>watching\<close>; the callback the watcher calls for a profile
  enqueues the file under the name the closure captured, so it is that name.
\<close>

record daemon =
  dm_watcher :: "string Watcher"
  dm_watching :: "(string \<times> Profile) list"
  dm_queue :: "(string \<Rightarrow> Profile option) \<times> unit upq"
  dm_pool :: ConnectionPool

section \<open>Start\<close>

definition watch_profile :: "matcher \<Rightarrow> WatchEnv \<Rightarrow> string \<Rightarrow> Profile \<Rightarrow> daemon \<Rightarrow> goerr option \<times> daemon" where
  "watch_profile dm env name profile s =
    (case Watch dm env name profile name (dm_watcher s) of
       (Some e, w) \<Rightarrow> (Some e, s\<lparr>dm_watcher := w\<rparr>)
     | (None, w) \<Rightarrow> (None, s\<lparr>dm_watcher := w, dm_watching := AList.update name profile (dm_watching s)\<rparr>))"

definition start_one :: "matcher \<Rightarrow> WatchEnv \<Rightarrow> daemon \<Rightarrow> string \<times> Profile \<Rightarrow> daemon" where
  "start_one dm env s = (\<lambda>(name, p).
     if \<not> p_AutoSync p then s
     else if p_Context p = '''' then s
     else snd (watch_profile dm env name p s))"

definition Daemon :: "matcher \<Rightarrow> WatchEnv \<Rightarrow> Config \<Rightarrow> goerr + daemon" where
  "Daemon dm env cfg =
    (let s = \<lparr>dm_watcher = NewWatcher, dm_watching = [],
              dm_queue = (map_of cfg, \<lparr>uq_knownDirs = {}, uq_world = ()\<rparr>),
              dm_pool = NewConnectionPool (map_of cfg)\<rparr>;
         s = foldl (start_one dm env) s cfg
     in if dm_watching s = [] then Inl (ErrorString ''no profiles with autoSync enabled found'') else Inr s)"

text \<open>The callbacks given to \<open>queue.Start\<close>.\<close>

definition on_success :: "gotime \<Rightarrow> string \<Rightarrow> string \<Rightarrow> Notifier \<Rightarrow> string option \<times> Notifier" where
  "on_success now profileName relPath n = NotifySuccess now profileName relPath (ResetErrorCount profileName n)"

definition on_error :: "string \<Rightarrow> string \<Rightarrow> goerr \<Rightarrow> Notifier \<Rightarrow> string option \<times> Notifier" where
  "on_error profileName relPath err n = NotifyError profileName relPath err n"

section \<open>handleConfigReload\<close>

definition reload_old :: "matcher \<Rightarrow> WatchEnv \<Rightarrow> Config \<Rightarrow> daemon \<Rightarrow> string \<times> Profile \<Rightarrow> daemon" where
  "reload_old dm env new s = (\<lambda>(oldName, oldProfile).
     let unwatched = Unwatch env oldName (dm_watcher s) in
     case map_of new oldName of
       None \<Rightarrow> s\<lparr>dm_watcher := snd unwatched, dm_watching := AList.delete oldName (dm_watching s)\<rparr>
     | Some newProfile \<Rightarrow>
         if \<not> p_AutoSync newProfile then
           s\<lparr>dm_watcher := snd unwatched, dm_watching := AList.delete oldName (dm_watching s)\<rparr>
         else if p_Context newProfile \<noteq> p_Context oldProfile then
           (let s = s\<lparr>dm_watcher := snd unwatched\<rparr> in
            if fst unwatched = None then
              (case watch_profile dm env oldName newProfile s of
                 (Some _, s) \<Rightarrow> s\<lparr>dm_watching := AList.delete oldName (dm_watching s)\<rparr>
               | (None, s) \<Rightarrow> s)
            else s)
         else s\<lparr>dm_watching := AList.update oldName newProfile (dm_watching s)\<rparr>)"

definition reload_new :: "matcher \<Rightarrow> WatchEnv \<Rightarrow> daemon \<Rightarrow> string \<times> Profile \<Rightarrow> daemon" where
  "reload_new dm env s = (\<lambda>(newName, newProfile).
     if \<not> p_AutoSync newProfile then s
     else if map_of (dm_watching s) newName \<noteq> None then s
     else if p_Context newProfile = '''' then s
     else snd (watch_profile dm env newName newProfile s))"

text \<open>
  The whole reload, on the result of \<open>config.Load\<close>; \<open>old\<close> lists the names the pool ranges
  over in \<open>UpdateProfiles\<close>.
\<close>

definition handleConfigReload :: "matcher \<Rightarrow> WatchEnv \<Rightarrow> string list \<Rightarrow> config_err + Config \<Rightarrow> daemon \<Rightarrow> daemon" where
  "handleConfigReload dm env old cfg s =
    (case cfg of
       Inl _ \<Rightarrow> s
     | Inr new \<Rightarrow>
        (let s = s\<lparr>dm_pool := Connection_Pool.UpdateProfiles old (map_of new) (dm_pool s)\<rparr>;
             s = foldl (reload_old dm env new) s (dm_watching s);
             s = foldl (reload_new dm env) s new
         in s\<lparr>dm_queue := Upload_Queue.UpdateProfiles (map_of new) (dm_queue s)\<rparr>))"

text \<open>
  An event of the configuration file's watcher: reload, and whether the file is watched
  again. Stopping, after a signal: the queue's workers stop as in \<open>Queue_Workers\<close>, then the
  connections are closed and, when \<open>Daemon\<close> returns, the watcher.
\<close>

definition config_event :: "matcher \<Rightarrow> WatchEnv \<Rightarrow> string list \<Rightarrow> config_err + Config \<Rightarrow> fsop set \<Rightarrow> daemon \<Rightarrow>
    bool \<times> daemon" where
  "config_event dm env old cfg op s =
    (Remove \<in> op, if Write \<in> op \<or> Create \<in> op then handleConfigReload dm env old cfg s else s)"

definition daemon_stop :: "string list \<Rightarrow> daemon \<Rightarrow> daemon" where
  "daemon_stop names s =
    s\<lparr>dm_pool := Connection_Pool.CloseAll names (dm_pool s), dm_watcher := Watcher.Close (dm_watcher s)\<rparr>"

inductive dm_reach :: "matcher \<Rightarrow> daemon \<Rightarrow> bool" for dm where
  dm_start: "Daemon dm env cfg = Inr s \<Longrightarrow> distinct_keys cfg \<Longrightarrow> dm_reach dm s"
| dm_event: "dm_reach dm s \<Longrightarrow> dm_reach dm (s\<lparr>dm_watcher := Start_event dm env event (dm_watcher s)\<rparr>)"
| dm_reload: "dm_reach dm s \<Longrightarrow> (\<And>new. cfg = Inr new \<Longrightarrow> distinct_keys new) \<Longrightarrow>
    dm_reach dm (snd (config_event dm env old cfg op s))"

section \<open>Lemmas\<close>

text \<open>Every profile the daemon counts as watched is registered with the watcher.\<close>

definition dm_inv :: "daemon \<Rightarrow> bool" where
  "dm_inv s \<longleftrightarrow> distinct_keys (dm_watching s) \<and>
     (\<forall>n. map_of (dm_watching s) n \<noteq> None \<longrightarrow> map_of (wa_profiles (dm_watcher s)) n \<noteq> None)"

lemma removeRecursive_ok: "fst (removeRecursive env root w) = None"
proof -
  have "good (\<lambda>_. True) (walkDir remove_fn root d w)" for d
    by (rule walk_good(1)) (auto simp: remove_fn_def split: option.split)
  then show ?thesis
    by (auto simp: removeRecursive_def WalkDir_def remove_fn_def good_def case_prod_beta
        split: sum.split walk_ctl.split)
qed

lemma Unwatch_spec:
  assumes "map_of (wa_profiles w) n \<noteq> None"
  shows "fst (Unwatch env n w) = None"
    "map_of (wa_profiles (snd (Unwatch env n w))) = (map_of (wa_profiles w))(n := None)"
proof -
  obtain p where p: "map_of (wa_profiles w) n = Some p" using assms by blast
  obtain v where v: "removeRecursive env (p_Context p) w = (None, v)"
    using removeRecursive_ok [of env "p_Context p" w] by (metis prod.collapse)
  then have "wa_profiles v = wa_profiles w"
    by (metis removeRecursive_registered registered_def fst_conv snd_conv)
  then show "fst (Unwatch env n w) = None"
    "map_of (wa_profiles (snd (Unwatch env n w))) = (map_of (wa_profiles w))(n := None)"
    using p v by (simp_all add: Unwatch_def delete_conv')
qed

lemma Unwatch_other: "m \<noteq> n \<Longrightarrow> map_of (wa_profiles (snd (Unwatch env n w))) m = map_of (wa_profiles w) m"
  by (cases "map_of (wa_profiles w) n") (simp add: Unwatch_def, simp add: Unwatch_spec)

lemma Watch_profiles:
  shows "m \<noteq> n \<Longrightarrow> map_of (wa_profiles (snd (Watch dm env n p c w))) m = map_of (wa_profiles w) m"
    and "fst (Watch dm env n p c w) = None \<Longrightarrow>
      map_of (wa_profiles (snd (Watch dm env n p c w))) n = Some (p\<lparr>p_Context := Clean (p_Context p)\<rparr>)"
    and "map_of (wa_profiles w) m \<noteq> None \<Longrightarrow> map_of (wa_profiles (snd (Watch dm env n p c w))) m \<noteq> None"
proof -
  let ?p = "p\<lparr>p_Context := Clean (p_Context p)\<rparr>"
  let ?w = "w\<lparr>wa_profiles := AList.update n ?p (wa_profiles w),
      wa_callbacks := AList.update n c (wa_callbacks w),
      wa_contextDepths := AList.update n (Count (p_Context ?p) CHR ''/'') (wa_contextDepths w)\<rparr>"
  obtain r v where a: "addRecursive dm env (p_Context ?p) ?w = (r, v)" by fastforce
  have "registered v = registered ?w" using a by (metis addRecursive_registered snd_conv)
  then have v: "map_of (wa_profiles v) = (map_of (wa_profiles w))(n \<mapsto> ?p)"
    by (simp add: registered_def update_conv')
  have W: "Watch dm env n p c w = (r', v') \<Longrightarrow> v' = w \<and> r' \<noteq> None \<or> v' = v" for r' v'
    using a by (auto simp: Watch_def Let_def split: if_splits option.splits)
  obtain r' v' where w: "Watch dm env n p c w = (r', v')" by fastforce
  show "m \<noteq> n \<Longrightarrow> map_of (wa_profiles (snd (Watch dm env n p c w))) m = map_of (wa_profiles w) m"
    "fst (Watch dm env n p c w) = None \<Longrightarrow> map_of (wa_profiles (snd (Watch dm env n p c w))) n = Some ?p"
    "map_of (wa_profiles w) m \<noteq> None \<Longrightarrow> map_of (wa_profiles (snd (Watch dm env n p c w))) m \<noteq> None"
    using W [OF w] v w by auto
qed

lemma watch_profile_cases:
  obtains (failed) e w' where "watch_profile dm env n p s = (Some e, s\<lparr>dm_watcher := w'\<rparr>)"
    "Watch dm env n p n (dm_watcher s) = (Some e, w')"
  | (ok) w' where "watch_profile dm env n p s =
      (None, s\<lparr>dm_watcher := w', dm_watching := AList.update n p (dm_watching s)\<rparr>)"
    "Watch dm env n p n (dm_watcher s) = (None, w')"
  using that by (cases "Watch dm env n p n (dm_watcher s)"; cases "fst (Watch dm env n p n (dm_watcher s))")
    (auto simp: watch_profile_def)

text \<open>One old profile: only its own name changes, to what the new configuration says.\<close>

definition tracked :: "Config \<Rightarrow> daemon \<Rightarrow> string \<Rightarrow> bool" where
  "tracked new s n \<longleftrightarrow>
     (\<forall>p. map_of (dm_watching s) n = Some p \<longrightarrow> map_of new n = Some p \<and> p_AutoSync p)"

definition same_at :: "string \<Rightarrow> daemon \<Rightarrow> daemon \<Rightarrow> bool" where
  "same_at n s t \<longleftrightarrow> map_of (dm_watching t) n = map_of (dm_watching s) n \<and>
     map_of (wa_profiles (dm_watcher t)) n = map_of (wa_profiles (dm_watcher s)) n"

definition rest_of :: "daemon \<Rightarrow> ((string \<Rightarrow> Profile option) \<times> unit upq) \<times> ConnectionPool" where
  "rest_of s = (dm_queue s, dm_pool s)"

lemma same_at_refl [simp]: "same_at n s s"
  by (simp add: same_at_def)

lemma same_at_trans: "same_at n s t \<Longrightarrow> same_at n t u \<Longrightarrow> same_at n s u"
  by (simp add: same_at_def)

lemma watch_profile_step:
  assumes "dm_inv s"
  shows "dm_inv (snd (watch_profile dm env n p s))" "rest_of (snd (watch_profile dm env n p s)) = rest_of s"
    "m \<noteq> n \<Longrightarrow> same_at m s (snd (watch_profile dm env n p s))"
    "fst (watch_profile dm env n p s) = None \<Longrightarrow> map_of (dm_watching (snd (watch_profile dm env n p s))) n = Some p"
    "fst (watch_profile dm env n p s) \<noteq> None \<Longrightarrow> dm_watching (snd (watch_profile dm env n p s)) = dm_watching s"
    "fst (watch_profile dm env n p s) = fst (Watch dm env n p n (dm_watcher s))"
proof -
  note W = Watch_profiles [where n = n and dm = dm and env = env and p = p and c = n and w = "dm_watcher s"]
  have "dm_inv (snd (watch_profile dm env n p s)) \<and> rest_of (snd (watch_profile dm env n p s)) = rest_of s \<and>
    (m \<noteq> n \<longrightarrow> same_at m s (snd (watch_profile dm env n p s))) \<and>
    (fst (watch_profile dm env n p s) = None \<longrightarrow> map_of (dm_watching (snd (watch_profile dm env n p s))) n = Some p) \<and>
    (fst (watch_profile dm env n p s) \<noteq> None \<longrightarrow> dm_watching (snd (watch_profile dm env n p s)) = dm_watching s) \<and>
    fst (watch_profile dm env n p s) = fst (Watch dm env n p n (dm_watcher s))"
  proof (cases rule: watch_profile_cases [of dm env n p s])
    case (failed e w')
    have "map_of (wa_profiles w') k \<noteq> None" if "map_of (wa_profiles (dm_watcher s)) k \<noteq> None" for k
      using W(3) [of k] that failed by simp
    moreover have "k \<noteq> n \<Longrightarrow> map_of (wa_profiles w') k = map_of (wa_profiles (dm_watcher s)) k" for k
      using W(1) [of k] failed by simp
    ultimately show ?thesis using assms failed by (auto simp: dm_inv_def same_at_def rest_of_def)
  next
    case (ok w')
    have "map_of (wa_profiles w') k \<noteq> None" if "map_of (wa_profiles (dm_watcher s)) k \<noteq> None" for k
      using W(3) [of k] that ok by simp
    moreover have "map_of (wa_profiles w') n \<noteq> None" using W(2) ok by simp
    moreover have "k \<noteq> n \<Longrightarrow> map_of (wa_profiles w') k = map_of (wa_profiles (dm_watcher s)) k" for k
      using W(1) [of k] ok by simp
    ultimately show ?thesis
      using assms ok by (auto simp: dm_inv_def same_at_def rest_of_def distinct_update update_conv')
  qed
  then show "dm_inv (snd (watch_profile dm env n p s))" "rest_of (snd (watch_profile dm env n p s)) = rest_of s"
    "m \<noteq> n \<Longrightarrow> same_at m s (snd (watch_profile dm env n p s))"
    "fst (watch_profile dm env n p s) = None \<Longrightarrow> map_of (dm_watching (snd (watch_profile dm env n p s))) n = Some p"
    "fst (watch_profile dm env n p s) \<noteq> None \<Longrightarrow> dm_watching (snd (watch_profile dm env n p s)) = dm_watching s"
    "fst (watch_profile dm env n p s) = fst (Watch dm env n p n (dm_watcher s))"
    by blast+
qed

text \<open>\<open>Watch\<close> fails on no profile.\<close>

definition watchable :: "matcher \<Rightarrow> WatchEnv \<Rightarrow> bool" where
  "watchable dm env \<longleftrightarrow> (\<forall>n p w. fst (Watch dm env n p (n :: string) w) = None)"

lemma unwatch_inv:
  assumes "dm_inv s" "map_of (dm_watching s) n \<noteq> None"
  shows "dm_inv (s\<lparr>dm_watcher := snd (Unwatch env n (dm_watcher s)), dm_watching := AList.delete n (dm_watching s)\<rparr>)"
  using assms Unwatch_other [of _ n env "dm_watcher s"]
  by (auto simp: dm_inv_def distinct_delete delete_conv' split: if_splits)

lemma reload_old_step:
  assumes inv: "dm_inv s" and old: "map_of (dm_watching s) n = Some p"
  shows "dm_inv (reload_old dm env new s (n, p))" "rest_of (reload_old dm env new s (n, p)) = rest_of s"
    "m \<noteq> n \<Longrightarrow> same_at m s (reload_old dm env new s (n, p))"
    "tracked new (reload_old dm env new s (n, p)) n"
    "\<lbrakk>watchable dm env; map_of new n = Some q; p_AutoSync q\<rbrakk> \<Longrightarrow>
      map_of (dm_watching (reload_old dm env new s (n, p))) n = Some q"
    "\<lbrakk>map_of new n = Some q; p_AutoSync q; p_Context q = p_Context p\<rbrakk> \<Longrightarrow>
      dm_watcher (reload_old dm env new s (n, p)) = dm_watcher s \<and>
      map_of (dm_watching (reload_old dm env new s (n, p))) n = Some q"
proof -
  let ?t = "reload_old dm env new s (n, p)"
  let ?u = "Unwatch env n (dm_watcher s)"
  let ?d = "s\<lparr>dm_watcher := snd ?u, dm_watching := AList.delete n (dm_watching s)\<rparr>"
  have reg: "map_of (wa_profiles (dm_watcher s)) n \<noteq> None" using inv old by (auto simp: dm_inv_def)
  note U = Unwatch_spec [OF reg, of env]
  have d: "dm_inv ?d" using unwatch_inv [OF inv] old by simp
  have dm: "m \<noteq> n \<Longrightarrow> same_at m s ?d" "rest_of ?d = rest_of s" "map_of (dm_watching ?d) n = None"
    using Unwatch_other [of m n env "dm_watcher s"] by (simp_all add: same_at_def rest_of_def delete_conv')
  consider (gone) "?t = ?d" "\<And>q. map_of new n = Some q \<Longrightarrow> \<not> p_AutoSync q"
    | (moved) q where "map_of new n = Some q" "p_AutoSync q" "p_Context q \<noteq> p_Context p"
        "?t = (case watch_profile dm env n q (s\<lparr>dm_watcher := snd ?u\<rparr>) of
                 (Some _, v) \<Rightarrow> v\<lparr>dm_watching := AList.delete n (dm_watching v)\<rparr> | (None, v) \<Rightarrow> v)"
    | (same) q where "map_of new n = Some q" "p_AutoSync q" "p_Context q = p_Context p"
        "?t = s\<lparr>dm_watching := AList.update n q (dm_watching s)\<rparr>"
    using U(1) by (cases "map_of new n"; cases "p_AutoSync (the (map_of new n))";
        cases "p_Context (the (map_of new n)) = p_Context p") (auto simp: reload_old_def Let_def)
  then have "dm_inv ?t \<and> rest_of ?t = rest_of s \<and> (m \<noteq> n \<longrightarrow> same_at m s ?t) \<and> tracked new ?t n \<and>
    (watchable dm env \<and> map_of new n = Some q \<and> p_AutoSync q \<longrightarrow> map_of (dm_watching ?t) n = Some q) \<and>
    (map_of new n = Some q \<and> p_AutoSync q \<and> p_Context q = p_Context p \<longrightarrow>
      dm_watcher ?t = dm_watcher s \<and> map_of (dm_watching ?t) n = Some q)"
  proof cases
    case gone
    then show ?thesis using d dm by (auto simp: tracked_def)
  next
    case (same q')
    then show ?thesis
      using inv old reg by (auto simp: dm_inv_def rest_of_def same_at_def tracked_def distinct_update update_conv')
  next
    case (moved q')
    let ?v = "s\<lparr>dm_watcher := snd ?u\<rparr>"
    obtain w' where w: "Watch dm env n q' n (snd ?u) = (fst (Watch dm env n q' n (snd ?u)), w')"
      by (metis prod.collapse)
    note W = Watch_profiles [where n = n and dm = dm and env = env and p = q' and c = n and w = "snd ?u"]
    have others: "k \<noteq> n \<Longrightarrow> map_of (wa_profiles w') k = map_of (wa_profiles (dm_watcher s)) k" for k
      using W(1) [of k] w Unwatch_other [of k n env "dm_watcher s"] by (metis snd_conv)
    show ?thesis
    proof (cases "fst (Watch dm env n q' n (snd ?u))")
      case None
      then have t: "?t = s\<lparr>dm_watcher := w', dm_watching := AList.update n q' (dm_watching s)\<rparr>"
        using moved(4) w by (simp add: watch_profile_def)
      moreover have "map_of (wa_profiles w') n \<noteq> None" using W(2) None w by simp
      ultimately show ?thesis
        using inv moved(1-3) others
        by (auto simp: dm_inv_def rest_of_def same_at_def tracked_def distinct_update update_conv')
    next
      case (Some e)
      then have t: "?t = s\<lparr>dm_watcher := w', dm_watching := AList.delete n (dm_watching s)\<rparr>"
        using moved(4) w by (simp add: watch_profile_def)
      have "\<not> watchable dm env" using Some unfolding watchable_def by (metis option.distinct(1))
      then show ?thesis
        using inv moved(1-3) others unfolding t
        by (auto simp: dm_inv_def rest_of_def same_at_def tracked_def distinct_delete delete_conv' split: if_splits)
    qed
  qed
  then show "dm_inv ?t" "rest_of ?t = rest_of s" "m \<noteq> n \<Longrightarrow> same_at m s ?t" "tracked new ?t n"
    "\<lbrakk>watchable dm env; map_of new n = Some q; p_AutoSync q\<rbrakk> \<Longrightarrow> map_of (dm_watching ?t) n = Some q"
    "\<lbrakk>map_of new n = Some q; p_AutoSync q; p_Context q = p_Context p\<rbrakk> \<Longrightarrow>
      dm_watcher ?t = dm_watcher s \<and> map_of (dm_watching ?t) n = Some q"
    by blast+
qed

lemma reload_old_all:
  assumes "dm_inv s" "distinct_keys xs" "\<forall>x \<in> set xs. map_of (dm_watching s) (fst x) = Some (snd x)"
  shows "dm_inv (foldl (reload_old dm env new) s xs)" "rest_of (foldl (reload_old dm env new) s xs) = rest_of s"
    "n \<notin> fst ` set xs \<Longrightarrow> same_at n s (foldl (reload_old dm env new) s xs)"
    "n \<in> fst ` set xs \<Longrightarrow> tracked new (foldl (reload_old dm env new) s xs) n"
    "\<lbrakk>n \<in> fst ` set xs; watchable dm env; map_of new n = Some q; p_AutoSync q\<rbrakk> \<Longrightarrow>
      map_of (dm_watching (foldl (reload_old dm env new) s xs)) n = Some q"
    "\<lbrakk>(n, p) \<in> set xs; map_of new n = Some q; p_AutoSync q; p_Context q = p_Context p\<rbrakk> \<Longrightarrow>
      map_of (wa_profiles (dm_watcher (foldl (reload_old dm env new) s xs))) n =
        map_of (wa_profiles (dm_watcher s)) n \<and>
      map_of (dm_watching (foldl (reload_old dm env new) s xs)) n = Some q"
proof -
  have "dm_inv (foldl (reload_old dm env new) s xs) \<and> rest_of (foldl (reload_old dm env new) s xs) = rest_of s \<and>
    (n \<notin> fst ` set xs \<longrightarrow> same_at n s (foldl (reload_old dm env new) s xs)) \<and>
    (n \<in> fst ` set xs \<longrightarrow> tracked new (foldl (reload_old dm env new) s xs) n) \<and>
    (n \<in> fst ` set xs \<and> watchable dm env \<and> map_of new n = Some q \<and> p_AutoSync q \<longrightarrow>
      map_of (dm_watching (foldl (reload_old dm env new) s xs)) n = Some q) \<and>
    ((n, p) \<in> set xs \<and> map_of new n = Some q \<and> p_AutoSync q \<and> p_Context q = p_Context p \<longrightarrow>
      map_of (wa_profiles (dm_watcher (foldl (reload_old dm env new) s xs))) n =
        map_of (wa_profiles (dm_watcher s)) n \<and>
      map_of (dm_watching (foldl (reload_old dm env new) s xs)) n = Some q)"
    using assms
  proof (induction xs arbitrary: s)
    case (Cons x xs)
    obtain k pk where x: "x = (k, pk)" by fastforce
    let ?t = "reload_old dm env new s (k, pk)"
    have k: "map_of (dm_watching s) k = Some pk" using Cons.prems(3) x by simp
    note step = reload_old_step [OF Cons.prems(1) k, where dm = dm and env = env and new = new]
    have fresh: "k \<notin> fst ` set xs" using Cons.prems(2) x by auto
    have rest: "\<forall>y \<in> set xs. map_of (dm_watching ?t) (fst y) = Some (snd y)"
    proof
      fix y assume y: "y \<in> set xs"
      then have "fst y \<noteq> k" using fresh by force
      then show "map_of (dm_watching ?t) (fst y) = Some (snd y)"
        using step(3) [of "fst y"] Cons.prems(3) y by (simp add: same_at_def)
    qed
    note IH = Cons.IH [OF step(1) _ rest]
    have F: "foldl (reload_old dm env new) s (x # xs) = foldl (reload_old dm env new) ?t xs" by (simp add: x)
    let ?f = "foldl (reload_old dm env new) ?t xs"
    have ih: "dm_inv ?f" "rest_of ?f = rest_of ?t" "n \<notin> fst ` set xs \<Longrightarrow> same_at n ?t ?f"
      "n \<in> fst ` set xs \<Longrightarrow> tracked new ?f n"
      "n \<in> fst ` set xs \<Longrightarrow> watchable dm env \<Longrightarrow> map_of new n = Some q \<Longrightarrow> p_AutoSync q \<Longrightarrow>
        map_of (dm_watching ?f) n = Some q"
      "(n, p) \<in> set xs \<Longrightarrow> map_of new n = Some q \<Longrightarrow> p_AutoSync q \<Longrightarrow> p_Context q = p_Context p \<Longrightarrow>
        map_of (wa_profiles (dm_watcher ?f)) n = map_of (wa_profiles (dm_watcher ?t)) n \<and>
        map_of (dm_watching ?f) n = Some q"
      using IH Cons.prems(2) by auto
    show ?case
    proof (cases "n = k")
      case True
      then have same: "map_of (dm_watching ?f) n = map_of (dm_watching ?t) n"
          "map_of (wa_profiles (dm_watcher ?f)) n = map_of (wa_profiles (dm_watcher ?t)) n"
        using ih(3) fresh by (simp_all add: same_at_def)
      have mem: "n \<in> fst ` set (x # xs)" "(n, p) \<in> set (x # xs) \<longleftrightarrow> p = pk" using True x fresh by force+
      have "tracked new ?f n" using step(4) same True by (simp add: tracked_def)
      moreover have "map_of (dm_watching ?f) n = Some q"
        if "watchable dm env" "map_of new n = Some q" "p_AutoSync q" using step(5) [of q] that same True by simp
      moreover have "map_of (wa_profiles (dm_watcher ?f)) n = map_of (wa_profiles (dm_watcher s)) n \<and>
          map_of (dm_watching ?f) n = Some q"
        if "p = pk" "map_of new n = Some q" "p_AutoSync q" "p_Context q = p_Context p"
        using step(6) [of q] that same True by simp
      ultimately show ?thesis unfolding F mem(2) using ih(1,2) step(2) mem(1) by simp
    next
      case False
      have "n \<in> fst ` set (x # xs) \<longleftrightarrow> n \<in> fst ` set xs" "(n, p) \<in> set (x # xs) \<longleftrightarrow> (n, p) \<in> set xs"
        using False x by auto
      then show ?thesis
        using F ih step(2) step(3) [OF False] same_at_trans [of n s ?t ?f] by (auto simp: same_at_def)
    qed
  qed simp
  then show "dm_inv (foldl (reload_old dm env new) s xs)" "rest_of (foldl (reload_old dm env new) s xs) = rest_of s"
    "n \<notin> fst ` set xs \<Longrightarrow> same_at n s (foldl (reload_old dm env new) s xs)"
    "n \<in> fst ` set xs \<Longrightarrow> tracked new (foldl (reload_old dm env new) s xs) n"
    "\<lbrakk>n \<in> fst ` set xs; watchable dm env; map_of new n = Some q; p_AutoSync q\<rbrakk> \<Longrightarrow>
      map_of (dm_watching (foldl (reload_old dm env new) s xs)) n = Some q"
    "\<lbrakk>(n, p) \<in> set xs; map_of new n = Some q; p_AutoSync q; p_Context q = p_Context p\<rbrakk> \<Longrightarrow>
      map_of (wa_profiles (dm_watcher (foldl (reload_old dm env new) s xs))) n =
        map_of (wa_profiles (dm_watcher s)) n \<and>
      map_of (dm_watching (foldl (reload_old dm env new) s xs)) n = Some q"
    by blast+
qed

text \<open>One new profile: it is watched now, or was already.\<close>

lemma reload_new_step:
  assumes "dm_inv s"
  shows "dm_inv (reload_new dm env s (n, p))" "rest_of (reload_new dm env s (n, p)) = rest_of s"
    "m \<noteq> n \<or> map_of (dm_watching s) m \<noteq> None \<Longrightarrow> same_at m s (reload_new dm env s (n, p))"
    "map_of (dm_watching (reload_new dm env s (n, p))) n \<in> {map_of (dm_watching s) n} \<union> (if p_AutoSync p then {Some p} else {})"
    "\<lbrakk>watchable dm env; p_AutoSync p; p_Context p \<noteq> ''''\<rbrakk> \<Longrightarrow>
      map_of (dm_watching (reload_new dm env s (n, p))) n \<noteq> None"
proof -
  note step = watch_profile_step [OF assms, where dm = dm and env = env and n = n and p = p]
  consider "reload_new dm env s (n, p) = s"
      "\<not> p_AutoSync p \<or> map_of (dm_watching s) n \<noteq> None \<or> p_Context p = ''''"
    | "reload_new dm env s (n, p) = snd (watch_profile dm env n p s)" "p_AutoSync p" "map_of (dm_watching s) n = None"
    by (cases "p_AutoSync p \<and> map_of (dm_watching s) n = None \<and> p_Context p \<noteq> ''''")
      (auto simp: reload_new_def)
  then have "dm_inv (reload_new dm env s (n, p)) \<and> rest_of (reload_new dm env s (n, p)) = rest_of s \<and>
    (m \<noteq> n \<or> map_of (dm_watching s) m \<noteq> None \<longrightarrow> same_at m s (reload_new dm env s (n, p))) \<and>
    map_of (dm_watching (reload_new dm env s (n, p))) n \<in>
      {map_of (dm_watching s) n} \<union> (if p_AutoSync p then {Some p} else {}) \<and>
    (watchable dm env \<and> p_AutoSync p \<and> p_Context p \<noteq> '''' \<longrightarrow>
      map_of (dm_watching (reload_new dm env s (n, p))) n \<noteq> None)"
  proof cases
    case 1
    then show ?thesis using assms by auto
  next
    case 2
    show ?thesis
    proof (cases "fst (watch_profile dm env n p s)")
      case None
      then show ?thesis using step(1,2) step(3) [of m] step(4) [OF None] 2(2,3) unfolding 2(1) by auto
    next
      case (Some e)
      then have "dm_watching (snd (watch_profile dm env n p s)) = dm_watching s" using step(5) by simp
      moreover have "\<not> watchable dm env" using Some step(6) unfolding watchable_def by (metis option.distinct(1))
      ultimately show ?thesis using step(1,2) step(3) [of m] 2(2,3) unfolding 2(1) by auto
    qed
  qed
  then show "dm_inv (reload_new dm env s (n, p))" "rest_of (reload_new dm env s (n, p)) = rest_of s"
    "m \<noteq> n \<or> map_of (dm_watching s) m \<noteq> None \<Longrightarrow> same_at m s (reload_new dm env s (n, p))"
    "map_of (dm_watching (reload_new dm env s (n, p))) n \<in> {map_of (dm_watching s) n} \<union> (if p_AutoSync p then {Some p} else {})"
    "\<lbrakk>watchable dm env; p_AutoSync p; p_Context p \<noteq> ''''\<rbrakk> \<Longrightarrow>
      map_of (dm_watching (reload_new dm env s (n, p))) n \<noteq> None"
    by blast+
qed

lemma reload_new_all:
  assumes "dm_inv s" "distinct_keys new" "set xs \<subseteq> set new" "\<And>n. tracked new s n"
  shows "dm_inv (foldl (reload_new dm env) s xs)" "rest_of (foldl (reload_new dm env) s xs) = rest_of s"
    "tracked new (foldl (reload_new dm env) s xs) n"
    "map_of (dm_watching s) n \<noteq> None \<Longrightarrow> same_at n s (foldl (reload_new dm env) s xs)"
    "\<lbrakk>watchable dm env; (n, p) \<in> set xs; p_AutoSync p; p_Context p \<noteq> ''''\<rbrakk> \<Longrightarrow>
      map_of (dm_watching (foldl (reload_new dm env) s xs)) n \<noteq> None"
proof -
  have "dm_inv (foldl (reload_new dm env) s xs) \<and> rest_of (foldl (reload_new dm env) s xs) = rest_of s \<and>
    tracked new (foldl (reload_new dm env) s xs) n \<and>
    (map_of (dm_watching s) n \<noteq> None \<longrightarrow> same_at n s (foldl (reload_new dm env) s xs)) \<and>
    (watchable dm env \<and> (n, p) \<in> set xs \<and> p_AutoSync p \<and> p_Context p \<noteq> '''' \<longrightarrow>
      map_of (dm_watching (foldl (reload_new dm env) s xs)) n \<noteq> None)"
    using assms(1,3,4)
  proof (induction xs arbitrary: s)
    case (Cons x xs)
    obtain k pk where x: "x = (k, pk)" by fastforce
    let ?t = "reload_new dm env s (k, pk)"
    note step = reload_new_step [OF Cons.prems(1), where dm = dm and env = env and n = k and p = pk]
    have new: "map_of new k = Some pk" using Cons.prems(2) x assms(2) by simp
    have tr: "tracked new ?t m" for m
    proof (cases "m = k")
      case True
      then show ?thesis
        using step(4) new Cons.prems(3) [of k] by (auto simp: tracked_def split: if_splits)
    next
      case False
      then show ?thesis using step(3) [of m] Cons.prems(3) [of m] by (simp add: tracked_def same_at_def)
    qed
    let ?f = "foldl (reload_new dm env) ?t xs"
    have F: "foldl (reload_new dm env) s (x # xs) = ?f" by (simp add: x)
    have ih: "dm_inv ?f" "rest_of ?f = rest_of ?t" "tracked new ?f n"
      "map_of (dm_watching ?t) n \<noteq> None \<longrightarrow> same_at n ?t ?f"
      "watchable dm env \<and> (n, p) \<in> set xs \<and> p_AutoSync p \<and> p_Context p \<noteq> '''' \<longrightarrow> map_of (dm_watching ?f) n \<noteq> None"
      using Cons.IH [OF step(1) _ tr] Cons.prems(2) by auto
    have keep: "same_at n s ?f" if "map_of (dm_watching s) n \<noteq> None"
    proof -
      have "same_at n s ?t" using step(3) [of n] that by simp
      moreover from this have "map_of (dm_watching ?t) n \<noteq> None" using that by (simp add: same_at_def)
      ultimately show ?thesis using ih(4) same_at_trans by blast
    qed
    have "map_of (dm_watching ?f) n \<noteq> None"
      if "watchable dm env" "(n, p) = x" "p_AutoSync p" "p_Context p \<noteq> ''''"
      using step(5) ih(4) that x by (auto simp: same_at_def)
    then show ?case using F ih keep step(2) by auto
  qed simp
  then show "dm_inv (foldl (reload_new dm env) s xs)" "rest_of (foldl (reload_new dm env) s xs) = rest_of s"
    "tracked new (foldl (reload_new dm env) s xs) n"
    "map_of (dm_watching s) n \<noteq> None \<Longrightarrow> same_at n s (foldl (reload_new dm env) s xs)"
    "\<lbrakk>watchable dm env; (n, p) \<in> set xs; p_AutoSync p; p_Context p \<noteq> ''''\<rbrakk> \<Longrightarrow>
      map_of (dm_watching (foldl (reload_new dm env) s xs)) n \<noteq> None"
    by blast+
qed

lemma handleConfigReload_unfold:
  assumes "s' = handleConfigReload dm env old (Inr new) s"
  obtains s1 s2 where
    "s1 = foldl (reload_old dm env new)
       (s\<lparr>dm_pool := Connection_Pool.UpdateProfiles old (map_of new) (dm_pool s)\<rparr>) (dm_watching s)"
    "s2 = foldl (reload_new dm env) s1 new"
    "s' = s2\<lparr>dm_queue := Upload_Queue.UpdateProfiles (map_of new) (dm_queue s2)\<rparr>"
  using assms that by (simp add: handleConfigReload_def Let_def)

text \<open>All that is needed of a reload of a daemon whose bookkeeping is in order.\<close>

lemma reload_facts:
  assumes "dm_inv s" "distinct_keys new" "s' = handleConfigReload dm env old (Inr new) s"
  shows "dm_inv s'" "tracked new s' n"
    "fst (dm_queue s') = map_of new" "uq_knownDirs (snd (dm_queue s')) = {}"
    "dm_pool s' = Connection_Pool.UpdateProfiles old (map_of new) (dm_pool s)"
    "\<lbrakk>watchable dm env; map_of new n = Some q; p_AutoSync q; p_Context q \<noteq> ''''\<rbrakk> \<Longrightarrow>
      map_of (dm_watching s') n = Some q"
    "\<lbrakk>map_of (dm_watching s) n = Some p; map_of new n = Some q; p_AutoSync q; p_Context q = p_Context p\<rbrakk> \<Longrightarrow>
      map_of (wa_profiles (dm_watcher s')) n = map_of (wa_profiles (dm_watcher s)) n"
proof -
  let ?s = "s\<lparr>dm_pool := Connection_Pool.UpdateProfiles old (map_of new) (dm_pool s)\<rparr>"
  obtain s1 s2 where st: "s1 = foldl (reload_old dm env new) ?s (dm_watching s)"
    "s2 = foldl (reload_new dm env) s1 new"
    "s' = s2\<lparr>dm_queue := Upload_Queue.UpdateProfiles (map_of new) (dm_queue s2)\<rparr>"
    using handleConfigReload_unfold [OF assms(3)] .
  have inv: "dm_inv ?s" "distinct_keys (dm_watching s)" using assms(1) by (simp_all add: dm_inv_def)
  have cur: "\<forall>x \<in> set (dm_watching s). map_of (dm_watching ?s) (fst x) = Some (snd x)"
    using inv(2) by simp
  note old = reload_old_all [OF inv cur, where dm = dm and env = env and new = new, folded st(1)]
  have tr: "tracked new s1 n" for n
  proof (cases "n \<in> fst ` set (dm_watching s)")
    case False
    then have "map_of (dm_watching s1) n = None"
      using old(3) [of n] by (simp add: same_at_def map_of_eq_None_iff)
    then show ?thesis by (simp add: tracked_def)
  qed (rule old(4))
  note new = reload_new_all [OF old(1) assms(2) order_refl tr, where dm = dm and env = env, folded st(2)]
  show "dm_inv s'" using new(1) by (simp add: st(3) dm_inv_def)
  show "tracked new s' n" using new(3) by (simp add: st(3) tracked_def)
  show "fst (dm_queue s') = map_of new" by (simp add: st(3) Upload_Queue.UpdateProfiles_def)
  show "uq_knownDirs (snd (dm_queue s')) = {}"
    by (simp add: st(3) Upload_Queue.UpdateProfiles_def forgetDirs_def)
  show "dm_pool s' = Connection_Pool.UpdateProfiles old (map_of new) (dm_pool s)"
    using new(2) old(2) by (simp add: st(3) rest_of_def)
  show "map_of (dm_watching s') n = Some q"
    if w: "watchable dm env" "map_of new n = Some q" "p_AutoSync q" "p_Context q \<noteq> ''''"
  proof -
    have "map_of (dm_watching s2) n \<noteq> None"
      using new(5) [OF w(1) _ w(3,4)] map_of_SomeD [OF w(2)] by blast
    then show ?thesis using new(3) [of n] w(2) by (auto simp: st(3) tracked_def)
  qed
  show "map_of (wa_profiles (dm_watcher s')) n = map_of (wa_profiles (dm_watcher s)) n"
    if p: "map_of (dm_watching s) n = Some p" "map_of new n = Some q" "p_AutoSync q" "p_Context q = p_Context p"
  proof -
    note kept = old(6) [OF map_of_SomeD [OF p(1)] p(2-4)]
    then have "same_at n s1 s2" using new(4) by simp
    then show ?thesis using kept by (simp add: st(3) same_at_def)
  qed
qed

lemma Daemon_inv: "Daemon dm env cfg = Inr s \<Longrightarrow> dm_inv s"
proof -
  assume d: "Daemon dm env cfg = Inr s"
  have step: "dm_inv t \<Longrightarrow> dm_inv (start_one dm env t x)" for t x
    using watch_profile_step(1) by (cases x) (simp add: start_one_def)
  have fold: "dm_inv t \<Longrightarrow> dm_inv (foldl (start_one dm env) t xs)" for t xs
    by (induction xs arbitrary: t) (simp_all add: step)
  show "dm_inv s"
    using d by (auto simp: Daemon_def Let_def dm_inv_def [of "\<lparr>dm_watcher = _, dm_watching = _, dm_queue = _, dm_pool = _\<rparr>"]
        split: if_splits intro!: fold)
qed

lemma dm_reach_inv: "dm_reach dm s \<Longrightarrow> dm_inv s"
proof (induction rule: dm_reach.induct)
  case (dm_event s env event)
  then show ?case
    using Start_event_registered [of dm env event "dm_watcher s"] by (simp add: dm_inv_def registered_def)
next
  case (dm_reload s cfg env old)
  then have "dm_inv (handleConfigReload dm env old cfg s)"
    by (cases cfg) (simp add: handleConfigReload_def, simp add: reload_facts(1))
  then show ?case using dm_reload.IH by (simp add: config_event_def)
qed (rule Daemon_inv)

section \<open>Reloading the configuration\<close>


text \<open>
  A reload does not change the debounce delay. For a profile that stays watched with the
  same context, the watcher keeps the profile it was first given, so a new
  \<open>autoSyncDebounce\<close> has no effect until the daemon restarts, although the daemon's own map
  holds the new value.
\<close>

theorem reload_keeps_old_debounce:
  assumes "dm_reach dm s" "distinct_keys new" "s' = handleConfigReload dm env old (Inr new) s"
    and "map_of (dm_watching s) n = Some p" "map_of new n = Some q" "p_AutoSync q" "p_Context q = p_Context p"
  shows "map_of (wa_profiles (dm_watcher s')) n = map_of (wa_profiles (dm_watcher s)) n"
  using reload_facts(7) [OF dm_reach_inv [OF assms(1)] assms(2,3), of n p q] assms(4-7) by simp

section \<open>A daemon with one profile\<close>

definition dx_profile :: "int \<Rightarrow> Profile" where
  "dx_profile debounce =
    \<lparr>p_Host = ''h'', p_Username = ''u'', p_Password = ''p'', p_SSHKey = '''', p_Port = 22,
     p_Protocol = ''sftp'', p_RemotePath = ''/www'', p_Context = ''/site'', p_AutoSync = True,
     p_AutoSyncDebounce = debounce, p_AutoSyncDeletes = False, p_VerifyHostKey = None,
     p_FTPConnections = 8, p_TLSCACert = ''''\<rparr>"

definition dx_env :: WatchEnv where
  "dx_env = \<lparr>we_Stat = (\<lambda>p. if p = ''/site'' then None else Some (Sentinel ErrNotExist)),
     we_ReadFile = (\<lambda>p. Inl (Sentinel ErrNotExist)),
     we_Tree = (\<lambda>p. Inr (DNode ''site'' KDir (Inl (Sentinel ErrNotExist)) None [])), we_Add = (\<lambda>p. None)\<rparr>"

definition dx_start :: "goerr + daemon" where
  "dx_start = Daemon (\<lambda>_ _. False) dx_env [(''web'', dx_profile 2000)]"

lemma dx_watch: "fst (Watch (\<lambda>_ _. False) dx_env ''web'' (dx_profile 2000) ''web'' NewWatcher) = None"
  by code_simp

lemma dx_start_run:
  "\<exists>s. dx_start = Inr s \<and> map_of (dm_watching s) ''web'' = Some (dx_profile 2000)"
proof -
  obtain w where w: "Watch (\<lambda>_ _. False) dx_env ''web'' (dx_profile 2000) ''web'' NewWatcher = (None, w)"
    using dx_watch by (metis prod.collapse)
  have p: "p_AutoSync (dx_profile 2000)" "p_Context (dx_profile 2000) \<noteq> ''''" by (simp_all add: dx_profile_def)
  show ?thesis
    unfolding dx_start_def Daemon_def Let_def by (simp add: start_one_def watch_profile_def w p)
qed

lemma dx_reach:
  obtains s where "dx_start = Inr s" "dm_reach (\<lambda>_ _. False) s" "map_of (dm_watching s) ''web'' = Some (dx_profile 2000)"
proof -
  obtain s where s: "dx_start = Inr s" "map_of (dm_watching s) ''web'' = Some (dx_profile 2000)"
    using dx_start_run by blast
  have "dm_reach (\<lambda>_ _. False) s" by (rule dm_start [OF s(1) [unfolded dx_start_def]]) simp
  then show ?thesis using that s by blast
qed


lemma reload_keeps_old_debounce_witness:
  "\<exists>s. dx_start = Inr s \<and>
    map_of (wa_profiles (dm_watcher (handleConfigReload (\<lambda>_ _. False) dx_env [''web'']
      (Inr [(''web'', dx_profile 500)]) s))) ''web'' = map_of (wa_profiles (dm_watcher s)) ''web''"
proof -
  obtain s where s: "dx_start = Inr s" "dm_reach (\<lambda>_ _. False) s"
    "map_of (dm_watching s) ''web'' = Some (dx_profile 2000)" by (rule dx_reach)
  have "map_of (wa_profiles (dm_watcher (handleConfigReload (\<lambda>_ _. False) dx_env [''web'']
      (Inr [(''web'', dx_profile 500)]) s))) ''web'' = map_of (wa_profiles (dm_watcher s)) ''web''"
    by (rule reload_keeps_old_debounce [OF s(2) _ refl s(3), where q = "dx_profile 500"])
       (simp_all add: dx_profile_def)
  then show ?thesis using s(1) by blast
qed

end
