(* ===== verification/Cmd_Sync.thy ===== *)
theory Cmd_Sync
  imports Mirror
begin

text \<open>
  cmd/sync.go: the commands \<open>up\<close>, \<open>down\<close> and \<open>diff\<close>, and what all commands share: finding
  the context, loading the profile, connecting, reporting on the terminal and with desktop
  notifications (internal/notify/notify.go).

  The environment \<open>cmd_env\<close> holds the machine (the calls of package os on which the commands
  rest), the JSON decoder and the two clients \<open>newSFTPClient\<close> and \<open>newFTPClient\<close> make. What
  the commands themselves print is a list of outputs in the state (a line without its newline);
  delivering a notification is output. What \<open>config.Load\<close> and the transfers print is not in it.
\<close>

section \<open>State and output\<close>

datatype urgency = UrgencyNormal | UrgencyCritical

datatype outp = Sent urgency string string | Stdout string | Stderr string

record 'w cmd =
  cm_out :: "outp list"
  cm_w :: 'w

record 'w cmd_env =
  ce_EnsureReady :: "'w \<Rightarrow> goerr option \<times> 'w"
  ce_UserHomeDir :: "'w \<Rightarrow> string res"
  ce_Getwd :: "'w \<Rightarrow> string res"
  ce_Stat :: "string \<Rightarrow> 'w \<Rightarrow> FileInfo res"
  ce_ReadFile :: "string \<Rightarrow> 'w \<Rightarrow> string res"
  ce_Unmarshal :: "string \<Rightarrow> (string \<times> Profile) list res"
  ce_EvalSymlinks :: "string \<Rightarrow> 'w \<Rightarrow> string res"
  ce_sftp :: "Profile \<Rightarrow> 'w RemoteClient"
  ce_ftp :: "Profile \<Rightarrow> 'w RemoteClient"
  ce_fs :: "'w LocalFS"
  ce_dm :: matcher
  ce_ss :: sorter
  ce_run :: "'w RemoteClient \<Rightarrow> 'w runner"

text \<open>A call on the machine or on the client; a line of output.\<close>

definition on_w :: "('w \<Rightarrow> 'a \<times> 'w) \<Rightarrow> 'w cmd \<Rightarrow> 'a \<times> 'w cmd" where
  "on_w f c = (let (a, w) = f (cm_w c) in (a, c\<lparr>cm_w := w\<rparr>))"

definition put_out :: "outp \<Rightarrow> 'w cmd \<Rightarrow> 'w cmd" where
  "put_out e c = c\<lparr>cm_out := cm_out c @ [e]\<rparr>"

definition mark :: "nat \<Rightarrow> nat \<Rightarrow> nat \<Rightarrow> string" where
  "mark a b c = [char_of a, char_of b, char_of c]"

definition Send :: "string \<Rightarrow> string \<Rightarrow> urgency \<Rightarrow> 'w cmd \<Rightarrow> 'w cmd" where
  "Send title message u = put_out (Sent u title message)"

definition notify_Success :: "string \<Rightarrow> string \<Rightarrow> 'w cmd \<Rightarrow> 'w cmd" where
  "notify_Success title message = Send (mark 0xE2 0x9C 0x93 @ '' '' @ title) message UrgencyNormal"

definition notify_Error :: "string \<Rightarrow> string \<Rightarrow> 'w cmd \<Rightarrow> 'w cmd" where
  "notify_Error title message = Send (mark 0xE2 0x9C 0x97 @ '' '' @ title) message UrgencyCritical"

definition notify_Warning :: "string \<Rightarrow> string \<Rightarrow> 'w cmd \<Rightarrow> 'w cmd" where
  "notify_Warning title message = Send (mark 0xE2 0x9A 0xA0 @ '' '' @ title) message UrgencyNormal"

definition notify_Info :: "string \<Rightarrow> string \<Rightarrow> 'w cmd \<Rightarrow> 'w cmd" where
  "notify_Info title message = Send title message UrgencyNormal"

section \<open>The profile\<close>

definition NewClient :: "'w cmd_env \<Rightarrow> Profile \<Rightarrow> 'w RemoteClient" where
  "NewClient env profile = (if p_Protocol profile = ''sftp'' then ce_sftp env profile else ce_ftp env profile)"

text \<open>The loop of \<open>findContext\<close>: the directory, or one above it, that has a \<open>.git\<close>.\<close>

function find_git :: "(string \<Rightarrow> bool) \<Rightarrow> string \<Rightarrow> string \<Rightarrow> string option" where
  "find_git has homeDir dir =
    (if has (path_Join [dir, ''.git'']) then Some dir
     else if dir = homeDir \<or> dir = ''/'' then None
     else if path_Dir dir = dir then None
     else find_git has homeDir (path_Dir dir))"
  by pat_completeness auto
termination by (relation "measure (\<lambda>(has, homeDir, dir). up_measure dir)") (auto intro: path_Dir_up)

declare find_git.simps [simp del]

definition findContext :: "'w cmd_env \<Rightarrow> Profile \<Rightarrow> string \<Rightarrow> 'w \<Rightarrow> string res" where
  "findContext env profile filePath w =
    (if p_Context profile \<noteq> '''' then Inr (p_Context profile)
     else if filePath = '''' \<or> \<not> IsAbs filePath then ce_Getwd env w
     else
       (let homeDir = (case ce_UserHomeDir env w of Inl _ \<Rightarrow> '''' | Inr h \<Rightarrow> h)
        in case find_git (\<lambda>p. case ce_Stat env p w of Inr _ \<Rightarrow> True | Inl _ \<Rightarrow> False) homeDir (path_Dir filePath) of
             Some dir \<Rightarrow> Inr dir
           | None \<Rightarrow> Inl (ErrorString
               ''no project root found (no .git). Set 'context' in config for this profile'')))"

text \<open>\<open>notify.Error("SFTP Sync Error", err.Error()); return nil, err\<close>\<close>

definition sync_error :: "goerr \<Rightarrow> 'w cmd \<Rightarrow> 'a res \<times> 'w cmd" where
  "sync_error err c = (Inl err, notify_Error ''SFTP Sync Error'' (error_msg err) c)"

definition resolveProfile :: "'w cmd_env \<Rightarrow> string \<Rightarrow> string \<Rightarrow> 'w cmd \<Rightarrow> Profile res \<times> 'w cmd" where
  "resolveProfile env profileName contextFile c =
    (case on_w (ce_EnsureReady env) c of
       (Some err, c) \<Rightarrow> sync_error err c
     | (None, c) \<Rightarrow>
         (let w = cm_w c in
          case Config.Load (ce_UserHomeDir env w) (\<lambda>p. ce_Stat env p w) (\<lambda>p. ce_ReadFile env p w)
                 (ce_Unmarshal env) of
            Inl err \<Rightarrow> sync_error (config_error err) c
          | Inr (cfg, warnings) \<Rightarrow>
              (case GetProfile cfg profileName of
                 Inl err \<Rightarrow> sync_error (config_error err) c
               | Inr profile \<Rightarrow>
                   (case findContext env profile contextFile w of
                      Inl err \<Rightarrow> sync_error err c
                    | Inr contextDir \<Rightarrow>
                        (Inr (if p_Context profile = '''' then profile\<lparr>p_Context := contextDir\<rparr> else profile), c)))))"

text \<open>Connect, do the work, and close when the command returns.\<close>

definition with_client :: "'w RemoteClient \<Rightarrow> ('w cmd \<Rightarrow> (goerr option \<times> 'w cmd) option) \<Rightarrow> 'w cmd \<Rightarrow>
    (goerr option \<times> 'w cmd) option" where
  "with_client client body c =
    (case on_w (rc_Connect client) c of
       (Some err, c) \<Rightarrow>
         Some (Some err, notify_Error ''SFTP Error'' (''Failed to connect: '' @ error_msg err) c)
     | (None, c) \<Rightarrow> map_option (\<lambda>(r, c). (r, snd (on_w (rc_Close client) c))) (body c))"

section \<open>Up and down\<close>

record direction =
  d_up :: bool
  d_verb :: string
  d_doing :: string
  d_done :: string
  d_noun :: string

definition upload :: direction where
  "upload = \<lparr>d_up = True, d_verb = ''Upload'', d_doing = ''Uploading to'', d_done = ''Uploaded to'',
     d_noun = ''upload''\<rparr>"

definition download :: direction where
  "download = \<lparr>d_up = False, d_verb = ''Download'', d_doing = ''Downloading from'',
     d_done = ''Downloaded from'', d_noun = ''download''\<rparr>"

text \<open>The function fields \<open>run\<close> and \<open>moved\<close> of a direction.\<close>

definition d_run :: "direction \<Rightarrow> 'w cmd_env \<Rightarrow> walk_choice list \<Rightarrow> Profile \<Rightarrow> bool \<Rightarrow> 'w \<Rightarrow>
    (MirrorResult res \<times> 'w) option" where
  "d_run d env sched profile dryRun =
    (let client = NewClient env profile in
     (if d_up d then MirrorUp else MirrorDown) client (ce_fs env) (ce_dm env) (ce_ss env)
       (ce_run env client) sched profile dryRun)"

definition d_moved :: "direction \<Rightarrow> MirrorResult \<Rightarrow> int" where
  "d_moved d r = (if d_up d then Uploaded r else Downloaded r)"

definition formatSummary :: "MirrorResult \<Rightarrow> string" where
  "formatSummary r =
    (let parts =
       (if Uploaded r > 0 then [show_int (Uploaded r) @ '' uploaded''] else []) @
       (if Downloaded r > 0 then [show_int (Downloaded r) @ '' downloaded''] else []) @
       (if Created r > 0 then [show_int (Created r) @ '' dirs created''] else []) @
       (if Deleted r > 0 then [show_int (Deleted r) @ '' deleted''] else [])
     in if parts = [] then ''0 changes'' else StrJoin '', '' parts)"

text \<open>The part of \<open>runMirror\<close> that reports a result: the two branches of \<open>result.Success\<close>.\<close>

definition report_success :: "direction \<Rightarrow> Profile \<Rightarrow> MirrorResult \<Rightarrow> 'w cmd \<Rightarrow> 'w cmd" where
  "report_success d profile r c =
    (let total = d_moved d r + Deleted r + Created r;
         nl = [CHR 0x0A];
         n = show_int (int (length (Warnings r)));
         c = (if Warnings r \<noteq> [] then
                put_out (Stdout (mark 0xE2 0x9A 0xA0 @ '' '' @ d_verb d @ '' complete: '' @ formatSummary r @
                    '' ('' @ n @ '' warnings)''))
                  (notify_Warning ''SFTP Sync Complete'' (d_done d @ '' '' @ p_Host profile @ nl @
                    formatSummary r @ nl @ ''('' @ n @ '' warnings)'') c)
              else
                put_out (Stdout (mark 0xE2 0x9C 0x93 @ '' '' @ d_verb d @ '' complete: '' @ formatSummary r))
                  (notify_Success ''SFTP Sync Complete'' (d_done d @ '' '' @ p_Host profile @ nl @
                    formatSummary r) c))
     in if total = 0 \<and> Skipped r > 0
        then put_out (Stdout (''  (all '' @ show_int (Skipped r) @ '' files already in sync)'')) c
        else c)"

definition report_failure :: "direction \<Rightarrow> MirrorResult \<Rightarrow> 'w cmd \<Rightarrow> 'w cmd" where
  "report_failure d r c =
    notify_Error ''SFTP Error'' (d_verb d @ '' failed with '' @ show_int (int (length (Errors r))) @ '' errors'')
      (fold (\<lambda>e. put_out (Stderr (''  error: '' @ e))) (Errors r) c)"

definition report_result :: "direction \<Rightarrow> Profile \<Rightarrow> MirrorResult \<Rightarrow> 'w cmd \<Rightarrow> goerr option \<times> 'w cmd" where
  "report_result d profile r c =
    (let c = fold (\<lambda>m. put_out (Stderr (''  warning: '' @ m))) (Warnings r) c
     in if Success r then (None, report_success d profile r c)
        else (Some (ErrorString (d_noun d @ '' failed with '' @ show_int (int (length (Errors r))) @ '' errors'')),
              report_failure d r c))"

definition on_w_opt :: "('w \<Rightarrow> ('a \<times> 'w) option) \<Rightarrow> 'w cmd \<Rightarrow> ('a \<times> 'w cmd) option" where
  "on_w_opt f c = map_option (\<lambda>(a, w). (a, c\<lparr>cm_w := w\<rparr>)) (f (cm_w c))"

definition mirror_body :: "'w cmd_env \<Rightarrow> walk_choice list \<Rightarrow> direction \<Rightarrow> Profile \<Rightarrow> 'w cmd \<Rightarrow>
    (goerr option \<times> 'w cmd) option" where
  "mirror_body env sched d profile c =
    (case on_w_opt (d_run d env sched profile False) c of
       None \<Rightarrow> None
     | Some (Inl err, c) \<Rightarrow> Some (Some err, notify_Error ''SFTP Error'' (error_msg err) c)
     | Some (Inr r, c) \<Rightarrow> Some (report_result d profile r c))"

definition runMirror :: "'w cmd_env \<Rightarrow> walk_choice list \<Rightarrow> string \<Rightarrow> string \<Rightarrow> direction \<Rightarrow> 'w cmd \<Rightarrow>
    (goerr option \<times> 'w cmd) option" where
  "runMirror env sched profileName contextFile d c =
    (case resolveProfile env profileName contextFile c of
       (Inl err, c) \<Rightarrow> Some (Some err, c)
     | (Inr profile, c) \<Rightarrow>
         with_client (NewClient env profile) (mirror_body env sched d profile)
           (notify_Info ''SFTP Sync'' (d_doing d @ '' '' @ p_Host profile @ ''...'') c))"

definition Up where "Up env sched profileName contextFile = runMirror env sched profileName contextFile upload"

definition Down where "Down env sched profileName contextFile = runMirror env sched profileName contextFile download"

section \<open>Diff\<close>

text \<open>The line \<open>Diff\<close> prints for an action; a skip has none.\<close>

definition new_sign :: "MirrorEntry \<Rightarrow> string" where
  "new_sign a = (if IsNew a then ''  + '' else ''  ~ '')"

definition diff_line :: "MirrorEntry \<Rightarrow> string option" where
  "diff_line a =
    (case Action a of
       ActionUpload \<Rightarrow>
         Some (new_sign a @ RelPath a @ (case LocalInfo a of None \<Rightarrow> '''' | Some i \<Rightarrow> '' ('' @ HumanSize (fi_Size i) @ '')''))
     | ActionDownload \<Rightarrow>
         Some (new_sign a @ RelPath a @ (case RemoteInfo a of None \<Rightarrow> '''' | Some i \<Rightarrow> '' ('' @ HumanSize (ri_Size i) @ '')''))
     | ActionMkdir \<Rightarrow> Some (''  + '' @ RelPath a @ ''/'')
     | ActionDelete \<Rightarrow> Some (''  - '' @ RelPath a)
     | ActionDeleteDir \<Rightarrow> Some (''  - '' @ RelPath a @ ''/'')
     | ActionConflict \<Rightarrow> Some (''  ! '' @ RelPath a @ '' (conflict: file vs directory '' @ mark 0xE2 0x80 0x94 @
         '' resolve manually)'')
     | ActionSkip \<Rightarrow> None)"

definition diff_summary :: "string \<Rightarrow> nat \<Rightarrow> string" where
  "diff_summary dir changes =
    (if changes = 0 then ''No differences found '' @ mark 0xE2 0x80 0x94 @ '' local and remote are in sync.''
     else [CHR 0x0A] @ show_int (int changes) @ '' changes would be '' @
       (if dir = ''down'' then ''downloaded'' else ''uploaded'') @ ''.'')"

definition diff_report :: "string \<Rightarrow> MirrorEntry list \<Rightarrow> 'w cmd \<Rightarrow> 'w cmd" where
  "diff_report dir actions c =
    (let lines = List.map_filter diff_line actions
     in put_out (Stdout (diff_summary dir (length lines))) (fold (\<lambda>l. put_out (Stdout l)) lines c))"

definition diff_body :: "'w cmd_env \<Rightarrow> walk_choice list \<Rightarrow> string \<Rightarrow> Profile \<Rightarrow> 'w cmd \<Rightarrow>
    (goerr option \<times> 'w cmd) option" where
  "diff_body env sched dir profile c =
    (case on_w_opt (d_run (if dir = ''up'' then upload else download) env sched profile True) c of
       None \<Rightarrow> None
     | Some (Inl err, c) \<Rightarrow> Some (Some err, notify_Error ''SFTP Error'' ''Diff failed'' c)
     | Some (Inr r, c) \<Rightarrow> Some (None, diff_report dir (Actions r) c))"

definition Diff :: "'w cmd_env \<Rightarrow> walk_choice list \<Rightarrow> string \<Rightarrow> string \<Rightarrow> string \<Rightarrow> 'w cmd \<Rightarrow>
    (goerr option \<times> 'w cmd) option" where
  "Diff env sched dir profileName contextFile c =
    (if dir \<noteq> ''up'' \<and> dir \<noteq> ''down'' then
       Some (Some (ErrorString (''unknown diff direction '' @ [CHR 0x22] @ dir @ [CHR 0x22, CHR '' ''] @
         mark 0xE2 0x80 0x94 @ '' use 'up' or '' @ quoted ''down'')), c)
     else
       (case resolveProfile env profileName contextFile c of
          (Inl err, c) \<Rightarrow> Some (Some err, c)
        | (Inr profile, c) \<Rightarrow> with_client (NewClient env profile) (diff_body env sched dir profile) c))"

end
