(* ===== verification/Cmd_File.thy ===== *)
theory Cmd_File
  imports Cmd_Sync Watcher
begin

text \<open>
  cmd/file.go: \<open>push\<close> and \<open>pull\<close> of a single file, and the path arithmetic that decides
  whether a file is in the context of a profile. \<open>EvalSymlinks\<close> of package filepath is an
  argument. The file's \<open>escapesBase\<close> is the function of that name in the watcher, word for word.
\<close>

section \<open>Paths in the context\<close>

text \<open>\<open>filepath.Abs\<close>, with the result of \<open>os.Getwd\<close>.\<close>

definition filepath_Abs :: "string res \<Rightarrow> string \<Rightarrow> string res" where
  "filepath_Abs wd p =
    (if IsAbs p then Inr (Clean p)
     else (case wd of Inl err \<Rightarrow> Inl err | Inr d \<Rightarrow> Inr (path_Join [d, p])))"

definition relInside :: "string \<Rightarrow> string \<Rightarrow> string option" where
  "relInside base p =
    (case filepath_Rel base p of
       None \<Rightarrow> None
     | Some rel \<Rightarrow> if rel = ''.'' \<or> escapesBase rel then None else Some rel)"

function resolveExisting :: "(string \<Rightarrow> string res) \<Rightarrow> string \<Rightarrow> string" where
  "resolveExisting ev p =
    (case ev p of
       Inr real \<Rightarrow> real
     | Inl _ \<Rightarrow>
         if path_Dir p = p then p
         else path_Join [resolveExisting ev (path_Dir p), path_Base p])"
  by pat_completeness auto
termination by (relation "measure (\<lambda>(ev, p). up_measure p)") (auto intro: path_Dir_up)

declare resolveExisting.simps [simp del]

definition contextRel :: "(string \<Rightarrow> string res) \<Rightarrow> string \<Rightarrow> string \<Rightarrow> string option" where
  "contextRel ev context absPath =
    (case relInside context absPath of
       Some rel \<Rightarrow> Some rel
     | None \<Rightarrow>
         (case ev context of
            Inl _ \<Rightarrow> None
          | Inr realContext \<Rightarrow>
              relInside realContext
                (path_Join [resolveExisting ev (path_Dir absPath), path_Base absPath])))"

text \<open>\<open>patterns, _ := syncignore.Load(profile.Context)\<close>\<close>

definition ignored :: "'w cmd_env \<Rightarrow> Profile \<Rightarrow> string \<Rightarrow> 'w \<Rightarrow> bool" where
  "ignored env profile relPath w =
    (let f = path_Join [p_Context profile, ''.syncignore''];
         patterns = (case Syncignore.Load (fs_Stat (ce_fs env) f w) (fs_ReadFile (ce_fs env) f w) of
                       Inl _ \<Rightarrow> [] | Inr ps \<Rightarrow> ps)
     in ShouldIgnore (ce_dm env) relPath patterns)"

definition ignored_error :: "string \<Rightarrow> goerr" where
  "ignored_error relPath = ErrorString (''file ignored by .syncignore: '' @ relPath)"

section \<open>Push\<close>

definition push_body :: "'w cmd_env \<Rightarrow> Profile \<Rightarrow> string \<Rightarrow> string \<Rightarrow> 'w cmd \<Rightarrow> goerr option \<times> 'w cmd" where
  "push_body env profile absFile relPath c =
    (let client = NewClient env profile;
         remotePath = path_Join [p_RemotePath profile, relPath]
     in case on_w (rc_MkdirAll client (path_Dir remotePath)) c of
          (Some err, c) \<Rightarrow>
            (Some err, notify_Error ''SFTP Error'' (''Failed to create remote directory for '' @ relPath) c)
        | (None, c) \<Rightarrow>
            (case on_w (rc_Upload client absFile remotePath) c of
               (Some err, c) \<Rightarrow> (Some err, notify_Error ''SFTP Error'' (''Failed to upload '' @ relPath) c)
             | (None, c) \<Rightarrow>
                 (None, put_out (Stdout (mark 0xE2 0x9C 0x93 @ '' Uploaded: '' @ relPath))
                    (notify_Success ''File Uploaded''
                      (relPath @ '' '' @ mark 0xE2 0x86 0x92 @ '' '' @ p_Host profile) c))))"

text \<open>The two messages of a file that cannot be resolved or is not in the context.\<close>

definition no_path :: "string \<Rightarrow> goerr \<Rightarrow> string" where
  "no_path filePath err = ''cannot resolve path '' @ quoted filePath @ '': '' @ error_msg err"

definition not_within :: "string \<Rightarrow> Profile \<Rightarrow> string" where
  "not_within absFile profile =
    ''file '' @ quoted absFile @ '' is not within context '' @ quoted (p_Context profile)"

definition Push :: "'w cmd_env \<Rightarrow> string \<Rightarrow> string \<Rightarrow> 'w cmd \<Rightarrow> (goerr option \<times> 'w cmd) option" where
  "Push env profileName filePath c =
    (case resolveProfile env profileName filePath c of
       (Inl err, c) \<Rightarrow> Some (Some err, c)
     | (Inr profile, c) \<Rightarrow>
         (case filepath_Abs (ce_Getwd env (cm_w c)) filePath of
            Inl err \<Rightarrow>
              Some (Some (Wrapped (no_path filePath err) [err]), notify_Error ''SFTP Error'' (no_path filePath err) c)
          | Inr absFile \<Rightarrow>
              (case contextRel (\<lambda>p. ce_EvalSymlinks env p (cm_w c)) (p_Context profile) absFile of
                 None \<Rightarrow>
                   Some (Some (ErrorString (not_within absFile profile)),
                         notify_Error ''SFTP Error'' (not_within absFile profile) c)
               | Some relPath \<Rightarrow>
                   if ignored env profile relPath (cm_w c) then Some (Some (ignored_error relPath), c)
                   else with_client (NewClient env profile)
                          (\<lambda>c. Some (push_body env profile absFile relPath c))
                          (notify_Info ''SFTP Sync'' (''Uploading '' @ relPath @ ''...'') c))))"

definition Current where "Current env profileName filePath = Push env profileName filePath"

section \<open>Pull\<close>

text \<open>A file path that names a file on the server: the path below the remote path.\<close>

definition remote_rel :: "Profile \<Rightarrow> string \<Rightarrow> string option" where
  "remote_rel profile filePath =
    (let remotePosix = Clean filePath;
         remotePrefix = Clean (p_RemotePath profile);
         remotePrefix = (if remotePrefix \<noteq> ''/'' then remotePrefix @ ''/'' else remotePrefix)
     in case CutPrefix remotePosix remotePrefix of
          Some after \<Rightarrow> if after \<noteq> '''' then Some after else None
        | None \<Rightarrow> None)"

text \<open>The path relative to the context, and the local file.\<close>

definition pull_target :: "(string \<Rightarrow> string res) \<Rightarrow> Profile \<Rightarrow> string res \<Rightarrow> string \<Rightarrow> (string \<times> string) option" where
  "pull_target ev profile wd filePath =
    (let absFile = (case filepath_Abs wd filePath of Inl _ \<Rightarrow> '''' | Inr f \<Rightarrow> f)
     in case contextRel ev (p_Context profile) absFile of
          Some rel \<Rightarrow> Some (rel, absFile)
        | None \<Rightarrow>
            (case remote_rel profile filePath of
               Some relPath \<Rightarrow> Some (relPath, path_Join [p_Context profile, relPath])
             | None \<Rightarrow> None))"

definition neither_error :: "Profile \<Rightarrow> string \<Rightarrow> goerr" where
  "neither_error profile filePath = ErrorString (''path '' @ quoted filePath @
     '' is neither within local context '' @ quoted (p_Context profile) @
     '' nor under remote path '' @ quoted (p_RemotePath profile))"

definition pull_body :: "'w cmd_env \<Rightarrow> Profile \<Rightarrow> string \<Rightarrow> string \<Rightarrow> 'w cmd \<Rightarrow> goerr option \<times> 'w cmd" where
  "pull_body env profile relPath absFile c =
    (case on_w (rc_Download (NewClient env profile) (path_Join [p_RemotePath profile, relPath]) absFile) c of
       (Some err, c) \<Rightarrow> (Some err, notify_Error ''SFTP Error'' (''Failed to download '' @ relPath) c)
     | (None, c) \<Rightarrow>
         (None, put_out (Stdout (mark 0xE2 0x9C 0x93 @ '' Downloaded: '' @ relPath))
            (notify_Success ''File Downloaded''
              (relPath @ '' '' @ mark 0xE2 0x86 0x90 @ '' '' @ p_Host profile) c)))"

definition Pull :: "'w cmd_env \<Rightarrow> string \<Rightarrow> string \<Rightarrow> 'w cmd \<Rightarrow> (goerr option \<times> 'w cmd) option" where
  "Pull env profileName filePath c =
    (case resolveProfile env profileName filePath c of
       (Inl err, c) \<Rightarrow> Some (Some err, c)
     | (Inr profile, c) \<Rightarrow>
         (case pull_target (\<lambda>p. ce_EvalSymlinks env p (cm_w c)) profile (ce_Getwd env (cm_w c)) filePath of
            None \<Rightarrow> Some (Some (neither_error profile filePath), c)
          | Some (relPath, absFile) \<Rightarrow>
              if ignored env profile relPath (cm_w c) then Some (Some (ignored_error relPath), c)
              else with_client (NewClient env profile)
                     (\<lambda>c. Some (pull_body env profile relPath absFile c))
                     (notify_Info ''SFTP Sync'' (''Downloading '' @ relPath @ ''...'') c)))"

end
