(* ===== verification/Cmd_Inside.thy ===== *)
theory Cmd_Inside
  imports Cmd_File
begin

text \<open>
  Where \<open>push\<close> and \<open>pull\<close> read and write: whatever path is given, and however the directories
  are linked, the local file is in the context of the profile and the remote file below its
  remote path, under the same relative name.
\<close>

section \<open>Relative paths\<close>

lemma Rel_needs_abs:
  assumes "IsAbs p" "filepath_Rel base p = Some rel"
  shows "IsAbs base"
proof (rule ccontr)
  assume n: "\<not> IsAbs base"
  then have "Clean p \<noteq> Clean base" using IsAbs_Clean assms(1) by metis
  then show False using n assms by (auto simp: filepath_Rel_def Let_def)
qed

lemma relInside_spec:
  assumes "IsAbs p" "relInside base p = Some rel"
  shows "plain_key rel \<and> strictly_below base p \<and> Clean p = path_Join [base, rel]"
proof -
  have r: "filepath_Rel base p = Some rel" "rel \<noteq> ''.''" "\<not> escapesBase rel"
    using assms(2) by (auto simp: relInside_def split: option.splits if_splits)
  have base: "IsAbs base" using Rel_needs_abs [OF assms(1) r(1)] .
  have ne: "Clean p \<noteq> Clean base" using r by (auto simp: filepath_Rel_def Let_def)
  obtain cs xs ys where rel: "comps base = cs @ xs" "comps p = cs @ ys" "xs \<noteq> [] \<or> ys \<noteq> []"
    "filepath_Rel base p = Some (StrJoin ''/'' (replicate (length xs) ''..'' @ ys))"
    "escapesBase (StrJoin ''/'' (replicate (length xs) ''..'' @ ys)) \<longleftrightarrow> xs \<noteq> []"
    by (rule Rel_abs [OF base assms(1) ne])
  have xs: "xs = []" and j: "rel = StrJoin ''/'' ys" using r rel by auto
  have ys: "ys \<noteq> []" "\<forall>c \<in> set ys. plain c" "comps p = comps base @ ys"
    using comps_abs_plain [OF assms(1)] rel(1-3) xs by auto
  have b: "base \<noteq> ''''" using base by (auto simp: IsAbs_def HasPrefix_iff)
  have "path_Join [base, rel] = Clean p"
    using path_Join_plain [OF b ys(1,2)] j base assms(1) ys(3) by (simp add: Clean_def)
  then show ?thesis
    using ys j base assms(1) by (auto simp: plain_key_def strictly_below_def)
qed

text \<open>Resolving the links of an absolute path gives an absolute path.\<close>

definition links_abs :: "(string \<Rightarrow> string res) \<Rightarrow> bool" where
  "links_abs ev \<longleftrightarrow> (\<forall>q r. IsAbs q \<longrightarrow> ev q = Inr r \<longrightarrow> IsAbs r)"

lemma resolveExisting_abs:
  assumes links: "links_abs ev"
  shows "IsAbs p \<Longrightarrow> IsAbs (resolveExisting ev p)"
proof (induction "up_measure p" arbitrary: p rule: less_induct)
  case less
  show ?case
  proof (cases "ev p")
    case (Inl e)
    then show ?thesis
      using less IsAbs_path_Dir [OF less.prems] path_Dir_up [of p]
      by (subst resolveExisting.simps) (auto intro!: IsAbs_path_Join)
  next
    case (Inr r)
    then show ?thesis
      using links less.prems by (subst resolveExisting.simps) (auto simp: links_abs_def)
  qed
qed

section \<open>Targets\<close>

text \<open>
  \<open>rel\<close> names the file in the context, as the paths are written or with the links of the
  context and of the file's directory resolved.
\<close>

definition inside_context :: "(string \<Rightarrow> string res) \<Rightarrow> string \<Rightarrow> string \<Rightarrow> string \<Rightarrow> bool" where
  "inside_context ev context absFile rel \<longleftrightarrow>
    strictly_below context absFile \<and> Clean absFile = path_Join [context, rel] \<or>
    (\<exists>rc real. ev context = Inr rc \<and>
       real = path_Join [resolveExisting ev (path_Dir absFile), path_Base absFile] \<and>
       strictly_below rc real \<and> Clean real = path_Join [rc, rel])"

lemma contextRel_spec:
  assumes links: "links_abs ev"
    and p: "IsAbs p" and rel: "contextRel ev context p = Some rel"
  shows "plain_key rel \<and> inside_context ev context p rel"
proof (cases "relInside context p")
  case (Some r)
  then show ?thesis
    using rel relInside_spec [OF p Some] by (simp add: contextRel_def inside_context_def)
next
  case None
  let ?real = "path_Join [resolveExisting ev (path_Dir p), path_Base p]"
  obtain rc where rc: "ev context = Inr rc" "relInside rc ?real = Some rel"
    using rel None by (auto simp: contextRel_def split: sum.splits)
  have "IsAbs ?real"
    using IsAbs_path_Join [OF resolveExisting_abs [OF links IsAbs_path_Dir [OF p]]] .
  then show ?thesis using relInside_spec [OF _ rc(2)] rc(1) by (auto simp: inside_context_def)
qed

text \<open>What follows the remote path in a path on the server.\<close>

lemma Clean_root:
  assumes "Clean p = ''/'' @ r" "r \<noteq> ''''"
  shows "plain_key r"
proof -
  have "IsAbs (Clean p)" unfolding assms(1) by (simp add: IsAbs_def HasPrefix_def)
  then have abs: "IsAbs p" by simp
  then have "r = StrJoin ''/'' (comps p)" using assms(1) by (simp add: Clean_def build_path_def)
  moreover from this have "comps p \<noteq> []" using assms(2) by auto
  ultimately show ?thesis using comps_abs_plain [OF abs] by (auto simp: plain_key_def)
qed

lemma remote_rel_plain:
  assumes "IsAbs (p_RemotePath profile)" "remote_rel profile f = Some rel"
  shows "plain_key rel"
proof -
  let ?d = "Clean (p_RemotePath profile)"
  have c: "Clean f = (if ?d \<noteq> ''/'' then ?d @ ''/'' else ?d) @ rel" "rel \<noteq> ''''"
    using assms(2) by (auto simp: remote_rel_def Let_def CutPrefix_Some_iff split: option.splits if_splits)
  show ?thesis
  proof (cases "?d = ''/''")
    case True
    then show ?thesis using Clean_root [of f rel] c by simp
  next
    case False
    then have eq: "Clean f = ?d @ ''/'' @ rel" using c by simp
    have "Clean (?d @ ''/'' @ rel) = ?d @ ''/'' @ rel" using Clean_Clean [of f] eq by simp
    then show ?thesis using clean_suffix_plain [of ?d rel] assms(1) by simp
  qed
qed

lemma filepath_Abs_abs: "IsAbs d \<Longrightarrow> filepath_Abs (Inr d) p = Inr f \<Longrightarrow> IsAbs f"
  by (auto simp: filepath_Abs_def IsAbs_path_Join split: if_splits)

lemma pull_target_spec:
  assumes links: "links_abs ev"
    and "IsAbs d" "IsAbs (p_RemotePath profile)" "p_Context profile \<noteq> ''''"
    and t: "pull_target ev profile (Inr d) f = Some (rel, absFile)"
  shows "plain_key rel \<and> inside_context ev (p_Context profile) absFile rel"
proof -
  obtain a where a: "filepath_Abs (Inr d) f = Inr a" by (cases "IsAbs f") (simp_all add: filepath_Abs_def)
  note abs = filepath_Abs_abs [OF assms(2) a]
  show ?thesis
  proof (cases "contextRel ev (p_Context profile) a")
    case (Some r)
    then show ?thesis using t a contextRel_spec [OF links abs Some] by (simp add: pull_target_def)
  next
    case None
    then have r: "remote_rel profile f = Some rel" and l: "absFile = path_Join [p_Context profile, rel]"
      using t a by (auto simp: pull_target_def split: option.splits)
    have k: "plain_key rel" by (rule remote_rel_plain [OF assms(3) r])
    moreover have "Clean absFile = absFile" using assms(4) by (simp add: l path_Join_2)
    ultimately show ?thesis using plain_key_below [OF k assms(4)] l by (simp add: inside_context_def)
  qed
qed

section \<open>What the commands call\<close>

lemma on_w_keeps: "keeps I f \<Longrightarrow> I (cm_w c) \<Longrightarrow> on_w f c = (r, c') \<Longrightarrow> I (cm_w c')"
  by (auto simp: on_w_def split: prod.splits dest: keeps_case)

lemma cm_w_out [simp]:
  "cm_w (put_out e c) = cm_w c" "cm_w (notify_Error t m c) = cm_w c" "cm_w (notify_Success t m c) = cm_w c"
  "cm_w (notify_Info t m c) = cm_w c" "cm_w (notify_Warning t m c) = cm_w c"
  by (simp_all add: put_out_def notify_Error_def notify_Success_def notify_Info_def notify_Warning_def
      Send_def)

lemma with_client_keeps:
  assumes "keeps I (rc_Connect k)" "keeps I (rc_Close k)" "I (cm_w c)"
    and "\<And>c. I (cm_w c) \<Longrightarrow> \<exists>r c'. body c = Some (r, c') \<and> I (cm_w c')"
  shows "\<exists>r c'. with_client k body c = Some (r, c') \<and> I (cm_w c')"
proof -
  obtain r c1 where con: "on_w (rc_Connect k) c = (r, c1)" by fastforce
  note c1 = on_w_keeps [OF assms(1,3) con]
  show ?thesis
  proof (cases r)
    case None
    obtain e c2 where b: "body c1 = Some (e, c2)" "I (cm_w c2)" using assms(4) [OF c1] by blast
    obtain x c3 where cl: "on_w (rc_Close k) c2 = (x, c3)" by fastforce
    show ?thesis using on_w_keeps [OF assms(2) b(2) cl] con None b cl by (simp add: with_client_def)
  next
    case (Some e)
    then show ?thesis using con c1 by (simp add: with_client_def)
  qed
qed

text \<open>The pairs of a local and a remote file that a command may transfer for a profile.\<close>

definition may_transfer :: "'w cmd_env \<Rightarrow> Profile \<Rightarrow> 'w \<Rightarrow> string \<Rightarrow> string \<Rightarrow> bool" where
  "may_transfer env profile w loc remote \<longleftrightarrow>
    (\<exists>rel. plain_key rel \<and> inside_context (\<lambda>p. ce_EvalSymlinks env p w) (p_Context profile) loc rel \<and>
       remote = path_Join [p_RemotePath profile, rel] \<and> strictly_below (p_RemotePath profile) remote \<and>
       \<not> ignored env profile rel w)"

lemma may_transferI:
  assumes "plain_key rel" "inside_context (\<lambda>p. ce_EvalSymlinks env p w) (p_Context profile) loc rel"
    and "\<not> ignored env profile rel w" "IsAbs (p_RemotePath profile)"
  shows "may_transfer env profile w loc (path_Join [p_RemotePath profile, rel])"
proof -
  have "p_RemotePath profile \<noteq> ''''" using assms(4) by (auto simp: IsAbs_def HasPrefix_iff)
  then show ?thesis using assms plain_key_below by (auto simp: may_transfer_def)
qed

lemma find_git_nonempty: "find_git has h d = Some x \<Longrightarrow> d \<noteq> '''' \<Longrightarrow> x \<noteq> ''''"
  by (induction has h d rule: find_git.induct) (subst (asm) find_git.simps, auto split: if_splits)

lemma resolveProfile_context:
  assumes "\<And>w. \<exists>d. ce_Getwd env w = Inr d \<and> IsAbs d"
    and "resolveProfile env name f c = (Inr profile, c1)"
  shows "p_Context profile \<noteq> ''''"
proof -
  have "findContext env p f w = Inr d \<Longrightarrow> d \<noteq> ''''" for p w d
    using assms(1) [of w] find_git_nonempty
    by (auto simp: findContext_def Let_def IsAbs_def HasPrefix_iff split: if_splits option.splits)
  then show ?thesis
    using assms(2)
    by (auto simp: resolveProfile_def sync_error_def Let_def split: prod.splits option.splits sum.splits if_splits)
qed

definition transfers_keep :: "('w \<Rightarrow> bool) \<Rightarrow> 'w cmd_env \<Rightarrow> Profile \<Rightarrow> 'w \<Rightarrow> bool" where
  "transfers_keep I env profile w \<longleftrightarrow>
    (let k = NewClient env profile in
     keeps I (rc_Connect k) \<and> keeps I (rc_Close k) \<and>
     (\<forall>loc remote. may_transfer env profile w loc remote \<longrightarrow>
        keeps I (rc_Upload k loc remote) \<and> keeps I (rc_Download k remote loc) \<and>
        keeps I (rc_MkdirAll k (path_Dir remote))))"

lemma push_body_keeps:
  assumes "transfers_keep I env profile w" "I (cm_w c)"
    and "may_transfer env profile w f (path_Join [p_RemotePath profile, rel])"
  shows "I (cm_w (snd (push_body env profile f rel c)))"
proof -
  let ?k = "NewClient env profile" and ?r = "path_Join [p_RemotePath profile, rel]"
  have k: "keeps I (rc_MkdirAll ?k (path_Dir ?r))" "keeps I (rc_Upload ?k f ?r)"
    using assms(1,3) by (auto simp: transfers_keep_def Let_def)
  obtain e c1 where m: "on_w (rc_MkdirAll ?k (path_Dir ?r)) c = (e, c1)" by fastforce
  obtain e' c2 where u: "on_w (rc_Upload ?k f ?r) c1 = (e', c2)" by fastforce
  note c1 = on_w_keeps [OF k(1) assms(2) m]
  show ?thesis
    using m u c1 on_w_keeps [OF k(2) c1 u] by (simp add: push_body_def Let_def split: option.split)
qed

lemma pull_body_keeps:
  assumes "transfers_keep I env profile w" "I (cm_w c)"
    and "may_transfer env profile w f (path_Join [p_RemotePath profile, rel])"
  shows "I (cm_w (snd (pull_body env profile rel f c)))"
proof -
  let ?k = "NewClient env profile" and ?r = "path_Join [p_RemotePath profile, rel]"
  have k: "keeps I (rc_Download ?k ?r f)"
    using assms(1,3) by (auto simp: transfers_keep_def Let_def)
  obtain e c1 where m: "on_w (rc_Download ?k ?r f) c = (e, c1)" by fastforce
  show ?thesis
    using m on_w_keeps [OF k assms(2) m] by (simp add: pull_body_def split: option.split)
qed

text \<open>The last part of both commands: connect, transfer, close.\<close>

lemma transfer_keeps:
  assumes "transfers_keep I env profile w" "I (cm_w c)" "\<And>c. I (cm_w c) \<Longrightarrow> I (cm_w (snd (body c)))"
  shows "\<exists>r c'. with_client (NewClient env profile) (\<lambda>c. Some (body c)) c = Some (r, c') \<and> I (cm_w c')"
proof (rule with_client_keeps [where I = I])
  show "I (cm_w c)" by (rule assms(2))
  show "keeps I (rc_Connect (NewClient env profile))" "keeps I (rc_Close (NewClient env profile))"
    using assms(1) by (auto simp: transfers_keep_def Let_def)
  show "\<exists>r c'. Some (body c) = Some (r, c') \<and> I (cm_w c')" if "I (cm_w c)" for c
    using assms(3) [OF that] by (cases "body c") auto
qed


end
