(* ===== verification/Cmd_Diff.thy ===== *)
theory Cmd_Diff
  imports Cmd_Inside
begin

text \<open>
  What \<open>up\<close>, \<open>down\<close> and \<open>diff\<close> report: the exit status says whether the mirror succeeded, a
  diff changes nothing and shows every planned action once, and the connection is closed.
\<close>

section \<open>Output\<close>

lemma put_out_fold:
  "cm_out (fold (\<lambda>x. put_out (f x)) xs c) = cm_out c @ map f xs"
  "cm_w (fold (\<lambda>x. put_out (f x)) xs c) = cm_w c"
  by (induction xs arbitrary: c) (simp_all add: put_out_def)

lemma on_w_out: "on_w f c = (r, c') \<Longrightarrow> cm_out c' = cm_out c"
  by (auto simp: on_w_def split: prod.splits)

lemma on_w_opt_Some:
  "on_w_opt f c = Some (r, c') \<Longrightarrow> f (cm_w c) = Some (r, cm_w c') \<and> cm_out c' = cm_out c"
  by (auto simp: on_w_opt_def)

lemma diff_line_None: "diff_line a = None \<longleftrightarrow> Action a = ActionSkip"
  by (simp add: diff_line_def split: MirrorAction.split)

lemma diff_lines_length:
  "length (List.map_filter diff_line as) = length (filter (\<lambda>a. Action a \<noteq> ActionSkip) as)"
proof (induction as)
  case (Cons a as)
  then show ?case
    using diff_line_None [of a] by (cases "diff_line a") (auto simp: map_filter_simps)
qed (simp add: map_filter_simps)

lemma diff_report_out:
  "cm_out (diff_report dir as c) = cm_out c @ map Stdout (List.map_filter diff_line as) @
     [Stdout (diff_summary dir (length (filter (\<lambda>a. Action a \<noteq> ActionSkip) as)))]"
  "cm_w (diff_report dir as c) = cm_w c"
  by (simp_all add: diff_report_def Let_def put_out_fold diff_lines_length) (simp add: put_out_def put_out_fold)

section \<open>Connecting and closing\<close>

text \<open>A command that got to its client: the body runs between a connect and a close.\<close>

lemma with_client_Some:
  assumes "with_client k body c = Some (r, c')"
  obtains (refused) e c1 where "on_w (rc_Connect k) c = (Some e, c1)" "r = Some e" "cm_w c' = cm_w c1"
  | (ran) c1 c2 where "on_w (rc_Connect k) c = (None, c1)" "body c1 = Some (r, c2)"
      "on_w (rc_Close k) c2 = (fst (on_w (rc_Close k) c2), c')"
proof (cases "on_w (rc_Connect k) c")
  case (Pair e c1)
  show thesis
  proof (cases e)
    case None
    then obtain c2 where "body c1 = Some (r, c2)" "c' = snd (on_w (rc_Close k) c2)"
      using assms Pair by (auto simp: with_client_def)
    then show thesis using ran [of c1 c2] Pair None by simp
  next
    case (Some er)
    then show thesis using refused [of er c1] assms Pair by (auto simp: with_client_def)
  qed
qed

section \<open>Diff\<close>

text \<open>What the client is asked during a diff.\<close>

definition looks :: "('w \<Rightarrow> bool) \<Rightarrow> 'w RemoteClient \<Rightarrow> string \<Rightarrow> bool \<Rightarrow> bool" where
  "looks I k root up \<longleftrightarrow>
    keeps I (rc_Connect k) \<and> keeps I (rc_Close k) \<and> keeps I (rc_Stat k root) \<and>
    (\<forall>p. keeps I (rc_ReadDir k p)) \<and> (up \<longrightarrow> keeps I (rc_MkdirAll k root))"

lemma d_run_dry:
  assumes "looks I (NewClient env profile) (p_RemotePath profile) (d_up d)" "I w"
    and "d_run d env sched profile True w = Some (res, w')"
  shows "I w' \<and> undone res"
proof (cases "d_up d")
  case True
  have k: "keeps I (rc_Stat (NewClient env profile) (p_RemotePath profile))"
    "\<And>p. keeps I (rc_ReadDir (NewClient env profile) p)"
    "keeps I (rc_MkdirAll (NewClient env profile) (p_RemotePath profile))"
    using assms(1) True by (auto simp: looks_def)
  show ?thesis
    using MirrorUp_dry_run [OF k assms(2)] assms(3) True unfolding d_run_def Let_def by auto
next
  case False
  have k: "keeps I (rc_Stat (NewClient env profile) (p_RemotePath profile))"
    "\<And>p. keeps I (rc_ReadDir (NewClient env profile) p)"
    using assms(1) False by (auto simp: looks_def)
  show ?thesis
    using MirrorDown_dry_run [OF k assms(2)] assms(3) False unfolding d_run_def Let_def by auto
qed

text \<open>
  C24: \<open>diff\<close> only looks, and shows everything. Besides connecting and closing, \<open>diff down\<close>
  calls \<open>Stat\<close> on the remote path and \<open>ReadDir\<close>, \<open>diff up\<close> also \<open>MkdirAll\<close> of the remote path (when
  \<open>Stat\<close> fails), and nothing that changes a local file: what these calls keep holds afterwards.
  When it ends without an error it has printed one line for every action a real run would
  take, in the plan's order, and at the end their number, or, if there is none, that both sides are in
  sync; the plan itself has nothing counted as done.
\<close>

theorem diff_only_looks:
  assumes "resolveProfile env name f c = (Inr profile, c1)" "dir = ''up'' \<or> dir = ''down''"
    and look: "looks I (NewClient env profile) (p_RemotePath profile) (dir = ''up'')" and "I (cm_w c1)"
    and run: "Diff env sched dir name f c = Some (r, c')"
  shows "I (cm_w c') \<and> (r = None \<longrightarrow>
    (\<exists>plan w1 w2. d_run (if dir = ''up'' then upload else download) env sched profile True w1 = Some (Inr plan, w2) \<and>
       undone (Inr plan) \<and>
       cm_out c' = cm_out c1 @ map Stdout (List.map_filter diff_line (Actions plan)) @
         [Stdout (diff_summary dir (length (filter (\<lambda>a. Action a \<noteq> ActionSkip) (Actions plan))))]))"
proof -
  let ?k = "NewClient env profile" and ?d = "if dir = ''up'' then upload else download"
  have k: "keeps I (rc_Connect ?k)" "keeps I (rc_Close ?k)" using look by (simp_all add: looks_def)
  have look': "looks I ?k (p_RemotePath profile) (d_up ?d)"
    using look by (cases "dir = ''up''") (simp_all add: upload_def download_def)
  have "with_client ?k (diff_body env sched dir profile) c1 = Some (r, c')"
    using run assms(1,2) by (auto simp: Diff_def)
  then show ?thesis
  proof (cases rule: with_client_Some)
    case (refused e q)
    then show ?thesis using on_w_keeps [OF k(1) assms(4)] by simp
  next
    case (ran q q')
    have q: "I (cm_w q)" using on_w_keeps [OF k(1) assms(4) ran(1)] .
    obtain res q1 where m: "on_w_opt (d_run ?d env sched profile True) q = Some (res, q1)"
      using ran(2) unfolding diff_body_def by (cases "on_w_opt (d_run ?d env sched profile True) q") auto
    note run = on_w_opt_Some [OF m]
    have dry: "I (cm_w q1) \<and> undone res" using d_run_dry [OF look' q] run by blast
    have I': "I (cm_w c')" if "cm_w q' = cm_w q1"
      using on_w_keeps [OF k(2) _ ran(3)] dry that by simp
    show ?thesis
    proof (cases res)
      case (Inl e)
      then show ?thesis using ran(2) m I' by (auto simp: diff_body_def)
    next
      case (Inr plan)
      then have "q' = diff_report dir (Actions plan) q1" "r = None"
        using ran(2) m by (auto simp: diff_body_def)
      moreover have "cm_out q1 = cm_out c1" using on_w_out [OF ran(1)] run by simp
      moreover have "cm_out c' = cm_out q'" using on_w_out [OF ran(3)] .
      moreover have "I (cm_w c')" using I' calculation(1) by (simp add: diff_report_out(2))
      moreover have "d_run ?d env sched profile True (cm_w q) = Some (Inr plan, cm_w q1)"
        using run Inr by blast
      moreover have "undone (Inr plan)" using dry Inr by blast
      ultimately show ?thesis
        using diff_report_out(1) [of dir "Actions plan" q1]
        by (intro conjI impI exI [of _ plan] exI [of _ "cm_w q"] exI [of _ "cm_w q1"]) simp_all
    qed
  qed
qed

section \<open>Up and down\<close>

lemma report_result_status: "fst (report_result d profile r c) = None \<longleftrightarrow> Success r"
  by (simp add: report_result_def Let_def)

text \<open>The exit status is that of the mirror: nil exactly when it ran and was a success.\<close>

lemma runMirror_status:
  assumes "resolveProfile env name f c = (Inr profile, c1)"
    and "runMirror env sched name f d c = Some (None, c')"
  shows "\<exists>r w1 w2. d_run d env sched profile False w1 = Some (Inr r, w2) \<and> Success r"
proof -
  let ?k = "NewClient env profile"
  have "with_client ?k (mirror_body env sched d profile)
      (notify_Info ''SFTP Sync'' (d_doing d @ '' '' @ p_Host profile @ ''...'') c1) = Some (None, c')"
    using assms by (simp add: runMirror_def)
  then show ?thesis
  proof (cases rule: with_client_Some)
    case (ran q q')
    obtain res q1 where m: "on_w_opt (d_run d env sched profile False) q = Some (res, q1)"
      using ran(2) unfolding mirror_body_def by (cases "on_w_opt (d_run d env sched profile False) q") auto
    then obtain r where "res = Inr r" "Success r"
      using ran(2) report_result_status [of d profile _ q1]
      by (cases res) (auto simp: mirror_body_def, metis fst_conv)
    then show ?thesis using on_w_opt_Some [OF m] by blast
  qed simp
qed

end
