(* ===== verification/Cmd_Main.thy ===== *)
theory Cmd_Main
  imports Cmd_Diff
begin

text \<open>
  main.go: which command the arguments ask for, and the exit status. The sync commands are
  those of \<open>Cmd_Sync\<close> and \<open>Cmd_File\<close>; the mounting, daemon and service commands are one
  argument, a function of the invocation.
\<close>

section \<open>Arguments\<close>

datatype invocation =
    CmdUp string string | CmdDown string string | CmdDiff string string string
  | CmdPush string string | CmdPull string string | CmdCurrent string string
  | CmdMount string bool | CmdUnmount string bool | CmdMounts
  | CmdDaemon | CmdInstallDaemon | CmdUninstallDaemon | CmdStartDaemon | CmdStopDaemon
  | CmdCompletions string | CmdListProfiles
  | ShowVersion | ShowHelp
  | UsageError "outp list" | Unsupported string string | UnknownCommand string | NoCommand

text \<open>\<open>requireUnix\<close>: the guard of the commands that need a service manager or a mount tool.\<close>

definition requireUnix :: "string \<Rightarrow> string \<Rightarrow> string \<Rightarrow> invocation \<Rightarrow> invocation" where
  "requireUnix goos feature reason k =
    (if goos \<noteq> ''linux'' \<and> goos \<noteq> ''darwin'' then Unsupported feature reason else k)"

text \<open>An optional argument, and a command with a minimum of arguments.\<close>

definition opt_arg :: "string list \<Rightarrow> nat \<Rightarrow> string" where
  "opt_arg args i = (if length args \<ge> Suc i then args ! i else '''')"

definition needs :: "nat \<Rightarrow> string list \<Rightarrow> string list \<Rightarrow> invocation \<Rightarrow> invocation" where
  "needs n usage args k = (if length args < n then UsageError (map Stdout usage) else k)"

definition mount_tools :: string where "mount_tools = ''rclone (and sshfs on Linux)''"

definition service_manager :: string where
  "service_manager = ''a background service manager (systemd on Linux, launchd on macOS)''"

definition parse_args :: "string \<Rightarrow> string list \<Rightarrow> invocation" where
  "parse_args goos args =
    (if length args < 2 then NoCommand
     else let command = args ! 1 in
       if command = ''up'' then
         needs 3 [''Usage: sfync up <profile> [file]''] args (CmdUp (args ! 2) (opt_arg args 3))
       else if command = ''down'' then
         needs 3 [''Usage: sfync down <profile> [file]''] args (CmdDown (args ! 2) (opt_arg args 3))
       else if command = ''diff'' then
         needs 4 [''Usage: sfync diff <up|down> <profile> [file]'',
             ''  sfync diff up <profile>    Show what would be uploaded (dry-run)'',
             ''  sfync diff down <profile>  Show what would be downloaded (dry-run)''] args
           (CmdDiff (args ! 2) (args ! 3) (opt_arg args 4))
       else if command = ''push'' then
         needs 4 [''Usage: sfync push <profile> <file>''] args (CmdPush (args ! 2) (args ! 3))
       else if command = ''pull'' then
         needs 4 [''Usage: sfync pull <profile> <file>''] args (CmdPull (args ! 2) (args ! 3))
       else if command = ''current'' then
         needs 4 [''Usage: sfync current <profile> <file>''] args (CmdCurrent (args ! 2) (args ! 3))
       else if command = ''mount'' then
         requireUnix goos ''mount'' mount_tools
           (needs 3 [''Usage: sfync mount <profile> [--yazi]''] args
             (CmdMount (args ! 2) (opt_arg args 3 = ''--yazi'')))
       else if command = ''unmount'' then
         requireUnix goos ''unmount'' mount_tools
           (needs 3 [''Usage: sfync unmount <profile|--all>''] args
             (if args ! 2 = ''--all'' then CmdUnmount '''' True else CmdUnmount (args ! 2) False))
       else if command = ''mounts'' then requireUnix goos ''mounts'' mount_tools CmdMounts
       else if command = ''daemon'' then
         requireUnix goos ''daemon'' ''a desktop notifier (notify-send on Linux, osascript on macOS)'' CmdDaemon
       else if command = ''install-daemon'' then
         requireUnix goos ''install-daemon'' service_manager CmdInstallDaemon
       else if command = ''uninstall-daemon'' then
         requireUnix goos ''uninstall-daemon'' service_manager CmdUninstallDaemon
       else if command = ''on'' then requireUnix goos ''on'' service_manager CmdStartDaemon
       else if command = ''off'' then requireUnix goos ''off'' service_manager CmdStopDaemon
       else if command \<in> {''version'', ''--version'', ''-v''} then ShowVersion
       else if command = ''--completions'' then
         (if length args < 3 then UsageError [Stderr ''Usage: sfync --completions <fish|bash|zsh>'']
          else CmdCompletions (args ! 2))
       else if command = ''--list-profiles'' then CmdListProfiles
       else if command \<in> {''help'', ''--help'', ''-h''} then ShowHelp
       else UnknownCommand command)"

section \<open>Running\<close>

definition usage_lines :: "string list" where
  "usage_lines =
    [''sfync - SFTP/FTP synchronization and mounting tool'',
     '''',
     ''USAGE:'',
     ''  sfync <command> <profile> [options]'',
     '''',
     ''SYNC COMMANDS:'',
     ''  up <profile>              Upload local directory to remote (full sync)'',
     ''  down <profile>            Download remote directory to local (full sync)'',
     ''  diff up <profile>         Show what would be uploaded (dry-run)'',
     ''  diff down <profile>       Show what would be downloaded (dry-run)'',
     ''  push <profile> <file>     Upload a single file'',
     ''  pull <profile> <file>     Download a single file'',
     ''  current <profile> <file>  Upload current file (editor integration)'',
     '''',
     ''MOUNT COMMANDS:'',
     ''  mount <profile>           Mount remote filesystem'',
     ''  mount <profile> --yazi    Mount and open in yazi file manager'',
     ''  unmount <profile>         Unmount a profile's filesystem'',
     ''  unmount --all             Unmount all mounted filesystems'',
     ''  mounts                    List currently mounted profiles'',
     '''',
     ''DAEMON COMMANDS:'',
     ''  daemon                    Run auto-sync daemon (watches for file changes)'',
     ''  install-daemon            Install background service for auto-sync'',
     ''  uninstall-daemon          Remove background service'',
     ''  on                        Start the auto-sync daemon service'',
     ''  off                       Stop the auto-sync daemon service'',
     '''',
     ''OTHER:'',
     ''  version                   Show version information'',
     ''  help                      Show this help message'',
     '''',
     ''CONFIGURATION:'',
     ''  Config file: ~/.config/sfync/config.json'',
     '''',
     ''  Example config:'',
     ''  {'',
     ''    \"myserver\": {'',
     ''      \"host\": \"sftp.example.com\",'',
     ''      \"username\": \"user\",'',
     ''      \"sshKey\": \"~/.ssh/id_ed25519\",'',
     ''      \"port\": 22,'',
     ''      \"protocol\": \"sftp\",'',
     ''      \"remotePath\": \"/var/www/html\",'',
     ''      \"context\": \"/home/user/projects/website\",'',
     ''      \"autoSync\": true,'',
     ''      \"autoSyncDebounce\": 2000'',
     ''    }'',
     ''  }'',
     '''',
     ''EXAMPLES:'',
     ''  sfync up myserver'',
     ''  sfync mount myserver --yazi'',
     ''  sfync push myserver index.html'',
     ''  sfync unmount --all'']"

definition put_all_out :: "outp list \<Rightarrow> 'w cmd \<Rightarrow> 'w cmd" where
  "put_all_out es c = fold put_out es c"

text \<open>\<open>exitOnError\<close>, and the status of a command that returns: 0.\<close>

definition exitOnError :: "goerr option \<times> 'w cmd \<Rightarrow> nat \<times> 'w cmd" where
  "exitOnError r =
    (case r of
       (None, c) \<Rightarrow> (0, c)
     | (Some err, c) \<Rightarrow> (1, put_out (Stderr (''Error: '' @ error_msg err)) c))"

definition version :: string where "version = ''3.4.0''"

definition run_invocation :: "'w cmd_env \<Rightarrow> (invocation \<Rightarrow> 'w cmd \<Rightarrow> (goerr option \<times> 'w cmd) option) \<Rightarrow>
    string \<Rightarrow> walk_choice list \<Rightarrow> invocation \<Rightarrow> 'w cmd \<Rightarrow> (nat \<times> 'w cmd) option" where
  "run_invocation env others goos sched i c =
    (case i of
       CmdUp p f \<Rightarrow> map_option exitOnError (Up env sched p f c)
     | CmdDown p f \<Rightarrow> map_option exitOnError (Down env sched p f c)
     | CmdDiff d p f \<Rightarrow> map_option exitOnError (Diff env sched d p f c)
     | CmdPush p f \<Rightarrow> map_option exitOnError (Push env p f c)
     | CmdPull p f \<Rightarrow> map_option exitOnError (Pull env p f c)
     | CmdCurrent p f \<Rightarrow> map_option exitOnError (Current env p f c)
     | ShowVersion \<Rightarrow> Some (0, put_out (Stdout (''sfync version '' @ version)) c)
     | ShowHelp \<Rightarrow> Some (0, put_all_out (map Stdout usage_lines) c)
     | NoCommand \<Rightarrow> Some (1, put_all_out (map Stdout usage_lines) c)
     | UnknownCommand command \<Rightarrow>
         Some (1, put_all_out (map Stdout ([''Unknown command: '' @ command, ''''] @ usage_lines)) c)
     | UsageError es \<Rightarrow> Some (1, put_all_out es c)
     | Unsupported feature reason \<Rightarrow>
         Some (1, put_all_out (map Stderr
           [''Error: `sfync '' @ feature @ ''` is not supported on this OS'', ''Current OS: '' @ goos,
            [CHR 0x0A] @ ''This command requires: '' @ reason]) c)
     | other \<Rightarrow> map_option exitOnError (others other c))"

definition sfync_main :: "'w cmd_env \<Rightarrow> (invocation \<Rightarrow> 'w cmd \<Rightarrow> (goerr option \<times> 'w cmd) option) \<Rightarrow>
    string \<Rightarrow> walk_choice list \<Rightarrow> string list \<Rightarrow> 'w cmd \<Rightarrow> (nat \<times> 'w cmd) option" where
  "sfync_main env others goos sched args = run_invocation env others goos sched (parse_args goos args)"

section \<open>The exit status\<close>

lemma d_run_success:
  assumes "d_run d env sched profile False w = Some (Inr r, w')"
  shows "Success r \<longleftrightarrow> Errors r = []"
proof -
  have up: "MirrorUp k fs dm ss rt sched profile False w = Some (Inr r, w') \<Longrightarrow> Success r \<longleftrightarrow> Errors r = []" for k fs dm ss rt
    by (auto simp: MirrorUp_def Let_def finish_mirror_def split: option.splits sum.splits prod.splits)
  have down: "MirrorDown k fs dm ss rt sched profile False w = Some (Inr r, w') \<Longrightarrow> Success r \<longleftrightarrow> Errors r = []" for k fs dm ss rt
    by (auto simp: MirrorDown_def Let_def finish_mirror_def split: option.splits sum.splits prod.splits)
  show ?thesis
    using assms up down unfolding d_run_def Let_def by (cases "d_up d") auto
qed

lemma exitOnError_status:
  "exitOnError (e, c) = (n, c') \<Longrightarrow> (e = None \<longleftrightarrow> n = 0) \<and>
    (n \<noteq> 0 \<longrightarrow> n = 1 \<and> (\<exists>m. last (cm_out c') = Stderr (''Error: '' @ m)))"
  by (auto simp: exitOnError_def put_out_def split: option.splits)

lemma resolved_or_error:
  assumes "runMirror env sched name f d c = Some (None, c')"
  obtains profile c1 where "resolveProfile env name f c = (Inr profile, c1)"
  using assms by (auto simp: runMirror_def split: prod.splits sum.splits)

text \<open>The two mirror commands among the invocations.\<close>

definition mirror_dir :: "string list \<Rightarrow> direction" where
  "mirror_dir args = (if args ! 1 = ''up'' then upload else download)"

lemma main_mirror:
  assumes "2 \<le> length args" "args ! 1 = ''up'' \<or> args ! 1 = ''down''"
  shows "sfync_main env others goos sched args c =
    (if length args < 3 then
       Some (1, put_out (Stdout (''Usage: sfync '' @ args ! 1 @ '' <profile> [file]'')) c)
     else map_option exitOnError (runMirror env sched (args ! 2) (opt_arg args 3) (mirror_dir args) c))"
  using assms
  by (auto simp: sfync_main_def parse_args_def needs_def run_invocation_def put_all_out_def Up_def Down_def
      mirror_dir_def)

text \<open>
  C25: The exit status tells the truth. When \<open>sfync up\<close> or \<open>sfync down\<close> ends, the status is 0 only
  if the profile was found and the mirror ran with no error: every transfer of the plan was
  done; otherwise it is 1 and the last line printed is the error or the usage.
\<close>

theorem exit_status_tells:
  assumes args: "2 \<le> length args" "args ! 1 = ''up'' \<or> args ! 1 = ''down''"
    and run: "sfync_main env others goos sched args c = Some (n, c')"
  shows "if n = 0
    then \<exists>profile c1 r w1 w2. resolveProfile env (args ! 2) (opt_arg args 3) c = (Inr profile, c1) \<and>
           d_run (mirror_dir args) env sched profile False w1 = Some (Inr r, w2) \<and> Success r \<and> Errors r = []
    else n = 1 \<and> (\<exists>m. last (cm_out c') = Stderr (''Error: '' @ m) \<or>
           (length args < 3 \<and> last (cm_out c') = Stdout (''Usage: '' @ m)))"
proof (cases "length args < 3")
  case True
  then have "sfync_main env others goos sched args c =
      Some (1, put_out (Stdout (''Usage: '' @ (''sfync '' @ args ! 1 @ '' <profile> [file]''))) c)"
    using main_mirror [OF args, of env others goos sched c] by simp
  then have "n = 1" "last (cm_out c') = Stdout (''Usage: '' @ (''sfync '' @ args ! 1 @ '' <profile> [file]''))"
    using run by (simp_all add: put_out_def del: append.simps)
  then show ?thesis using True by (simp del: append.simps)
next
  case False
  then obtain e c2 where m: "runMirror env sched (args ! 2) (opt_arg args 3) (mirror_dir args) c = Some (e, c2)"
    and x: "exitOnError (e, c2) = (n, c')"
    using run main_mirror [OF args, of env others goos sched c] by (auto simp: map_option_case split: option.splits)
  show ?thesis
  proof (cases e)
    case None
    then obtain profile c1 where p: "resolveProfile env (args ! 2) (opt_arg args 3) c = (Inr profile, c1)"
      using resolved_or_error m by blast
    obtain r w1 w2 where "d_run (mirror_dir args) env sched profile False w1 = Some (Inr r, w2)" "Success r"
      using runMirror_status [OF p m [unfolded None]] by blast
    then show ?thesis using exitOnError_status [OF x] None p d_run_success by (metis (no_types, lifting))
  next
    case (Some er)
    then show ?thesis using exitOnError_status [OF x] by auto
  qed
qed

end
