(* ===== verification/Cmd_Example.thy ===== *)
theory Cmd_Example
  imports Cmd_Main Mirror_Example
begin

text \<open>
  The site and the server of \<open>Mirror_Example\<close> behind a configuration file, and the commands
  run on them.
\<close>

definition live_entry :: Profile where
  "live_entry = \<lparr>p_Host = ''example.org'', p_Username = ''web'', p_Password = ''s'',
     p_SSHKey = '''', p_Port = 0, p_Protocol = '''', p_RemotePath = ''/srv'',
     p_Context = ''/site'', p_AutoSync = False, p_AutoSyncDebounce = 0,
     p_AutoSyncDeletes = False, p_VerifyHostKey = None, p_FTPConnections = 0, p_TLSCACert = ''''\<rparr>"

definition live_env :: "string list cmd_env" where
  "live_env = \<lparr>ce_EnsureReady = demo_quiet, ce_UserHomeDir = (\<lambda>w. Inr ''/home/web''),
     ce_Getwd = (\<lambda>w. Inr ''/home/web''), ce_Stat = (\<lambda>p w. Inl (ErrorString ''permission denied'')),
     ce_ReadFile = (\<lambda>p w. Inr ''file''), ce_Unmarshal = (\<lambda>s. Inr [(''live'', live_entry)]),
     ce_EvalSymlinks = (\<lambda>p w. Inl (Sentinel ErrNotExist)),
     ce_sftp = (\<lambda>p. demo_client), ce_ftp = (\<lambda>p. demo_client), ce_fs = demo_fs, ce_dm = demo_dm,
     ce_ss = insertion_slice, ce_run = runTransfers\<rparr>"

definition idle :: "string list cmd" where
  "idle = \<lparr>cm_out = [], cm_w = []\<rparr>"

definition live_profile :: Profile where
  "live_profile = SetDefaults (Inr ''/home/web'') live_entry"

text \<open>A path on the server is pulled to its place in the context, and one that leads out is refused.\<close>

lemma live_pull:
  "case Pull live_env ''live'' ''/srv/img/../logo'' idle of
     Some (None, c) \<Rightarrow> cm_w c = [''/site/logo''] | _ \<Rightarrow> False"
  "case Pull live_env ''live'' ''/srv/../etc/passwd'' idle of
     Some (Some e, c) \<Rightarrow> cm_w c = [] | _ \<Rightarrow> False"
  by code_simp+

lemma live_resolved: "resolveProfile live_env ''live'' f idle = (Inr live_profile, idle)"
proof -
  have "p_Context live_profile = ''/site''" by code_simp
  then have ctx: "p_Context (SetDefaults (Inr ''/home/web'') live_entry) = ''/site''"
    by (simp only: live_profile_def)
  have l: "Config.Load (ce_UserHomeDir live_env []) (\<lambda>p. ce_Stat live_env p []) (\<lambda>p. ce_ReadFile live_env p [])
      (ce_Unmarshal live_env) = Inr ([(''live'', live_profile)], [])"
    by code_simp
  show ?thesis
    using l ctx
    by (simp add: resolveProfile_def on_w_def idle_def live_env_def demo_quiet_def GetProfile_def findContext_def
        live_profile_def del: SetDefaults_fields)
qed

lemma live_client: "NewClient live_env p = demo_client"
  by (simp add: NewClient_def live_env_def)

lemma live_fields: "p_Context live_profile = ''/site''" "p_RemotePath live_profile = ''/srv''"
  by code_simp+

lemma live_transfers: "transfers_keep demo_inside live_env live_profile w"
proof -
  have loc: "strictly_below ''/site'' loc" if "may_transfer live_env live_profile w loc remote" for loc remote
    using that by (auto simp: may_transfer_def inside_context_def live_fields live_env_def)
  have "keeps demo_inside (rc_Connect demo_client)" "keeps demo_inside (rc_Close demo_client)"
    "\<And>loc remote. keeps demo_inside (rc_Upload demo_client loc remote)"
    "\<And>d. keeps demo_inside (rc_MkdirAll demo_client d)"
    by (simp_all add: keeps_def demo_client_def demo_quiet_def)
  moreover have "keeps demo_inside (rc_Download demo_client remote loc)"
    if "may_transfer live_env live_profile w loc remote" for loc remote
    using loc [OF that] by (simp add: keeps_def demo_client_def demo_log_def demo_inside_def)
  ultimately show ?thesis unfolding transfers_keep_def live_client Let_def by blast
qed


text \<open>A dry mirror-down shows the three actions of the plan.\<close>

lemma live_diff:
  "case Diff live_env [] ''down'' ''live'' '''' idle of
     Some (None, c) \<Rightarrow> length (cm_out c) = 4 | _ \<Rightarrow> False"
  by code_simp

lemma diff_only_looks_witness:
  "\<exists>c n. Diff live_env [] ''down'' ''live'' '''' idle = Some (None, c) \<and> cm_w c = [] \<and>
     last (cm_out c) = Stdout (diff_summary ''down'' n)"
proof -
  have look: "looks (\<lambda>w. w = []) (NewClient live_env live_profile) (p_RemotePath live_profile) (''down'' = ''up'')"
    by (simp add: looks_def live_client keeps_def demo_client_def demo_quiet_def)
  obtain c where c: "Diff live_env [] ''down'' ''live'' '''' idle = Some (None, c)"
    using live_diff by (auto split: option.splits prod.splits)
  have w: "cm_w idle = []" by (simp add: idle_def)
  note d = diff_only_looks [OF live_resolved disjI2 [OF refl] look w c]
  have out: "\<exists>n. last (cm_out c) = Stdout (diff_summary ''down'' n)"
    using mp [OF conjunct2 [OF d] refl] by (elim exE conjE) (rule exI, simp only: append_assoc [symmetric] last_snoc)
  show ?thesis using c conjunct1 [OF d] out by blast
qed

text \<open>\<open>sfync down live\<close> ends with status 0, without a profile with 1.\<close>

definition live_main :: "string list \<Rightarrow> (nat \<times> string list cmd) option" where
  "live_main args = sfync_main live_env (\<lambda>i c. Some (None, c)) ''linux'' [] args idle"

lemma live_main_run:
  "map_option fst (live_main [''sfync'', ''down'', ''live'']) = Some 0"
  "map_option fst (live_main [''sfync'', ''down'', ''other'']) = Some 1"
  "map_option fst (live_main [''sfync'', ''down'']) = Some 1"
  by code_simp+

lemma exit_status_tells_witness:
  "\<exists>c r w1 w2. live_main [''sfync'', ''down'', ''live''] = Some (0, c) \<and>
     d_run download live_env [] live_profile False w1 = Some (Inr r, w2) \<and> Errors r = []"
proof -
  obtain c where c: "live_main [''sfync'', ''down'', ''live''] = Some (0, c)"
    using live_main_run(1) by auto
  have d: "mirror_dir [''sfync'', ''down'', ''live''] = download" by (simp add: mirror_dir_def)
  have a: "2 \<le> length [''sfync'', ''down'', ''live'']"
    "[''sfync'', ''down'', ''live''] ! 1 = ''up'' \<or> [''sfync'', ''down'', ''live''] ! 1 = ''down''" by simp_all
  have p: "[''sfync'', ''down'', ''live''] ! 2 = ''live''" by simp
  note t = exit_status_tells [OF a c [unfolded live_main_def], unfolded d p live_resolved]
  have "\<exists>profile c1 r w1 w2. (Inr live_profile :: Profile res, idle) = (Inr profile, c1) \<and>
      d_run download live_env [] profile False w1 = Some (Inr r, w2) \<and> Success r \<and> Errors r = []"
    using t by (simp only: refl if_True)
  then obtain r w1 w2 where "d_run download live_env [] live_profile False w1 = Some (Inr r, w2)" "Errors r = []"
    by auto
  then show ?thesis using c by blast
qed

end
